(* ===== verification/Prelude.thy ===== *)
theory Prelude
  imports Main "HOL-Library.Multiset"
begin

text \<open>
  What every component of the model shares: instants and durations, the environment an
  operation runs in (clock, randomness, identifiers, failing statements), the shape of an
  action with early returns, and tables as lists of rows with the SQL statements the store
  issues on them. The collections \<open>tbl\<close> (tables) and \<open>act\<close> (actions) carry the proofs
  of the components.
\<close>

named_theorems tbl \<open>facts about tables and the statements on them\<close>
named_theorems act \<open>facts about actions with early returns\<close>
named_theorems keeps \<open>actions that keep a predicate of the state\<close>

section \<open>Time\<close>

text \<open>
  An instant counts microseconds, the resolution of \<open>timestamptz\<close>, from Go's zero time; a
  duration counts microseconds too.
\<close>

type_synonym instant = int
type_synonym duration = int

abbreviation second :: duration where "second \<equiv> 1000000"
abbreviation minute :: duration where "minute \<equiv> 60 * second"
abbreviation hour :: duration where "hour \<equiv> 60 * minute"

text \<open>\<open>t.Truncate(d)\<close>: down to a multiple of \<open>d\<close> since the zero time; \<open>t\<close> itself when
  \<open>d <= 0\<close>.\<close>

definition Truncate :: "instant \<Rightarrow> duration \<Rightarrow> instant" where
  "Truncate t d = (if d \<le> 0 then t else t - t mod d)"

lemma Truncate_le: "Truncate t d \<le> t"
  by (simp add: Truncate_def)

lemma Truncate_gt: "0 < d \<Longrightarrow> t < Truncate t d + d"
  by (simp add: Truncate_def)

lemma Truncate_eq_iff:
  assumes "0 < d"
  shows "Truncate s d = Truncate t d \<longleftrightarrow> s div d = t div d"
proof -
  have "Truncate x d = d * (x div d)" for x
    using assms by (simp add: Truncate_def minus_mod_eq_mult_div)
  then show ?thesis using assms by simp
qed

section \<open>What an operation reads from its surroundings\<close>

text \<open>
  One call of an operation gets a context: \<open>flt k\<close> says that its statement number \<open>k\<close>
  fails for a reason outside the model (connection, cancellation, an encoding Postgres
  rejects), \<open>clk k\<close> is its reading number \<open>k\<close> of the clock, \<open>uid k\<close> what its call
  number \<open>k\<close> of \<open>ulid.Make\<close> returns, \<open>rnd k\<close> the bytes of its call number \<open>k\<close> of
  \<open>rand.Read\<close>, unless \<open>rnd_err k\<close>.
\<close>

record opctx =
  flt :: "nat \<Rightarrow> bool"
  clk :: "nat \<Rightarrow> instant"
  uid :: "nat \<Rightarrow> string"
  rnd :: "nat \<Rightarrow> nat \<Rightarrow> char"
  rnd_err :: "nat \<Rightarrow> bool"

text \<open>\<open>rand.Read(b)\<close> on a buffer of \<open>n\<close> bytes: it fills the buffer or fails.\<close>

definition rand_read :: "opctx \<Rightarrow> nat \<Rightarrow> nat \<Rightarrow> string option" where
  "rand_read x k n = (if rnd_err x k then None else Some (map (rnd x k) [0..<n]))"

lemma length_rand_read: "rand_read x k n = Some b \<Longrightarrow> length b = n"
  by (auto simp: rand_read_def split: if_splits)

text \<open>A context for witnesses: nothing fails, the clock stands at \<open>t\<close>.\<close>

definition calm :: "instant \<Rightarrow> string \<Rightarrow> char \<Rightarrow> opctx" where
  "calm t i c = \<lparr>flt = (\<lambda>_. False), clk = (\<lambda>_. t), uid = (\<lambda>_. i), rnd = (\<lambda>_ _. c),
     rnd_err = (\<lambda>_. False)\<rparr>"

lemma calm_simps [simp]:
  "flt (calm t i c) k = False" "clk (calm t i c) k = t" "uid (calm t i c) k = i"
  "rnd (calm t i c) k j = c" "rnd_err (calm t i c) k = False"
  by (simp_all add: calm_def)

section \<open>Tables\<close>

text \<open>
  A table is the list of its rows. \<open>UPDATE t SET f WHERE P\<close>, \<open>DELETE FROM t WHERE P\<close> and a
  query that reads the first matching row.
\<close>

definition update_where :: "('r \<Rightarrow> bool) \<Rightarrow> ('r \<Rightarrow> 'r) \<Rightarrow> 'r list \<Rightarrow> 'r list" where
  "update_where P f t = map (\<lambda>r. if P r then f r else r) t"

definition delete_where :: "('r \<Rightarrow> bool) \<Rightarrow> 'r list \<Rightarrow> 'r list" where
  "delete_where P t = filter (\<lambda>r. \<not> P r) t"

definition select_one :: "('r \<Rightarrow> bool) \<Rightarrow> 'r list \<Rightarrow> 'r option" where
  "select_one P t = find P t"

text \<open>\<open>COALESCE(a, b)\<close> with \<open>b\<close> not null.\<close>

definition coalesce :: "'a option \<Rightarrow> 'a \<Rightarrow> 'a option" where
  "coalesce a b = (case a of None \<Rightarrow> Some b | Some v \<Rightarrow> Some v)"

lemma coalesce_not_None [simp]: "coalesce a b \<noteq> None"
  by (simp add: coalesce_def split: option.splits)

lemma coalesce_ex [simp]: "\<exists>v. coalesce a b = Some v"
  by (simp add: coalesce_def split: option.splits)

lemma coalesce_Some [simp]: "coalesce (Some v) b = Some v"
  by (simp add: coalesce_def)

lemma coalesce_eq_None [simp]: "(coalesce a b = None) = False"
  by simp

lemma mem_update_where [tbl]:
  "r \<in> set (update_where P f t) \<longleftrightarrow> (\<exists>q \<in> set t. r = (if P q then f q else q))"
  by (auto simp: update_where_def)

lemma mem_delete_where [tbl]: "r \<in> set (delete_where P t) \<longleftrightarrow> r \<in> set t \<and> \<not> P r"
  by (simp add: delete_where_def)

lemma ball_update_where [tbl]:
  "(\<forall>r \<in> set (update_where P f t). Q r) \<longleftrightarrow> (\<forall>r \<in> set t. if P r then Q (f r) else Q r)"
  by (auto simp: update_where_def)

lemma ball_delete_where [tbl]:
  "(\<forall>r \<in> set (delete_where P t). Q r) \<longleftrightarrow> (\<forall>r \<in> set t. P r \<or> Q r)"
  by (auto simp: delete_where_def)

lemma key_update_where [tbl]:
  "(\<And>r. P r \<Longrightarrow> k (f r) = k r) \<Longrightarrow> map k (update_where P f t) = map k t"
  by (simp add: update_where_def)

lemma distinct_delete_where [tbl]:
  "distinct (map k t) \<Longrightarrow> distinct (map k (delete_where P t))"
  by (simp add: delete_where_def distinct_map_filter)

lemma select_one_Some [tbl]: "select_one P t = Some r \<Longrightarrow> r \<in> set t \<and> P r"
  by (auto simp: select_one_def find_Some_iff)

lemma select_one_None [tbl]: "select_one P t = None \<longleftrightarrow> (\<forall>r \<in> set t. \<not> P r)"
  by (auto simp: select_one_def find_None_iff)

lemma select_one_Nil [simp]: "select_one P [] = None"
  by (simp add: select_one_def)

lemma select_one_Cons [simp]:
  "select_one P (r # t) = (if P r then Some r else select_one P t)"
  by (simp add: select_one_def)

lemma update_where_Nil [simp]: "update_where P f [] = []"
  by (simp add: update_where_def)

lemma update_where_Cons [simp]:
  "update_where P f (r # t) = (if P r then f r else r) # update_where P f t"
  by (simp add: update_where_def)

lemma update_where_none: "(\<And>r. r \<in> set t \<Longrightarrow> \<not> P r) \<Longrightarrow> update_where P f t = t"
  by (induction t) auto

lemma select_one_append [tbl]:
  "select_one P (t @ [r]) =
     (case select_one P t of Some q \<Rightarrow> Some q | None \<Rightarrow> if P r then Some r else None)"
  by (induction t) (auto simp: select_one_def)

lemma set_map_delete: "set (map k (delete_where Q t)) \<subseteq> set (map k t)"
  by (auto simp: delete_where_def)

lemma select_one_delete: "select_one P t = Some r \<Longrightarrow> \<not> Q r \<Longrightarrow> select_one P (delete_where Q t) = Some r"
  by (induction t) (auto simp: delete_where_def split: if_splits)

lemma select_one_unique:
  "distinct (map k t) \<Longrightarrow> r \<in> set t \<Longrightarrow> select_one (\<lambda>q. k q = k r) t = Some r"
  by (induction t) (auto simp: select_one_def rev_image_eqI)

lemma distinct_keyD: "distinct (map k t) \<Longrightarrow> r \<in> set t \<Longrightarrow> q \<in> set t \<Longrightarrow> k r = k q \<Longrightarrow> r = q"
  by (metis distinct_map inj_onD)

lemma select_one_update_None [tbl]:
  "(\<And>r. r \<in> set t \<Longrightarrow> P r \<Longrightarrow> \<not> Q (f r)) \<Longrightarrow> (\<And>r. r \<in> set t \<Longrightarrow> \<not> P r \<Longrightarrow> \<not> Q r) \<Longrightarrow>
   select_one Q (update_where P f t) = None"
  by (force simp: select_one_None update_where_def)

text \<open>\<open>ORDER BY\<close>: a stable insertion sort; text compares byte by byte, the
  \<open>C\<close> collation.\<close>

fun str_le :: "string \<Rightarrow> string \<Rightarrow> bool" where
  "str_le [] t = True"
| "str_le (c # s) [] = False"
| "str_le (c # s) (d # t) =
     ((of_char c :: nat) < of_char d \<or> (of_char c :: nat) = of_char d \<and> str_le s t)"

fun insert_by :: "('a \<Rightarrow> 'a \<Rightarrow> bool) \<Rightarrow> 'a \<Rightarrow> 'a list \<Rightarrow> 'a list" where
  "insert_by le x [] = [x]"
| "insert_by le x (y # ys) = (if le x y then x # y # ys else y # insert_by le x ys)"

definition order_by :: "('a \<Rightarrow> 'a \<Rightarrow> bool) \<Rightarrow> 'a list \<Rightarrow> 'a list" where
  "order_by le xs = foldr (insert_by le) xs []"

lemma mset_insert_by: "mset (insert_by le x ys) = add_mset x (mset ys)"
  by (induction ys) auto

lemma mset_order_by [tbl]: "mset (order_by le xs) = mset xs"
  by (induction xs) (simp_all add: order_by_def mset_insert_by)

lemma set_order_by [tbl]: "set (order_by le xs) = set xs"
  by (metis mset_order_by set_mset_mset)

lemma sorted_insert_by:
  assumes total: "\<And>a b. le a b \<or> le b a" and trans: "\<And>a b c. le a b \<Longrightarrow> le b c \<Longrightarrow> le a c"
  shows "sorted_wrt le ys \<Longrightarrow> sorted_wrt le (insert_by le x ys)"
proof (induction ys)
  case (Cons y ys)
  have mem: "set (insert_by le x ys) = insert x (set ys)" for ys
    by (metis mset_insert_by set_mset_add_mset_insert set_mset_mset)
  show ?case
    using Cons total [of x y] by (auto simp: mem intro: trans)
qed simp

lemma sorted_order_by:
  assumes "\<And>a b. le a b \<or> le b a" and "\<And>a b c. le a b \<Longrightarrow> le b c \<Longrightarrow> le a c"
  shows "sorted_wrt le (order_by le xs)"
  by (induction xs) (simp_all add: order_by_def sorted_insert_by assms)

section \<open>Actions with early returns\<close>

text \<open>
  A step of a request handler either writes a response and returns, or hands a value on;
  either way it may have changed the world.
\<close>

type_synonym ('w, 'e, 'a) action = "'w \<Rightarrow> ('e + 'a) \<times> 'w"

definition stop :: "'e \<Rightarrow> ('w, 'e, 'a) action" where
  "stop e w = (Inl e, w)"

definition give :: "'a \<Rightarrow> ('w, 'e, 'a) action" where
  "give a w = (Inr a, w)"

definition seq :: "('w, 'e, 'a) action \<Rightarrow> ('a \<Rightarrow> ('w, 'e, 'b) action) \<Rightarrow> ('w, 'e, 'b) action" where
  "seq m f w = (case m w of (Inl e, w') \<Rightarrow> (Inl e, w') | (Inr a, w') \<Rightarrow> f a w')"

definition getw :: "('w, 'e, 'w) action" where
  "getw w = (Inr w, w)"

text \<open>Run an action on a part of the world and keep what it returns, error or value.\<close>

definition zoom :: "('w \<Rightarrow> 's) \<Rightarrow> (('s \<Rightarrow> 's) \<Rightarrow> 'w \<Rightarrow> 'w) \<Rightarrow> ('s \<Rightarrow> 'r \<times> 's) \<Rightarrow> ('w, 'e, 'r) action" where
  "zoom get upd m w = (case m (get w) of (r, s') \<Rightarrow> (Inr r, upd (\<lambda>_. s') w))"

lemma stop_run [act, simp]: "stop e w = (Inl e, w)"
  by (simp add: stop_def)

lemma give_run [act, simp]: "give a w = (Inr a, w)"
  by (simp add: give_def)

lemma seq_run [act]:
  "m w = (Inl e, w') \<Longrightarrow> seq m f w = (Inl e, w')"
  "m w = (Inr a, w') \<Longrightarrow> seq m f w = f a w'"
  by (simp_all add: seq_def)

lemma seq_give [act, simp]: "seq (give a) f = f a"
  by (simp add: seq_def fun_eq_iff)

lemma seq_stop [act, simp]: "seq (stop e) f = stop e"
  by (simp add: seq_def fun_eq_iff)

lemma seq_assoc: "seq (seq m f) g = seq m (\<lambda>a. seq (f a) g)"
  by (auto simp: seq_def fun_eq_iff split: prod.splits sum.splits)

lemma seq_InrE:
  assumes "seq m f w = (Inr b, w'')"
  obtains a w' where "m w = (Inr a, w')" "f a w' = (Inr b, w'')"
  using assms by (auto simp: seq_def split: prod.splits sum.splits)

lemma seq_post:
  assumes "\<And>e w'. m w = (Inl e, w') \<Longrightarrow> P w'" and "\<And>a w'. m w = (Inr a, w') \<Longrightarrow> P (snd (f a w'))"
  shows "P (snd (seq m f w))"
  using assms by (auto simp: seq_def split: prod.splits sum.splits)

text \<open>Predicates of the world an action keeps, whatever it returns.\<close>

definition kept :: "('w \<Rightarrow> bool) \<Rightarrow> ('w \<Rightarrow> 'r \<times> 'w) \<Rightarrow> bool" where
  "kept I m \<longleftrightarrow> (\<forall>w. I w \<longrightarrow> I (snd (m w)))"

lemma keptI: "(\<And>w. I w \<Longrightarrow> I (snd (m w))) \<Longrightarrow> kept I m"
  by (simp add: kept_def)

lemma keptD: "kept I m \<Longrightarrow> I w \<Longrightarrow> m w = (r, w') \<Longrightarrow> I w'"
  by (metis kept_def snd_conv)

lemma kept_stop [keeps]: "kept I (stop e)"
  by (simp add: kept_def)

lemma kept_give [keeps]: "kept I (give a)"
  by (simp add: kept_def)

lemma kept_getw [keeps]: "kept I getw"
  by (simp add: kept_def getw_def)

lemma kept_seq [keeps]: "kept I m \<Longrightarrow> (\<And>a. kept I (f a)) \<Longrightarrow> kept I (seq m f)"
  by (auto simp: kept_def seq_def split: prod.splits sum.splits)

lemma kept_if [keeps]: "kept I m \<Longrightarrow> kept I n \<Longrightarrow> kept I (if b then m else n)"
  by simp

lemma kept_option [keeps]:
  "kept I m \<Longrightarrow> (\<And>a. kept I (f a)) \<Longrightarrow> kept I (case v of None \<Rightarrow> m | Some a \<Rightarrow> f a)"
  by (simp split: option.split)

lemma kept_sum [keeps]:
  "(\<And>e. kept I (g e)) \<Longrightarrow> (\<And>a. kept I (f a)) \<Longrightarrow> kept I (case v of Inl e \<Rightarrow> g e | Inr a \<Rightarrow> f a)"
  by (simp split: sum.split)

text \<open>An action that leads from one predicate to a weaker one: \<open>A\<close> until it did the one thing \<open>A\<close>
  does not survive, \<open>B\<close> from then on.\<close>

definition moves :: "('w \<Rightarrow> bool) \<Rightarrow> ('w \<Rightarrow> bool) \<Rightarrow> ('w \<Rightarrow> 'r \<times> 'w) \<Rightarrow> bool" where
  "moves A B m \<longleftrightarrow> (\<forall>w. A w \<longrightarrow> B (snd (m w)))"

lemma movesI: "(\<And>w. A w \<Longrightarrow> B (snd (m w))) \<Longrightarrow> moves A B m"
  by (simp add: moves_def)

lemma movesD: "moves A B m \<Longrightarrow> A w \<Longrightarrow> m w = (r, w') \<Longrightarrow> B w'"
  by (metis moves_def snd_conv)

lemma moves_weaken: "kept A m \<Longrightarrow> (\<And>w. A w \<Longrightarrow> B w) \<Longrightarrow> moves A B m"
  by (simp add: moves_def kept_def)

lemma moves_seq_after: "moves A B m \<Longrightarrow> (\<And>a. kept B (f a)) \<Longrightarrow> moves A B (seq m f)"
  by (auto simp: moves_def kept_def seq_def split: prod.splits sum.splits)

lemma moves_seq_before:
  "kept A m \<Longrightarrow> (\<And>w. A w \<Longrightarrow> B w) \<Longrightarrow> (\<And>a. moves A B (f a)) \<Longrightarrow> moves A B (seq m f)"
  by (auto simp: moves_def kept_def seq_def split: prod.splits sum.splits)

lemma moves_branches:
  "moves A B m \<Longrightarrow> moves A B n \<Longrightarrow> moves A B (if b then m else n)"
  "moves A B m \<Longrightarrow> (\<And>a. moves A B (f a)) \<Longrightarrow> moves A B (case v of None \<Rightarrow> m | Some a \<Rightarrow> f a)"
  "(\<And>e. v' = Inl e \<Longrightarrow> moves A B (g e)) \<Longrightarrow> (\<And>a. v' = Inr a \<Longrightarrow> moves A B (h a)) \<Longrightarrow>
   moves A B (case v' of Inl e \<Rightarrow> g e | Inr a \<Rightarrow> h a)"
  "moves A B (k u) \<Longrightarrow> moves A B (Let u k)"
  by (simp_all split: option.split sum.split)

end
