(* ===== verification/Machine.thy ===== *)
theory Machine
  imports Prelude
begin

text \<open>
  The interfaces between a state machine and what is proved of its runs. \<open>machine\<close> is an
  invariant; \<open>absorbing\<close> adds a property of states that, once it holds, holds for ever (a
  spent secret, a revoked family); \<open>one_time\<close> adds the operation that redeems a secret and the
  three laws under which a secret is redeemed at most once, whatever happens in between. The
  store's components interpret them.
\<close>

locale machine =
  fixes start :: "'s \<Rightarrow> bool"
    and step :: "'s \<Rightarrow> 's \<Rightarrow> bool"
    and inv :: "'s \<Rightarrow> bool"
  assumes start_inv: "start s \<Longrightarrow> inv s"
    and step_inv: "inv s \<Longrightarrow> step s t \<Longrightarrow> inv t"
begin

lemma run_inv: "inv s \<Longrightarrow> rtranclp step s t \<Longrightarrow> inv t"
  by (rotate_tac, induction rule: rtranclp_induct) (auto intro: step_inv)

lemma reach_inv: "start s \<Longrightarrow> rtranclp step s t \<Longrightarrow> inv t"
  by (blast intro: start_inv run_inv)

end

locale absorbing = machine start step inv
  for start :: "'s \<Rightarrow> bool" and step and inv +
  fixes dead :: "'k \<Rightarrow> 's \<Rightarrow> bool"
  assumes dead_step: "inv s \<Longrightarrow> dead k s \<Longrightarrow> step s t \<Longrightarrow> dead k t"
begin

lemma dead_run:
  assumes "rtranclp step s t" and "inv s" and "dead k s"
  shows "dead k t"
  using assms
proof (induction rule: rtranclp_induct)
  case (step t u)
  then have "inv t" by (blast intro: run_inv)
  with step show ?case by (blast intro: dead_step)
qed

end

locale one_time = absorbing start step inv dead
  for start :: "'s \<Rightarrow> bool" and step and inv and dead :: "'k \<Rightarrow> 's \<Rightarrow> bool" +
  fixes redeem :: "'x \<Rightarrow> 'k \<Rightarrow> 's \<Rightarrow> 'e + 'r"
    and after :: "'x \<Rightarrow> 'k \<Rightarrow> 's \<Rightarrow> 's"
    and admissible :: "'x \<Rightarrow> 's \<Rightarrow> bool"
  assumes redeem_step: "admissible x s \<Longrightarrow> redeem x k s = Inr r \<Longrightarrow> step s (after x k s)"
    and redeem_spends: "inv s \<Longrightarrow> admissible x s \<Longrightarrow> redeem x k s = Inr r \<Longrightarrow> dead k (after x k s)"
    and dead_refused: "dead k s \<Longrightarrow> \<exists>e. redeem x k s = Inl e"
begin

lemma at_most_once:
  assumes "inv s" and "admissible x s" and "redeem x k s = Inr r"
    and "rtranclp step (after x k s) t"
  shows "\<exists>e. redeem y k t = Inl e"
proof -
  have "inv (after x k s)" using assms(1) redeem_step [OF assms(2,3)] by (rule step_inv)
  with assms(4) have "dead k t" using redeem_spends [OF assms(1-3)] by (rule dead_run)
  then show ?thesis by (rule dead_refused)
qed

end

section \<open>Tables of secrets\<close>

text \<open>
  What the tables of single-use secrets have in common: a row has a key (the hash of the
  secret) and is used or not. \<open>hs\<close> is the set of keys issued so far.
\<close>

definition tracked :: "('r \<Rightarrow> 'h) \<Rightarrow> 'h set \<Rightarrow> 'r list \<Rightarrow> bool" where
  "tracked key hs t \<longleftrightarrow> (\<forall>r \<in> set t. key r \<in> hs)"

definition spent_rows :: "('r \<Rightarrow> 'h) \<Rightarrow> ('r \<Rightarrow> bool) \<Rightarrow> 'h \<Rightarrow> 'h set \<Rightarrow> 'r list \<Rightarrow> bool" where
  "spent_rows key used h hs t \<longleftrightarrow> h \<in> hs \<and> (\<forall>r \<in> set t. key r = h \<longrightarrow> used r)"

lemma tracked_Nil [simp]: "tracked key hs []"
  by (simp add: tracked_def)

lemma tracked_mono: "tracked key hs t \<Longrightarrow> hs \<subseteq> hs' \<Longrightarrow> tracked key hs' t"
  by (auto simp: tracked_def)

lemma tracked_insert: "tracked key hs t \<Longrightarrow> tracked key (insert (key r) hs) (t @ [r])"
  by (auto simp: tracked_def)

lemma tracked_update:
  "tracked key hs t \<Longrightarrow> (\<And>r. key (f r) = key r) \<Longrightarrow> tracked key hs (update_where P f t)"
  by (simp add: tracked_def ball_update_where)

lemma tracked_delete: "tracked key hs t \<Longrightarrow> tracked key hs (delete_where P t)"
  by (simp add: tracked_def ball_delete_where)

lemma spent_mono: "spent_rows key used h hs t \<Longrightarrow> hs \<subseteq> hs' \<Longrightarrow> spent_rows key used h hs' t"
  by (auto simp: spent_rows_def)

lemma spent_insert:
  "spent_rows key used h hs t \<Longrightarrow> key r \<notin> hs \<Longrightarrow> spent_rows key used h (insert (key r) hs) (t @ [r])"
  by (auto simp: spent_rows_def)

lemma spent_other:
  "spent_rows key used h hs t \<Longrightarrow> key r \<noteq> h \<Longrightarrow> hs \<subseteq> hs' \<Longrightarrow> spent_rows key used h hs' (t @ [r])"
  by (auto simp: spent_rows_def)

lemma spent_update:
  "spent_rows key used h hs t \<Longrightarrow> (\<And>r. key (f r) = key r) \<Longrightarrow> (\<And>r. used r \<Longrightarrow> used (f r)) \<Longrightarrow>
   spent_rows key used h hs (update_where P f t)"
  by (simp add: spent_rows_def ball_update_where)

lemma spent_delete: "spent_rows key used h hs t \<Longrightarrow> spent_rows key used h hs (delete_where P t)"
  by (auto simp: spent_rows_def mem_delete_where)

lemma spent_after_use:
  "tracked key hs t \<Longrightarrow> r \<in> set t \<Longrightarrow> key r = h \<Longrightarrow> (\<And>q. used (f q)) \<Longrightarrow>
   spent_rows key used h hs (update_where (\<lambda>q. key q = h) f t)"
  by (auto simp: spent_rows_def tracked_def ball_update_where)

lemmas tracked_rules = tracked_Nil tracked_insert tracked_update tracked_delete
lemmas spent_rules = spent_insert spent_update spent_delete

end
