(* ===== verification/Base64.thy ===== *)
theory Base64
  imports Prelude
begin

text \<open>
  The encodings of Go's \<open>encoding/base64\<close> the program uses: \<open>RawURLEncoding\<close> for tokens,
  \<open>RawStdEncoding.Strict()\<close> for password hashes, \<open>StdEncoding\<close> for signing keys. A byte string
  is a list of \<open>char\<close>. Decoding skips CR and LF wherever they stand, as Go's does, and in
  strict mode refuses a last group whose unused bits are not zero.
\<close>

definition url_alphabet :: string where
  "url_alphabet = ''ABCDEFGHIJKLMNOPQRSTUVWXYZabcdefghijklmnopqrstuvwxyz0123456789-_''"

definition std_alphabet :: string where
  "std_alphabet = ''ABCDEFGHIJKLMNOPQRSTUVWXYZabcdefghijklmnopqrstuvwxyz0123456789+/''"

text \<open>The position of a character in an alphabet: Go's \<open>decodeMap\<close>.\<close>

fun position :: "'a list \<Rightarrow> 'a \<Rightarrow> nat option" where
  "position [] c = None"
| "position (a # al) c = (if a = c then Some 0 else map_option Suc (position al c))"

lemma position_nth: "distinct al \<Longrightarrow> n < length al \<Longrightarrow> position al (al ! n) = Some n"
proof (induction al arbitrary: n)
  case (Cons a al)
  then show ?case by (cases n) (auto simp: nth_mem)
qed simp

text \<open>Encoding: three bytes to four characters, a last group of one or two bytes to two or
  three.\<close>

abbreviation byte :: "char \<Rightarrow> nat" where "byte c \<equiv> of_char c"

fun sextets :: "string \<Rightarrow> nat list" where
  "sextets [] = []"
| "sextets [a] = [byte a div 4, (byte a mod 4) * 16]"
| "sextets [a, b] = [byte a div 4, (byte a mod 4) * 16 + byte b div 16, (byte b mod 16) * 4]"
| "sextets (a # b # c # r) =
     [byte a div 4, (byte a mod 4) * 16 + byte b div 16, (byte b mod 16) * 4 + byte c div 64,
      byte c mod 64] @ sextets r"

definition EncodeToString :: "string \<Rightarrow> string \<Rightarrow> string" where
  "EncodeToString al bs = map (\<lambda>n. al ! n) (sextets bs)"

text \<open>Decoding of the sextets, strict: the unused low bits of a short last group are zero.\<close>

fun unsextets :: "nat list \<Rightarrow> string option" where
  "unsextets [] = Some []"
| "unsextets [p] = None"
| "unsextets [p, q] = (if q mod 16 = 0 then Some [char_of (p * 4 + q div 16)] else None)"
| "unsextets [p, q, r] =
     (if r mod 4 = 0 then Some [char_of (p * 4 + q div 16), char_of ((q mod 16) * 16 + r div 4)]
      else None)"
| "unsextets (p # q # r # s # t) =
     map_option (\<lambda>bs. char_of (p * 4 + q div 16) # char_of ((q mod 16) * 16 + r div 4)
       # char_of ((r mod 4) * 64 + s) # bs) (unsextets t)"

fun positions :: "string \<Rightarrow> string \<Rightarrow> nat list option" where
  "positions al [] = Some []"
| "positions al (c # cs) =
     (case position al c of None \<Rightarrow> None | Some n \<Rightarrow> map_option ((#) n) (positions al cs))"

definition DecodeStrict :: "string \<Rightarrow> string \<Rightarrow> string option" where
  "DecodeStrict al s =
     Option.bind (positions al (filter (\<lambda>c. c \<noteq> CHR 0x0A \<and> c \<noteq> CHR 0x0D) s)) unsextets"

text \<open>Not strict, the unused bits are ignored; padded (\<open>StdEncoding\<close>), the last group is filled up
  to four characters with one or two \<open>=\<close>.\<close>

fun unsextets_lax :: "nat list \<Rightarrow> string option" where
  "unsextets_lax [] = Some []"
| "unsextets_lax [p] = None"
| "unsextets_lax [p, q] = Some [char_of (p * 4 + q div 16)]"
| "unsextets_lax [p, q, r] = Some [char_of (p * 4 + q div 16), char_of ((q mod 16) * 16 + r div 4)]"
| "unsextets_lax (p # q # r # s # t) =
     map_option (\<lambda>bs. char_of (p * 4 + q div 16) # char_of ((q mod 16) * 16 + r div 4)
       # char_of ((r mod 4) * 64 + s) # bs) (unsextets_lax t)"

definition DecodeRaw :: "string \<Rightarrow> string \<Rightarrow> string option" where
  "DecodeRaw al s =
     Option.bind (positions al (filter (\<lambda>c. c \<noteq> CHR 0x0A \<and> c \<noteq> CHR 0x0D) s)) unsextets_lax"

definition DecodePadded :: "string \<Rightarrow> string \<Rightarrow> string option" where
  "DecodePadded al s =
     (let t = filter (\<lambda>c. c \<noteq> CHR 0x0A \<and> c \<noteq> CHR 0x0D) s;
          pad = length (takeWhile (\<lambda>c. c = CHR ''='') (rev t));
          body = take (length t - min 2 pad) t
      in if length t mod 4 \<noteq> 0 then None else Option.bind (positions al body) unsextets_lax)"

section \<open>Decoding undoes encoding\<close>

lemma unsextets_lax: "unsextets ns = Some bs \<Longrightarrow> unsextets_lax ns = Some bs"
  by (induction ns arbitrary: bs rule: unsextets.induct) (auto split: if_splits)

lemma byte_less [simp]: "byte c < 256"
  using nat_of_char_less_256 [of c] by simp

lemma sextets_less: "n \<in> set (sextets bs) \<Longrightarrow> n < 64"
proof (induction bs rule: sextets.induct)
  case (2 a)
  have "byte a < 256" by simp
  with 2 show ?case by (auto; linarith)
next
  case (3 a b)
  have "byte a < 256" "byte b < 256" by simp_all
  with 3 show ?case by (auto; linarith)
next
  case (4 a b c r)
  have "byte a < 256" "byte b < 256" "byte c < 256" by simp_all
  with 4 show ?case by (auto; linarith)
qed simp

lemma glue:
  "r < k \<Longrightarrow> (m * k + r) div k = m" "r < k \<Longrightarrow> (m * k + r) mod k = r" for m :: nat
  by simp_all

lemma byte_div_less: "byte c div 4 < 64" "byte c div 16 < 16" "byte c div 64 < 4"
  using byte_less [of c] by linarith+

lemma group_digits:
  fixes a b c :: char
  shows "byte a div 4 * 4 + (byte a mod 4 * 16 + byte b div 16) div 16 = byte a"
    and "(byte a mod 4 * 16 + byte b div 16) mod 16 * 16
       + (byte b mod 16 * 4 + byte c div 64) div 4 = byte b"
    and "(byte b mod 16 * 4 + byte c div 64) mod 4 * 64 + byte c mod 64 = byte c"
    and "byte b mod 16 * 4 div 4 = byte b mod 16"
    and "byte a div 4 * 4 + byte a mod 4 * 16 div 16 = byte a"
    and "(byte a mod 4 * 16 + byte b div 16) mod 16 * 16 + byte b mod 16 = byte b"
    and "byte b mod 16 * 4 mod 4 = 0"
    and "byte a mod 4 * 16 mod 16 = 0"
  using byte_div_less [of b] byte_div_less [of c] by (simp_all only: glue) simp_all

lemma unsextets_sextets: "unsextets (sextets bs) = Some bs"
proof (induction bs rule: sextets.induct)
  case (4 a b c r)
  then show ?case by (simp only: sextets.simps append.simps unsextets.simps group_digits) simp
qed (simp_all only: sextets.simps append.simps unsextets.simps group_digits, simp_all)

lemma positions_nth:
  "distinct al \<Longrightarrow> (\<And>n. n \<in> set ns \<Longrightarrow> n < length al) \<Longrightarrow> positions al (map (\<lambda>n. al ! n) ns) = Some ns"
  by (induction ns) (auto simp: position_nth)

text \<open>An alphabet of 64 different characters, none of them CR or LF.\<close>

definition alphabet :: "string \<Rightarrow> bool" where
  "alphabet al \<longleftrightarrow> length al = 64 \<and> distinct al \<and> CHR 0x0A \<notin> set al \<and> CHR 0x0D \<notin> set al"

lemma url_alphabet [simp]: "alphabet url_alphabet"
  by (simp add: alphabet_def url_alphabet_def)

lemma std_alphabet [simp]: "alphabet std_alphabet"
  by (simp add: alphabet_def std_alphabet_def)

lemma set_EncodeToString:
  assumes "alphabet al"
  shows "set (EncodeToString al bs) \<subseteq> set al"
  using assms sextets_less [of _ bs] by (auto simp: EncodeToString_def alphabet_def)

lemma filter_EncodeToString:
  "alphabet al \<Longrightarrow> filter (\<lambda>c. c \<noteq> CHR 0x0A \<and> c \<noteq> CHR 0x0D) (EncodeToString al bs) = EncodeToString al bs"
  using set_EncodeToString [of al bs] by (auto simp: alphabet_def filter_id_conv)

lemma DecodeStrict_EncodeToString:
  assumes "alphabet al"
  shows "DecodeStrict al (EncodeToString al bs) = Some bs"
proof -
  have "positions al (EncodeToString al bs) = Some (sextets bs)"
    unfolding EncodeToString_def
    by (rule positions_nth) (use assms sextets_less [of _ bs] in \<open>auto simp: alphabet_def\<close>)
  then show ?thesis by (simp add: DecodeStrict_def filter_EncodeToString assms unsextets_sextets)
qed

lemma EncodeToString_inj:
  "alphabet al \<Longrightarrow> EncodeToString al b = EncodeToString al c \<longleftrightarrow> b = c"
  by (metis DecodeStrict_EncodeToString option.inject)

lemma length_EncodeToString:
  "length (EncodeToString al bs) = (length bs * 8 + 5) div 6"
  by (induction bs rule: sextets.induct) (simp_all add: EncodeToString_def)

end
