(* ===== verification/GoStrings.thy ===== *)
theory GoStrings
  imports Base64
begin

text \<open>
  The functions of Go's \<open>strings\<close>, \<open>strconv\<close> and \<open>fmt\<close> the program uses, on byte strings.
  An index that is not found is \<open>-1\<close>, as in Go.
\<close>

section \<open>Decimal numbers\<close>

text \<open>\<open>strconv.FormatInt(v, 10)\<close>, \<open>big.Int.String\<close> and \<open>%d\<close>.\<close>

fun digits :: "nat \<Rightarrow> string" where
  "digits v = (if v < 10 then [''0123456789'' ! v]
     else digits (v div 10) @ [''0123456789'' ! (v mod 10)])"

declare digits.simps [simp del]

definition FormatInt :: "int \<Rightarrow> string" where
  "FormatInt v = (if v < 0 then CHR ''-'' # digits (nat (- v)) else digits (nat v))"

definition is_digit :: "char \<Rightarrow> bool" where
  "is_digit c \<longleftrightarrow> c \<in> set ''0123456789''"

definition digit_value :: "char \<Rightarrow> nat" where
  "digit_value c = (case position ''0123456789'' c of None \<Rightarrow> 0 | Some n \<Rightarrow> n)"

definition decimal :: "string \<Rightarrow> nat" where
  "decimal s = foldl (\<lambda>a c. a * 10 + digit_value c) 0 s"

lemma digit_value_nth: "d < 10 \<Longrightarrow> digit_value (''0123456789'' ! d) = d"
  by (subst digit_value_def, subst position_nth) simp_all

lemma is_digit_nth: "d < 10 \<Longrightarrow> is_digit (''0123456789'' ! d)"
  unfolding is_digit_def by (intro nth_mem) simp

lemma digits_chars: "list_all is_digit (digits v)"
proof (induction v rule: digits.induct)
  case (1 v)
  then show ?case
    using is_digit_nth [of v] is_digit_nth [of "v mod 10"] by (subst digits.simps) auto
qed

lemma digits_not_Nil [simp]: "digits v \<noteq> []"
  by (subst digits.simps) simp

lemma decimal_digits: "decimal (digits v) = v"
proof (induction v rule: digits.induct)
  case (1 v)
  then show ?case
    using digit_value_nth [of v] digit_value_nth [of "v mod 10"]
    by (subst digits.simps) (auto simp: decimal_def)
qed

lemma digits_inj: "digits v = digits w \<longleftrightarrow> v = w"
  by (metis decimal_digits)

lemma FormatInt_inj: "FormatInt v = FormatInt w \<longleftrightarrow> v = w"
proof -
  have minus: "digits n \<noteq> CHR ''-'' # s" for s n
  proof
    assume "digits n = CHR ''-'' # s"
    with digits_chars [of n] have "is_digit CHR ''-''" by simp
    then show False by (simp add: is_digit_def)
  qed
  show ?thesis
    using minus minus [symmetric] by (simp add: FormatInt_def digits_inj eq_nat_nat_iff)
qed

lemma length_digits: "0 < n \<Longrightarrow> v < 10 ^ n \<Longrightarrow> length (digits v) \<le> n"
proof (induction v arbitrary: n rule: digits.induct)
  case (1 v)
  show ?case
  proof (cases "v < 10")
    case True
    with 1 show ?thesis by (subst digits.simps) simp
  next
    case False
    with "1.prems" obtain k where k: "n = Suc k" "0 < k" by (cases n; cases "n - 1") auto
    with "1.prems" have "v div 10 < 10 ^ k" by (simp add: less_mult_imp_div_less mult.commute)
    with 1 False k show ?thesis by (subst digits.simps) simp
  qed
qed

section \<open>Searching\<close>

fun IndexByte :: "string \<Rightarrow> char \<Rightarrow> int" where
  "IndexByte [] c = -1"
| "IndexByte (d # s) c =
     (if d = c then 0 else let i = IndexByte s c in if i < 0 then -1 else i + 1)"

definition LastIndexByte :: "string \<Rightarrow> char \<Rightarrow> int" where
  "LastIndexByte s c =
     (let i = IndexByte (rev s) c in if i < 0 then -1 else int (length s) - 1 - i)"

definition ContainsAny :: "string \<Rightarrow> string \<Rightarrow> bool" where
  "ContainsAny s chars \<longleftrightarrow> list_ex (\<lambda>c. c \<in> set chars) s"

definition HasPrefix :: "string \<Rightarrow> string \<Rightarrow> bool" where
  "HasPrefix s p \<longleftrightarrow> take (length p) s = p"

text \<open>\<open>strings.TrimRight(s, cutset)\<close> and \<open>strings.Split(s, sep)\<close> with a one-byte separator.\<close>

definition TrimRight :: "string \<Rightarrow> string \<Rightarrow> string" where
  "TrimRight s cutset = rev (dropWhile (\<lambda>c. c \<in> set cutset) (rev s))"

fun Split :: "string \<Rightarrow> char \<Rightarrow> string list" where
  "Split [] sep = [[]]"
| "Split (c # s) sep =
     (if c = sep then [] # Split s sep
      else case Split s sep of [] \<Rightarrow> [[c]] | p # ps \<Rightarrow> (c # p) # ps)"

lemma IndexByte_bounds: "-1 \<le> IndexByte s c \<and> IndexByte s c < int (length s)"
  by (induction s) (auto simp: Let_def)

lemma IndexByte_found:
  "0 \<le> IndexByte s c \<Longrightarrow> s ! nat (IndexByte s c) = c \<and> c \<notin> set (take (nat (IndexByte s c)) s)"
  by (induction s) (auto simp: Let_def nat_add_distrib split: if_splits)

lemma IndexByte_absent: "IndexByte s c < 0 \<longleftrightarrow> c \<notin> set s"
  by (induction s) (auto simp: Let_def)

lemma Split_not_Nil [simp]: "Split s sep \<noteq> []"
  by (cases s) (auto split: list.splits)

lemma Split_single: "sep \<notin> set s \<Longrightarrow> Split s sep = [s]"
  by (induction s) auto

lemma Split_append: "sep \<notin> set p \<Longrightarrow> Split (p @ sep # s) sep = p # Split s sep"
  by (induction p) auto

section \<open>Case and white space\<close>

definition ascii :: "string \<Rightarrow> bool" where
  "ascii s \<longleftrightarrow> list_all (\<lambda>c. byte c < 128) s"

definition ascii_lower :: "char \<Rightarrow> char" where
  "ascii_lower c = (if 65 \<le> byte c \<and> byte c \<le> 90 then char_of (byte c + 32) else c)"

text \<open>\<open>strings.ToLower\<close>: byte by byte on ASCII, through Unicode's tables (a parameter)
  otherwise.\<close>

definition ToLower :: "(string \<Rightarrow> string) \<Rightarrow> string \<Rightarrow> string" where
  "ToLower U s = (if ascii s then map ascii_lower s else U s)"

text \<open>\<open>strings.EqualFold\<close> against a pattern whose letters fold to ASCII only.\<close>

definition EqualFold :: "string \<Rightarrow> string \<Rightarrow> bool" where
  "EqualFold s p \<longleftrightarrow> map ascii_lower s = map ascii_lower p"

text \<open>The encodings of the characters \<open>unicode.IsSpace\<close> accepts.\<close>

definition spaces :: "string list" where
  "spaces = [[CHR 0x09], [CHR 0x0A], [CHR 0x0B], [CHR 0x0C], [CHR 0x0D], [CHR 0x20],
     [CHR 0xC2, CHR 0x85], [CHR 0xC2, CHR 0xA0], [CHR 0xE1, CHR 0x9A, CHR 0x80],
     [CHR 0xE2, CHR 0x80, CHR 0x80], [CHR 0xE2, CHR 0x80, CHR 0x81], [CHR 0xE2, CHR 0x80, CHR 0x82],
     [CHR 0xE2, CHR 0x80, CHR 0x83], [CHR 0xE2, CHR 0x80, CHR 0x84], [CHR 0xE2, CHR 0x80, CHR 0x85],
     [CHR 0xE2, CHR 0x80, CHR 0x86], [CHR 0xE2, CHR 0x80, CHR 0x87], [CHR 0xE2, CHR 0x80, CHR 0x88],
     [CHR 0xE2, CHR 0x80, CHR 0x89], [CHR 0xE2, CHR 0x80, CHR 0x8A], [CHR 0xE2, CHR 0x80, CHR 0xA8],
     [CHR 0xE2, CHR 0x80, CHR 0xA9], [CHR 0xE2, CHR 0x80, CHR 0xAF], [CHR 0xE2, CHR 0x81, CHR 0x9F],
     [CHR 0xE3, CHR 0x80, CHR 0x80]]"

text \<open>Drop from the front any of the given words, as long as one is there.\<close>

function strip :: "string list \<Rightarrow> string \<Rightarrow> string" where
  "strip ws s =
     (case find (\<lambda>w. w \<noteq> [] \<and> HasPrefix s w) ws of
        None \<Rightarrow> s
      | Some w \<Rightarrow> strip ws (drop (length w) s))"
  by pat_completeness auto
termination
proof (relation "measure (\<lambda>(ws, s). length s)")
  fix ws s w
  assume "find (\<lambda>w. w \<noteq> [] \<and> HasPrefix s w) ws = Some w"
  then have "w \<noteq> []" "take (length w) s = w" by (auto simp: find_Some_iff HasPrefix_def)
  moreover from this have "s \<noteq> []" by auto
  ultimately show "((ws, drop (length w) s), (ws, s)) \<in> measure (\<lambda>(ws, s). length s)" by simp
qed simp

declare strip.simps [simp del]

definition TrimSpace :: "string \<Rightarrow> string" where
  "TrimSpace s = rev (strip (map rev spaces) (rev (strip spaces s)))"

lemma strip_stop: "find (\<lambda>w. w \<noteq> [] \<and> HasPrefix s w) ws = None \<Longrightarrow> strip ws s = s"
  by (subst strip.simps) simp

lemma strip_clean: "find (\<lambda>w. w \<noteq> [] \<and> HasPrefix (strip ws s) w) ws = None"
proof (induction ws s rule: strip.induct)
  case (1 ws s)
  show ?case
  proof (cases "find (\<lambda>w. w \<noteq> [] \<and> HasPrefix s w) ws")
    case None
    then show ?thesis by (simp add: strip_stop)
  next
    case (Some w)
    with 1 show ?thesis by (subst strip.simps) simp
  qed
qed

lemma strip_suffix: "\<exists>p. s = p @ strip ws s"
proof (induction ws s rule: strip.induct)
  case (1 ws s)
  show ?case
  proof (cases "find (\<lambda>w. w \<noteq> [] \<and> HasPrefix s w) ws")
    case None
    then show ?thesis by (simp add: strip_stop)
  next
    case (Some w)
    with 1 obtain p where "drop (length w) s = p @ strip ws (drop (length w) s)" by blast
    then have "s = (take (length w) s @ p) @ strip ws (drop (length w) s)"
      by (metis append.assoc append_take_drop_id)
    moreover have "strip ws s = strip ws (drop (length w) s)"
      using Some by (subst strip.simps) simp
    ultimately show ?thesis by metis
  qed
qed

section \<open>\<open>fmt.Sscanf\<close>\<close>

text \<open>A format is a list of literal characters and of \<open>%d\<close> verbs: into an \<open>int\<close>, or into an
  unsigned integer of so many bits. A verb skips white space, though not a line feed; what is left of the
  input after the format is ignored.\<close>

datatype verb = Lit char | DInt | DUint nat

definition blanks :: "string list" where
  "blanks = filter (\<lambda>w. w \<noteq> [CHR 0x0A]) spaces"

definition scan_digits :: "string \<Rightarrow> (nat \<times> string) option" where
  "scan_digits s =
     (let ds = takeWhile is_digit s in
      if ds = [] then None else Some (decimal ds, drop (length ds) s))"

definition scan_uint :: "nat \<Rightarrow> string \<Rightarrow> (int \<times> string) option" where
  "scan_uint bits s =
     (case scan_digits (strip blanks s) of
        None \<Rightarrow> None
      | Some (v, rest) \<Rightarrow> if v < 2 ^ bits then Some (int v, rest) else None)"

definition scan_int :: "string \<Rightarrow> (int \<times> string) option" where
  "scan_int s =
     (let s' = strip blanks s;
          (neg, t) = (if HasPrefix s' ''-'' then (True, drop 1 s')
                      else if HasPrefix s' ''+'' then (False, drop 1 s') else (False, s'))
      in case scan_digits t of
           None \<Rightarrow> None
         | Some (v, rest) \<Rightarrow>
             let i = (if neg then - int v else int v)
             in if - (2 ^ 63) \<le> i \<and> i < 2 ^ 63 then Some (i, rest) else None)"

fun Sscanf :: "verb list \<Rightarrow> string \<Rightarrow> int list option" where
  "Sscanf [] s = Some []"
| "Sscanf (Lit c # fs) s = (case s of [] \<Rightarrow> None | d # t \<Rightarrow> if d = c then Sscanf fs t else None)"
| "Sscanf (DInt # fs) s =
     (case scan_int s of None \<Rightarrow> None | Some (v, t) \<Rightarrow> map_option ((#) v) (Sscanf fs t))"
| "Sscanf (DUint bits # fs) s =
     (case scan_uint bits s of None \<Rightarrow> None | Some (v, t) \<Rightarrow> map_option ((#) v) (Sscanf fs t))"

lemma takeWhile_digits:
  "t = [] \<or> \<not> is_digit (hd t) \<Longrightarrow> takeWhile is_digit (digits v @ t) = digits v"
  using digits_chars [of v] by (cases t) (auto simp: list_all_iff takeWhile_append2)

lemma scan_digits_digits:
  "t = [] \<or> \<not> is_digit (hd t) \<Longrightarrow> scan_digits (digits v @ t) = Some (v, t)"
  by (simp add: scan_digits_def takeWhile_digits decimal_digits)

text \<open>A decimal number starts with no white space.\<close>

lemma hd_digits: "is_digit (hd (digits v))"
  using digits_chars [of v] by (cases "digits v") (simp_all add: list_all_iff)

lemma strip_blanks_digits: "strip blanks (digits v @ t) = digits v @ t"
proof (rule strip_stop)
  obtain c ds where d: "digits v = c # ds" by (cases "digits v") simp_all
  then have "is_digit c" using hd_digits [of v] by simp
  then have "c \<in> set ''0123456789''" by (simp add: is_digit_def)
  moreover have "\<forall>w \<in> set blanks. w \<noteq> [] \<and> hd w \<notin> set ''0123456789''"
    by (simp add: blanks_def spaces_def)
  ultimately have "\<not> HasPrefix (c # ds @ t) w" if "w \<in> set blanks" for w
    using that by (cases w) (auto simp: HasPrefix_def)
  then show "find (\<lambda>w. w \<noteq> [] \<and> HasPrefix (digits v @ t) w) blanks = None"
    by (auto simp: find_None_iff d)
qed

lemma scan_uint_digits:
  assumes "t = [] \<or> \<not> is_digit (hd t)" and "v < 2 ^ bits"
  shows "scan_uint bits (digits v @ t) = Some (int v, t)"
  using assms by (simp add: scan_uint_def strip_blanks_digits scan_digits_digits)

lemma scan_int_digits:
  assumes "t = [] \<or> \<not> is_digit (hd t)" and "v < 2 ^ 63"
  shows "scan_int (digits v @ t) = Some (int v, t)"
proof -
  obtain c ds where d: "digits v = c # ds" by (cases "digits v") simp_all
  then have "is_digit c" using hd_digits [of v] by simp
  then have "\<not> HasPrefix (digits v @ t) ''-''" "\<not> HasPrefix (digits v @ t) ''+''"
    by (auto simp: d HasPrefix_def is_digit_def)
  with assms show ?thesis
    by (simp add: scan_int_def strip_blanks_digits scan_digits_digits of_nat_less_iff [of v "2 ^ 63", where 'a = int, symmetric])
qed

end
