(* ===== verification/Json.thy ===== *)
theory Json
  imports GoStrings
begin

text \<open>
  What the program uses of Go's \<open>encoding/json\<close>: a parsed value and the way
  \<open>json.Unmarshal\<close> stores one into a struct. The text grammar itself is a parameter wherever
  a component reads JSON. A number keeps its literal,
  an object its members in order, duplicates included.
\<close>

datatype json =
    JNull
  | JBool bool
  | JNum string
  | JStr string
  | JArr "json list"
  | JObj "(string \<times> json) list"

text \<open>Reading the next value of a stream: the value and what follows it, the end of the stream
  after white space, or a syntax error. \<open>json.Unmarshal\<close> wants one value and then the end.\<close>

datatype json_next = JEnd | JBad | JValue json string

definition whole_value :: "(string \<Rightarrow> json_next) \<Rightarrow> string \<Rightarrow> json option" where
  "whole_value nx s =
     (case nx s of
        JValue v rest \<Rightarrow> (case nx rest of JEnd \<Rightarrow> Some v | _ \<Rightarrow> None)
      | _ \<Rightarrow> None)"

text \<open>\<open>foldName\<close>: member names match field names up to case. Besides the ASCII letters, two
  characters fold to one: \<open>U+017F\<close> to \<open>S\<close> and \<open>U+212A\<close> to \<open>K\<close>.\<close>

fun fold_name :: "string \<Rightarrow> string" where
  "fold_name [] = []"
| "fold_name (c # s) =
     (if c = CHR 0xC5 \<and> take 1 s = [CHR 0xBF] then CHR ''s'' # fold_name (drop 1 s)
      else if c = CHR 0xE2 \<and> take 2 s = [CHR 0x84, CHR 0xAA] then CHR ''k'' # fold_name (drop 2 s)
      else ascii_lower c # fold_name s)"

text \<open>A field is its name and its setter; a setter that returns \<open>None\<close> is a type error.\<close>

type_synonym 'r fields = "(string \<times> (json \<Rightarrow> 'r \<Rightarrow> 'r option)) list"

definition field_for :: "'r fields \<Rightarrow> string \<Rightarrow> (json \<Rightarrow> 'r \<Rightarrow> 'r option) option" where
  "field_for fs key =
     (case map_of fs key of
        Some f \<Rightarrow> Some f
      | None \<Rightarrow> map_option snd (find (\<lambda>(n, f). fold_name n = fold_name key) fs))"

text \<open>Members no field matches are skipped, unless the decoder disallows unknown fields.\<close>

fun set_members :: "bool \<Rightarrow> 'r fields \<Rightarrow> (string \<times> json) list \<Rightarrow> 'r \<Rightarrow> 'r option" where
  "set_members strict fs [] r = Some r"
| "set_members strict fs ((k, v) # ms) r =
     (case field_for fs k of
        None \<Rightarrow> if strict then None else set_members strict fs ms r
      | Some f \<Rightarrow> (case f v r of None \<Rightarrow> None | Some r' \<Rightarrow> set_members strict fs ms r'))"

definition into_struct :: "bool \<Rightarrow> 'r fields \<Rightarrow> json \<Rightarrow> 'r \<Rightarrow> 'r option" where
  "into_struct strict fs v r =
     (case v of JNull \<Rightarrow> Some r | JObj ms \<Rightarrow> set_members strict fs ms r | _ \<Rightarrow> None)"

definition into_string :: "(string \<Rightarrow> 'r \<Rightarrow> 'r) \<Rightarrow> json \<Rightarrow> 'r \<Rightarrow> 'r option" where
  "into_string upd v r = (case v of JNull \<Rightarrow> Some r | JStr s \<Rightarrow> Some (upd s r) | _ \<Rightarrow> None)"

definition into_bool :: "(bool \<Rightarrow> 'r \<Rightarrow> 'r) \<Rightarrow> json \<Rightarrow> 'r \<Rightarrow> 'r option" where
  "into_bool upd v r = (case v of JNull \<Rightarrow> Some r | JBool b \<Rightarrow> Some (upd b r) | _ \<Rightarrow> None)"

text \<open>\<open>strconv.ParseInt(s, 10, 64)\<close> on a JSON number literal: a fraction or an exponent is a
  syntax error, a value outside 64 bits a range error.\<close>

definition ParseInt64 :: "string \<Rightarrow> int option" where
  "ParseInt64 s =
     (let (neg, ds) = (if HasPrefix s ''-'' then (True, drop 1 s) else (False, s))
      in if ds = [] \<or> \<not> list_all is_digit ds then None
         else let v = (if neg then - int (decimal ds) else int (decimal ds))
              in if - (2 ^ 63) \<le> v \<and> v < 2 ^ 63 then Some v else None)"

definition into_int64 :: "(int \<Rightarrow> 'r \<Rightarrow> 'r) \<Rightarrow> json \<Rightarrow> 'r \<Rightarrow> 'r option" where
  "into_int64 upd v r =
     (case v of
        JNull \<Rightarrow> Some r
      | JNum s \<Rightarrow> (case ParseInt64 s of None \<Rightarrow> None | Some n \<Rightarrow> Some (upd n r))
      | _ \<Rightarrow> None)"

text \<open>A slice: each element starts from the zero value.\<close>

fun into_all :: "(json \<Rightarrow> 'a \<Rightarrow> 'a option) \<Rightarrow> 'a \<Rightarrow> json list \<Rightarrow> 'a list option" where
  "into_all f z [] = Some []"
| "into_all f z (v # vs) =
     (case f v z of
        None \<Rightarrow> None
      | Some a \<Rightarrow> (case into_all f z vs of None \<Rightarrow> None | Some as \<Rightarrow> Some (a # as)))"

definition into_slice :: "(json \<Rightarrow> 'a \<Rightarrow> 'a option) \<Rightarrow> 'a \<Rightarrow> json \<Rightarrow> 'a list option" where
  "into_slice f z v = (case v of JNull \<Rightarrow> Some [] | JArr vs \<Rightarrow> into_all f z vs | _ \<Rightarrow> None)"

lemma fold_name_ascii: "ascii s \<Longrightarrow> fold_name s = map ascii_lower s"
  by (induction s) (auto simp: ascii_def)

lemma ParseInt64_bounds: "ParseInt64 s = Some v \<Longrightarrow> - (2 ^ 63) \<le> v \<and> v < 2 ^ 63"
  by (auto simp: ParseInt64_def Let_def split: if_splits prod.splits)

end
