(* ===== verification/Store.thy ===== *)
theory Store
  imports Prelude Base64
begin

text \<open>
  The data model of \<open>internal/store\<close>: the rows of the eight tables of
  \<open>internal/store/migrations\<close>, the database, the errors the store returns, the functions of
  libraries it rests on, and the integrity constraints the migrations declare. A row holds the
  columns the program writes; \<open>users.phone\<close>, \<open>phone_verified_at\<close> and the \<open>created_at\<close>
  defaults no query reads are left out.
\<close>

section \<open>Library functions\<close>

text \<open>
  \<open>sha256\<close> is \<open>sha256.Sum256\<close>; \<open>citext\<close> folds a value of the column type \<open>citext\<close>: two
  such values are equal when their folds are; \<open>unicode_lower\<close> is the part of
  \<open>strings.ToLower\<close> that needs Unicode's tables; \<open>argon2\<close> is \<open>argon2.IDKey\<close> (password, salt,
  time, memory, threads, key length), \<open>None\<close> where it panics.
\<close>

record lib =
  sha256 :: "string \<Rightarrow> string"
  citext :: "string \<Rightarrow> string"
  unicode_lower :: "string \<Rightarrow> string"
  argon2 :: "string \<Rightarrow> string \<Rightarrow> nat \<Rightarrow> nat \<Rightarrow> nat \<Rightarrow> nat \<Rightarrow> string option"

text \<open>Library functions for witnesses: every function the identity, the key padded to its
  length.\<close>

definition plain :: lib where
  "plain = \<lparr>sha256 = (\<lambda>s. s), citext = (\<lambda>s. s), unicode_lower = (\<lambda>s. s),
     argon2 = (\<lambda>p s t m n k. Some (take k (p @ replicate k CHR ''0'')))\<rparr>"

lemma plain_simps [simp]:
  "sha256 plain s = s" "citext plain s = s" "unicode_lower plain s = s"
  "argon2 plain p s t m n k = Some (take k (p @ replicate k CHR ''0''))"
  by (simp_all add: plain_def)

section \<open>Errors\<close>

text \<open>\<open>ErrDB\<close> stands for any error of the driver the store passes on, \<open>ErrRand\<close> for a failing
  \<open>rand.Read\<close>; the others are the store's own values.\<close>

datatype store_error =
    ErrNotFound
  | ErrTokenReuse
  | ErrCodeInvalid
  | ErrCodeAttempts
  | ErrDB
  | ErrRand

section \<open>Rows\<close>

record User =
  uID :: string
  uEmail :: string
  uEmailVerifiedAt :: "instant option"
  uPasswordHash :: "string option"
  uCreatedAt :: instant
  uUpdatedAt :: instant
  uDisabledAt :: "instant option"

definition EmailVerified :: "User \<Rightarrow> bool" where
  "EmailVerified u \<longleftrightarrow> uEmailVerifiedAt u \<noteq> None"

record Identity =
  iID :: string
  iUserID :: string
  iProvider :: string
  iSubject :: string
  iEmail :: string
  iEmailVerified :: bool
  iRawProfile :: "string option"

record Client =
  cID :: string
  cName :: string
  cSecretHash :: string
  cRedirectURIs :: "string list"
  cAudience :: string

record Session =
  sID :: string
  sUserID :: string
  sClientID :: string
  sFamilyID :: string
  sParentID :: "string option"
  sTokenHash :: string
  sIssuedAt :: instant
  sExpiresAt :: instant
  sUsedAt :: "instant option"
  sRevokedAt :: "instant option"
  sUserAgent :: string
  sIP :: string

record AuthCodeRow =
  aCodeHash :: string
  aUserID :: string
  aClientID :: string
  aRedirectURI :: string
  aExpiresAt :: instant
  aConsumedAt :: "instant option"

datatype Purpose = PurposeLoginOTP | PurposeEmailVerify | PurposePasswordReset

record OTPRow =
  oID :: string
  oIdentifier :: string
  oCodeHash :: string
  oPurpose :: Purpose
  oAttempts :: int
  oExpiresAt :: instant
  oConsumedAt :: "instant option"
  oCreatedAt :: instant

record RateRow =
  rBucket :: string
  rWindowStart :: instant
  rCount :: int

record FlowRow =
  fStateHash :: string
  fProvider :: string
  fClientID :: string
  fRedirectURI :: string
  fAppState :: string
  fCodeVerifier :: string
  fLinkUserID :: "string option"
  fCreatedAt :: instant
  fExpiresAt :: instant
  fConsumedAt :: "instant option"

record DB =
  users :: "User list"
  identities :: "Identity list"
  app_clients :: "Client list"
  sessions :: "Session list"
  auth_codes :: "AuthCodeRow list"
  otp_codes :: "OTPRow list"
  rate_limits :: "RateRow list"
  oauth_flows :: "FlowRow list"

definition empty_db :: DB where
  "empty_db = \<lparr>users = [], identities = [], app_clients = [], sessions = [], auth_codes = [],
     otp_codes = [], rate_limits = [], oauth_flows = []\<rparr>"

section \<open>Integrity constraints\<close>

text \<open>Foreign keys and unique columns: what an \<open>INSERT\<close> checks.\<close>

definition user_exists :: "DB \<Rightarrow> string \<Rightarrow> bool" where
  "user_exists db i \<longleftrightarrow> (\<exists>u \<in> set (users db). uID u = i)"

definition client_exists :: "DB \<Rightarrow> string \<Rightarrow> bool" where
  "client_exists db i \<longleftrightarrow> (\<exists>c \<in> set (app_clients db). cID c = i)"

definition user_ok :: "lib \<Rightarrow> DB \<Rightarrow> User \<Rightarrow> bool" where
  "user_ok H db u \<longleftrightarrow> uID u \<notin> set (map uID (users db)) \<and>
     citext H (uEmail u) \<notin> set (map (citext H \<circ> uEmail) (users db))"

definition identity_ok :: "DB \<Rightarrow> Identity \<Rightarrow> bool" where
  "identity_ok db i \<longleftrightarrow> iID i \<notin> set (map iID (identities db)) \<and> user_exists db (iUserID i) \<and>
     (iProvider i, iSubject i) \<notin> set (map (\<lambda>j. (iProvider j, iSubject j)) (identities db))"

definition client_ok :: "DB \<Rightarrow> Client \<Rightarrow> bool" where
  "client_ok db c \<longleftrightarrow> cID c \<notin> set (map cID (app_clients db))"

definition session_ok :: "DB \<Rightarrow> Session \<Rightarrow> bool" where
  "session_ok db s \<longleftrightarrow> sID s \<notin> set (map sID (sessions db)) \<and>
     sTokenHash s \<notin> set (map sTokenHash (sessions db)) \<and>
     user_exists db (sUserID s) \<and> client_exists db (sClientID s)"

definition auth_code_ok :: "DB \<Rightarrow> AuthCodeRow \<Rightarrow> bool" where
  "auth_code_ok db a \<longleftrightarrow> aCodeHash a \<notin> set (map aCodeHash (auth_codes db)) \<and>
     user_exists db (aUserID a) \<and> client_exists db (aClientID a)"

definition otp_ok :: "DB \<Rightarrow> OTPRow \<Rightarrow> bool" where
  "otp_ok db r \<longleftrightarrow> oID r \<notin> set (map oID (otp_codes db))"

definition flow_ok :: "DB \<Rightarrow> FlowRow \<Rightarrow> bool" where
  "flow_ok db f \<longleftrightarrow> fStateHash f \<notin> set (map fStateHash (oauth_flows db)) \<and>
     client_exists db (fClientID f) \<and>
     pred_option (user_exists db) (fLinkUserID f)"

text \<open>The constraints as a predicate of a whole database.\<close>

definition db_ok :: "lib \<Rightarrow> DB \<Rightarrow> bool" where
  "db_ok H db \<longleftrightarrow>
     distinct (map uID (users db)) \<and> distinct (map (citext H \<circ> uEmail) (users db)) \<and>
     distinct (map iID (identities db)) \<and>
     distinct (map (\<lambda>j. (iProvider j, iSubject j)) (identities db)) \<and>
     (\<forall>i \<in> set (identities db). user_exists db (iUserID i)) \<and>
     distinct (map cID (app_clients db)) \<and>
     distinct (map sID (sessions db)) \<and> distinct (map sTokenHash (sessions db)) \<and>
     (\<forall>s \<in> set (sessions db). user_exists db (sUserID s) \<and> client_exists db (sClientID s)) \<and>
     distinct (map aCodeHash (auth_codes db)) \<and>
     (\<forall>a \<in> set (auth_codes db). user_exists db (aUserID a) \<and> client_exists db (aClientID a)) \<and>
     distinct (map oID (otp_codes db)) \<and>
     distinct (map (\<lambda>r. (rBucket r, rWindowStart r)) (rate_limits db)) \<and>
     distinct (map fStateHash (oauth_flows db)) \<and>
     (\<forall>f \<in> set (oauth_flows db). client_exists db (fClientID f) \<and>
        pred_option (user_exists db) (fLinkUserID f))"

lemma db_ok_empty: "db_ok H empty_db"
  by (simp add: db_ok_def empty_db_def)

lemmas constraint_defs =
  user_ok_def identity_ok_def client_ok_def session_ok_def auth_code_ok_def otp_ok_def flow_ok_def

lemma user_exists_simps [simp]:
  "user_exists (db\<lparr>identities := identities_x\<rparr>) = user_exists db"
  "user_exists (db\<lparr>app_clients := app_clients_x\<rparr>) = user_exists db"
  "user_exists (db\<lparr>sessions := sessions_x\<rparr>) = user_exists db"
  "user_exists (db\<lparr>auth_codes := auth_codes_x\<rparr>) = user_exists db"
  "user_exists (db\<lparr>otp_codes := otp_codes_x\<rparr>) = user_exists db"
  "user_exists (db\<lparr>rate_limits := rate_limits_x\<rparr>) = user_exists db"
  "user_exists (db\<lparr>oauth_flows := oauth_flows_x\<rparr>) = user_exists db"
  by (simp_all add: user_exists_def fun_eq_iff)

lemma client_exists_simps [simp]:
  "client_exists (db\<lparr>users := users_x\<rparr>) = client_exists db"
  "client_exists (db\<lparr>identities := identities_x\<rparr>) = client_exists db"
  "client_exists (db\<lparr>sessions := sessions_x\<rparr>) = client_exists db"
  "client_exists (db\<lparr>auth_codes := auth_codes_x\<rparr>) = client_exists db"
  "client_exists (db\<lparr>otp_codes := otp_codes_x\<rparr>) = client_exists db"
  "client_exists (db\<lparr>rate_limits := rate_limits_x\<rparr>) = client_exists db"
  "client_exists (db\<lparr>oauth_flows := oauth_flows_x\<rparr>) = client_exists db"
  by (simp_all add: client_exists_def fun_eq_iff)

lemma user_exists_append [simp]:
  "user_exists (db\<lparr>users := users db @ [u]\<rparr>) = (\<lambda>k. user_exists db k \<or> uID u = k)"
  by (auto simp: user_exists_def fun_eq_iff)

lemma client_exists_append [simp]:
  "client_exists (db\<lparr>app_clients := app_clients db @ [c]\<rparr>) = (\<lambda>k. client_exists db k \<or> cID c = k)"
  by (auto simp: client_exists_def fun_eq_iff)

text \<open>A row that passes the checks of its \<open>INSERT\<close> leaves the constraints intact.\<close>

lemma db_ok_add_user:
  assumes "db_ok H db" "user_ok H db u"
  shows "db_ok H (db\<lparr>users := users db @ [u]\<rparr>)"
proof -
  have "pred_option (user_exists db) v \<Longrightarrow> pred_option (\<lambda>k. user_exists db k \<or> uID u = k) v" for v
    by (cases v) simp_all
  with assms show ?thesis by (simp add: db_ok_def user_ok_def)
qed

lemma db_ok_add_identity:
  "db_ok H db \<Longrightarrow> identity_ok db i \<Longrightarrow> db_ok H (db\<lparr>identities := identities db @ [i]\<rparr>)"
  by (simp add: db_ok_def identity_ok_def)

lemma db_ok_add_client:
  "db_ok H db \<Longrightarrow> client_ok db c \<Longrightarrow> db_ok H (db\<lparr>app_clients := app_clients db @ [c]\<rparr>)"
  by (simp add: db_ok_def client_ok_def)

lemma db_ok_add_session:
  "db_ok H db \<Longrightarrow> session_ok db s \<Longrightarrow> db_ok H (db\<lparr>sessions := sessions db @ [s]\<rparr>)"
  by (simp add: db_ok_def session_ok_def)

lemma db_ok_add_auth_code:
  "db_ok H db \<Longrightarrow> auth_code_ok db a \<Longrightarrow> db_ok H (db\<lparr>auth_codes := auth_codes db @ [a]\<rparr>)"
  by (simp add: db_ok_def auth_code_ok_def)

lemma db_ok_add_otp:
  "db_ok H db \<Longrightarrow> otp_ok db r \<Longrightarrow> db_ok H (db\<lparr>otp_codes := otp_codes db @ [r]\<rparr>)"
  by (simp add: db_ok_def otp_ok_def)

lemma db_ok_add_flow:
  "db_ok H db \<Longrightarrow> flow_ok db f \<Longrightarrow> db_ok H (db\<lparr>oauth_flows := oauth_flows db @ [f]\<rparr>)"
  by (simp add: db_ok_def flow_ok_def)

text \<open>An \<open>UPDATE\<close> that leaves the keys alone, and a \<open>DELETE\<close>, keep them too.\<close>

lemma db_ok_set_users:
  "db_ok H db \<Longrightarrow> map uID t = map uID (users db) \<Longrightarrow> map uEmail t = map uEmail (users db) \<Longrightarrow>
   db_ok H (db\<lparr>users := t\<rparr>)"
proof -
  assume a: "db_ok H db" "map uID t = map uID (users db)" "map uEmail t = map uEmail (users db)"
  have "user_exists (db\<lparr>users := t\<rparr>) k \<longleftrightarrow> k \<in> set (map uID t)" for k
    by (auto simp: user_exists_def)
  then have u: "user_exists (db\<lparr>users := t\<rparr>) = user_exists db"
    using a(2) by (auto simp: user_exists_def fun_eq_iff)
  have "map (citext H \<circ> uEmail) t = map (citext H \<circ> uEmail) (users db)"
    using a(3) by (metis map_map)
  with a u show ?thesis by (simp add: db_ok_def)
qed

lemma db_ok_set_sessions:
  "db_ok H db \<Longrightarrow> distinct (map sID t) \<Longrightarrow> distinct (map sTokenHash t) \<Longrightarrow>
   (\<forall>s \<in> set t. \<exists>q \<in> set (sessions db). sUserID s = sUserID q \<and> sClientID s = sClientID q) \<Longrightarrow>
   db_ok H (db\<lparr>sessions := t\<rparr>)"
proof -
  assume a: "db_ok H db" and k: "distinct (map sID t)" "distinct (map sTokenHash t)"
    and q: "\<forall>s \<in> set t. \<exists>q \<in> set (sessions db). sUserID s = sUserID q \<and> sClientID s = sClientID q"
  have "\<forall>s \<in> set (sessions db). user_exists db (sUserID s) \<and> client_exists db (sClientID s)"
    using a by (simp add: db_ok_def)
  with q have "\<forall>s \<in> set t. user_exists db (sUserID s) \<and> client_exists db (sClientID s)" by metis
  with a k show ?thesis by (simp add: db_ok_def)
qed

lemma db_ok_set_auth_codes:
  "db_ok H db \<Longrightarrow> distinct (map aCodeHash t) \<Longrightarrow>
   (\<forall>s \<in> set t. \<exists>q \<in> set (auth_codes db). aUserID s = aUserID q \<and> aClientID s = aClientID q) \<Longrightarrow>
   db_ok H (db\<lparr>auth_codes := t\<rparr>)"
proof -
  assume a: "db_ok H db" and k: "distinct (map aCodeHash t)"
    and q: "\<forall>s \<in> set t. \<exists>q \<in> set (auth_codes db). aUserID s = aUserID q \<and> aClientID s = aClientID q"
  have "\<forall>s \<in> set (auth_codes db). user_exists db (aUserID s) \<and> client_exists db (aClientID s)"
    using a by (simp add: db_ok_def)
  with q have "\<forall>s \<in> set t. user_exists db (aUserID s) \<and> client_exists db (aClientID s)" by metis
  with a k show ?thesis by (simp add: db_ok_def)
qed

lemma db_ok_set_otp: "db_ok H db \<Longrightarrow> distinct (map oID t) \<Longrightarrow> db_ok H (db\<lparr>otp_codes := t\<rparr>)"
  by (simp add: db_ok_def)

lemma db_ok_set_rates:
  "db_ok H db \<Longrightarrow> distinct (map (\<lambda>r. (rBucket r, rWindowStart r)) t) \<Longrightarrow>
   db_ok H (db\<lparr>rate_limits := t\<rparr>)"
  by (simp add: db_ok_def)

lemma db_ok_set_flows:
  "db_ok H db \<Longrightarrow> distinct (map fStateHash t) \<Longrightarrow>
   (\<forall>s \<in> set t. \<exists>q \<in> set (oauth_flows db). fClientID s = fClientID q \<and> fLinkUserID s = fLinkUserID q) \<Longrightarrow>
   db_ok H (db\<lparr>oauth_flows := t\<rparr>)"
proof -
  assume a: "db_ok H db" and k: "distinct (map fStateHash t)"
    and q: "\<forall>s \<in> set t. \<exists>q \<in> set (oauth_flows db). fClientID s = fClientID q \<and> fLinkUserID s = fLinkUserID q"
  have "\<forall>s \<in> set (oauth_flows db). client_exists db (fClientID s) \<and> pred_option (user_exists db) (fLinkUserID s)"
    using a by (simp add: db_ok_def)
  with q have "\<forall>s \<in> set t. client_exists db (fClientID s) \<and> pred_option (user_exists db) (fLinkUserID s)" by metis
  with a k show ?thesis by (simp add: db_ok_def)
qed

section \<open>Hashes and random tokens\<close>

text \<open>\<open>hashCode\<close> of \<open>otp.go\<close> and \<open>HashRefresh\<close> of \<open>token.go\<close>: what is stored of a secret.\<close>

definition hashCode :: "lib \<Rightarrow> string \<Rightarrow> string" where
  "hashCode H s = sha256 H s"

definition HashRefresh :: "lib \<Rightarrow> string \<Rightarrow> string" where
  "HashRefresh H tok = sha256 H tok"

text \<open>32 random bytes in base64url: \<open>NewRefreshToken\<close> of \<open>token.go\<close> and \<open>NewOpaqueToken\<close> of
  \<open>otp.go\<close>.\<close>

definition RefreshBytes :: nat where
  "RefreshBytes = 32"

definition NewRefreshToken :: "opctx \<Rightarrow> nat \<Rightarrow> store_error + string" where
  "NewRefreshToken x k =
     (case rand_read x k RefreshBytes of
        None \<Rightarrow> Inl ErrRand
      | Some b \<Rightarrow> Inr (EncodeToString url_alphabet b))"

definition NewOpaqueToken :: "opctx \<Rightarrow> nat \<Rightarrow> store_error + string" where
  "NewOpaqueToken x k =
     (case rand_read x k 32 of
        None \<Rightarrow> Inl ErrRand
      | Some b \<Rightarrow> Inr (EncodeToString url_alphabet b))"

lemma length_NewRefreshToken: "NewRefreshToken x k = Inr t \<Longrightarrow> length t = 43"
  by (auto simp: NewRefreshToken_def RefreshBytes_def length_EncodeToString length_rand_read
      split: option.splits)

lemma length_NewOpaqueToken: "NewOpaqueToken x k = Inr t \<Longrightarrow> length t = 43"
  by (auto simp: NewOpaqueToken_def length_EncodeToString length_rand_read split: option.splits)

text \<open>\<open>norows\<close>: a query that matched no row is \<open>ErrNotFound\<close>, any other error passes.\<close>

definition norows :: "bool \<Rightarrow> 'r option \<Rightarrow> store_error + 'r" where
  "norows failed row =
     (if failed then Inl ErrDB else case row of None \<Rightarrow> Inl ErrNotFound | Some r \<Rightarrow> Inr r)"

lemma norows_Inr [tbl]: "norows f v = Inr r \<longleftrightarrow> \<not> f \<and> v = Some r"
  by (auto simp: norows_def split: option.splits)

lemma norows_NotFound [tbl]: "norows f v = Inl ErrNotFound \<longleftrightarrow> \<not> f \<and> v = None"
  by (auto simp: norows_def split: option.splits)

end
