(* ===== verification/Sessions.thy ===== *)
theory Sessions
  imports Store Machine
begin

text \<open>
  \<open>internal/store/sessions.go\<close>: refresh families. A login starts a family; every refresh spends
  the presented row and adds a row with the same \<open>family_id\<close>; a spent token that comes back
  revokes the family.
\<close>

definition RefreshTTL :: duration where
  "RefreshTTL = 30 * 24 * hour"

record SessionMeta =
  UserAgent :: string
  IP :: string

record IssuedSession =
  isSession :: Session
  RefreshToken :: string

text \<open>
  \<open>insertSession\<close>: statement number \<open>k\<close> of its caller's context is the \<open>INSERT\<close>, clock
  reading \<open>k\<close> its \<open>now\<close>.
\<close>

definition insertSession ::
  "lib \<Rightarrow> opctx \<Rightarrow> nat \<Rightarrow> string \<Rightarrow> string \<Rightarrow> string \<Rightarrow> string \<Rightarrow> string option \<Rightarrow> SessionMeta \<Rightarrow> DB
    \<Rightarrow> (store_error + IssuedSession) \<times> DB" where
  "insertSession H x k newID userID clientID familyID parentID m db =
     (case NewRefreshToken x 0 of
        Inl e \<Rightarrow> (Inl e, db)
      | Inr raw \<Rightarrow>
          let now = clk x k;
              s = \<lparr>sID = newID, sUserID = userID, sClientID = clientID, sFamilyID = familyID,
                   sParentID = parentID, sTokenHash = HashRefresh H raw, sIssuedAt = now,
                   sExpiresAt = now + RefreshTTL, sUsedAt = None, sRevokedAt = None,
                   sUserAgent = UserAgent m, sIP = IP m\<rparr>
          in if flt x k \<or> \<not> session_ok db s then (Inl ErrDB, db)
             else (Inr \<lparr>isSession = s, RefreshToken = raw\<rparr>, db\<lparr>sessions := sessions db @ [s]\<rparr>))"

definition CreateSession ::
  "lib \<Rightarrow> opctx \<Rightarrow> string \<Rightarrow> string \<Rightarrow> SessionMeta \<Rightarrow> DB \<Rightarrow> (store_error + IssuedSession) \<times> DB" where
  "CreateSession H x userID clientID m db =
     (let newID = uid x 0 in insertSession H x 0 newID userID clientID newID None m db)"

text \<open>\<open>UPDATE sessions SET revoked_at = COALESCE(revoked_at, now) WHERE P\<close>.\<close>

definition revoke_where :: "(Session \<Rightarrow> bool) \<Rightarrow> instant \<Rightarrow> DB \<Rightarrow> DB" where
  "revoke_where P now db =
     db\<lparr>sessions :=
       update_where P (\<lambda>s. s\<lparr>sRevokedAt := coalesce (sRevokedAt s) now\<rparr>) (sessions db)\<rparr>"

text \<open>
  \<open>Rotate\<close>, one transaction: an error before the commit leaves the database as it was, whatever
  the statements before it did. Statements: 0 \<open>BEGIN\<close>, 1 the \<open>SELECT ... FOR UPDATE\<close>, 2 the
  \<open>UPDATE\<close>, 3 the \<open>INSERT\<close>, 4 \<open>COMMIT\<close>.
\<close>

definition Rotate ::
  "lib \<Rightarrow> opctx \<Rightarrow> string \<Rightarrow> SessionMeta \<Rightarrow> DB \<Rightarrow> (store_error + IssuedSession) \<times> DB" where
  "Rotate H x refreshToken m db =
     (if flt x 0 then (Inl ErrDB, db)
      else case norows (flt x 1)
                 (select_one (\<lambda>s. sTokenHash s = HashRefresh H refreshToken) (sessions db)) of
        Inl e \<Rightarrow> (Inl e, db)
      | Inr row \<Rightarrow>
          if sUsedAt row \<noteq> None then
            (if flt x 2 then (Inl ErrDB, db)
             else let db' = revoke_where (\<lambda>s. sFamilyID s = sFamilyID row) (clk x 0) db
             in if flt x 4 then (Inl ErrDB, db) else (Inl ErrTokenReuse, db'))
          else if sRevokedAt row \<noteq> None then (Inl ErrNotFound, db)
          else if sExpiresAt row < clk x 0 then (Inl ErrNotFound, db)
          else if flt x 2 then (Inl ErrDB, db)
          else
            let db1 = db\<lparr>sessions := update_where (\<lambda>s. sID s = sID row)
                         (\<lambda>s. s\<lparr>sUsedAt := Some (clk x 1)\<rparr>) (sessions db)\<rparr>
            in case insertSession H x 3 (uid x 0) (sUserID row) (sClientID row) (sFamilyID row)
                      (Some (sID row)) m db1 of
                 (Inl e, _) \<Rightarrow> (Inl e, db)
               | (Inr issued, db2) \<Rightarrow> if flt x 4 then (Inl ErrDB, db) else (Inr issued, db2))"

definition RevokeFamily :: "opctx \<Rightarrow> string \<Rightarrow> DB \<Rightarrow> (store_error + unit) \<times> DB" where
  "RevokeFamily x familyID db =
     (if flt x 0 then (Inl ErrDB, db)
      else (Inr (), revoke_where (\<lambda>s. sFamilyID s = familyID) (clk x 0) db))"

definition RevokeAllForUser :: "opctx \<Rightarrow> string \<Rightarrow> DB \<Rightarrow> (store_error + unit) \<times> DB" where
  "RevokeAllForUser x userID db =
     (if flt x 0 then (Inl ErrDB, db)
      else (Inr (), revoke_where (\<lambda>s. sUserID s = userID \<and> sRevokedAt s = None) (clk x 0) db))"

text \<open>\<open>RevokeByToken\<close> runs \<open>RevokeFamily\<close> as a second statement of its own.\<close>

definition RevokeByToken ::
  "lib \<Rightarrow> opctx \<Rightarrow> opctx \<Rightarrow> string \<Rightarrow> DB \<Rightarrow> (store_error + unit) \<times> DB" where
  "RevokeByToken H x y refreshToken db =
     (case norows (flt x 0)
             (select_one (\<lambda>s. sTokenHash s = HashRefresh H refreshToken) (sessions db)) of
        Inl e \<Rightarrow> (Inl e, db)
      | Inr row \<Rightarrow> RevokeFamily y (sFamilyID row) db)"

definition SessionByToken :: "lib \<Rightarrow> opctx \<Rightarrow> string \<Rightarrow> DB \<Rightarrow> store_error + Session" where
  "SessionByToken H x refreshToken db =
     norows (flt x 0) (select_one (\<lambda>s. sTokenHash s = HashRefresh H refreshToken) (sessions db))"

definition SessionByID :: "opctx \<Rightarrow> string \<Rightarrow> DB \<Rightarrow> store_error + Session" where
  "SessionByID x sid db = norows (flt x 0) (select_one (\<lambda>s. sID s = sid) (sessions db))"

text \<open>
  \<open>ORDER BY issued_at, id\<close> and \<open>ORDER BY issued_at DESC\<close>; the second order leaves ties to
  Postgres, here in table order.
\<close>

definition SessionsForFamily :: "opctx \<Rightarrow> string \<Rightarrow> DB \<Rightarrow> store_error + Session list" where
  "SessionsForFamily x familyID db =
     (if flt x 0 then Inl ErrDB
      else Inr (order_by (\<lambda>s t. sIssuedAt s < sIssuedAt t \<or>
                          sIssuedAt s = sIssuedAt t \<and> str_le (sID s) (sID t))
             (filter (\<lambda>s. sFamilyID s = familyID) (sessions db))))"

definition ActiveSessionsForUser :: "opctx \<Rightarrow> string \<Rightarrow> DB \<Rightarrow> store_error + Session list" where
  "ActiveSessionsForUser x userID db =
     (if flt x 0 then Inl ErrDB
      else Inr (order_by (\<lambda>s t. sIssuedAt t \<le> sIssuedAt s)
             (filter (\<lambda>s. sUserID s = userID \<and> sRevokedAt s = None \<and> sUsedAt s = None \<and>
                clk x 0 < sExpiresAt s) (sessions db))))"

definition PruneSessions :: "opctx \<Rightarrow> duration \<Rightarrow> DB \<Rightarrow> (store_error + nat) \<times> DB" where
  "PruneSessions x grace db =
     (if flt x 0 then (Inl ErrDB, db)
      else let gone = (\<lambda>s. sExpiresAt s < clk x 0 - grace)
           in (Inr (length (filter gone (sessions db))),
               db\<lparr>sessions := delete_where gone (sessions db)\<rparr>))"

section \<open>What each operation does\<close>

lemma insertSession_Inr:
  assumes "insertSession H x k i u c f p m db = (Inr iss, db')"
  shows "NewRefreshToken x 0 = Inr (RefreshToken iss)"
    and "isSession iss = \<lparr>sID = i, sUserID = u, sClientID = c, sFamilyID = f, sParentID = p,
      sTokenHash = HashRefresh H (RefreshToken iss), sIssuedAt = clk x k,
      sExpiresAt = clk x k + RefreshTTL, sUsedAt = None, sRevokedAt = None,
      sUserAgent = UserAgent m, sIP = IP m\<rparr>"
    and "session_ok db (isSession iss)"
    and "db' = db\<lparr>sessions := sessions db @ [isSession iss]\<rparr>"
  using assms by (auto simp: insertSession_def Let_def split: sum.splits if_splits)

lemma insertSession_Inl:
  "insertSession H x k i u c f p m db = (Inl e, db') \<Longrightarrow> db' = db"
  by (auto simp: insertSession_def Let_def split: sum.splits if_splits)

text \<open>The row a successful rotation adds, and the rotated table.\<close>

definition successor :: "lib \<Rightarrow> opctx \<Rightarrow> string \<Rightarrow> SessionMeta \<Rightarrow> Session \<Rightarrow> Session" where
  "successor H x raw m row =
     \<lparr>sID = uid x 0, sUserID = sUserID row, sClientID = sClientID row, sFamilyID = sFamilyID row,
      sParentID = Some (sID row), sTokenHash = HashRefresh H raw, sIssuedAt = clk x 3,
      sExpiresAt = clk x 3 + RefreshTTL, sUsedAt = None, sRevokedAt = None,
      sUserAgent = UserAgent m, sIP = IP m\<rparr>"

definition mark_used :: "string \<Rightarrow> instant \<Rightarrow> Session list \<Rightarrow> Session list" where
  "mark_used i t = update_where (\<lambda>s. sID s = i) (\<lambda>s. s\<lparr>sUsedAt := Some t\<rparr>)"

lemma Rotate_Inr:
  assumes "Rotate H x tok m db = (Inr iss, db')"
  obtains row where
    "select_one (\<lambda>s. sTokenHash s = HashRefresh H tok) (sessions db) = Some row"
    "sUsedAt row = None" "sRevokedAt row = None" "clk x 0 \<le> sExpiresAt row"
    "NewRefreshToken x 0 = Inr (RefreshToken iss)"
    "isSession iss = successor H x (RefreshToken iss) m row"
    "session_ok (db\<lparr>sessions := mark_used (sID row) (clk x 1) (sessions db)\<rparr>) (isSession iss)"
    "db' = db\<lparr>sessions := mark_used (sID row) (clk x 1) (sessions db) @ [isSession iss]\<rparr>"
proof -
  obtain row where row:
    "select_one (\<lambda>s. sTokenHash s = HashRefresh H tok) (sessions db) = Some row"
    "sUsedAt row = None" "sRevokedAt row = None" "clk x 0 \<le> sExpiresAt row"
    "insertSession H x 3 (uid x 0) (sUserID row) (sClientID row) (sFamilyID row) (Some (sID row)) m
       (db\<lparr>sessions := mark_used (sID row) (clk x 1) (sessions db)\<rparr>) = (Inr iss, db')"
    using assms
    by (auto simp: Rotate_def Let_def norows_def mark_used_def not_less
        split: if_splits option.splits sum.splits prod.splits)
  from insertSession_Inr [OF row(5)] row(1-4) show thesis
    by (intro that [of row]) (simp_all add: successor_def)
qed

lemma Rotate_reuse:
  assumes "Rotate H x tok m db = (Inl ErrTokenReuse, db')"
  obtains row where
    "select_one (\<lambda>s. sTokenHash s = HashRefresh H tok) (sessions db) = Some row"
    "sUsedAt row \<noteq> None" "db' = revoke_where (\<lambda>s. sFamilyID s = sFamilyID row) (clk x 0) db"
  using assms
  by (auto simp: Rotate_def Let_def norows_def insertSession_def NewRefreshToken_def
      split: if_splits option.splits sum.splits prod.splits)

lemma Rotate_other:
  assumes "Rotate H x tok m db = (Inl e, db')" and "e \<noteq> ErrTokenReuse"
  shows "db' = db"
  using assms by (auto simp: Rotate_def Let_def split: if_splits sum.splits prod.splits)

lemma Rotate_spent:
  assumes "\<forall>s \<in> set (sessions db). sTokenHash s = HashRefresh H tok \<longrightarrow> sUsedAt s \<noteq> None"
  shows "\<exists>e. fst (Rotate H x tok m db) = Inl e"
proof (cases "fst (Rotate H x tok m db)")
  case (Inr iss)
  then obtain db' where "Rotate H x tok m db = (Inr iss, db')" by (cases "Rotate H x tok m db") auto
  then obtain row where "select_one (\<lambda>s. sTokenHash s = HashRefresh H tok) (sessions db) = Some row"
    "sUsedAt row = None" by (rule Rotate_Inr)
  with assms show ?thesis by (auto dest!: select_one_Some)
qed simp

lemma sessions_revoke_where [tbl]:
  "sessions (revoke_where P t db) =
     update_where P (\<lambda>s. s\<lparr>sRevokedAt := coalesce (sRevokedAt s) t\<rparr>) (sessions db)"
  by (simp add: revoke_where_def)

end
