(* ===== verification/Lineage.thy ===== *)
theory Lineage
  imports Sessions
begin

text \<open>
  The refresh families of \<open>sessions.go\<close> as a state machine: any sequence of the session
  operations, in any order and with any arguments, started from an empty table. The state
  carries, beside the database, which ULIDs were drawn and which token hashes were issued so
  far: a ULID is never drawn twice and two tokens never hash alike, which is what the program
  relies on. The invariant says what a family looks like, and three interpretations of the
  machine interfaces say what follows: a family has one usable token, a revoked family stays
  revoked, a refresh token is accepted once.
\<close>

section \<open>The machine\<close>

record lineage_state =
  lIDs :: "string set"
  lHashes :: "string set"
  lDB :: DB

text \<open>The context of an operation draws a new ULID, and a token nobody holds.\<close>

definition new_ctx :: "lib \<Rightarrow> opctx \<Rightarrow> lineage_state \<Rightarrow> bool" where
  "new_ctx H x g \<longleftrightarrow> uid x 0 \<notin> lIDs g \<and>
     (case NewRefreshToken x 0 of Inl _ \<Rightarrow> True | Inr raw \<Rightarrow> HashRefresh H raw \<notin> lHashes g)"

definition record_ctx :: "lib \<Rightarrow> opctx \<Rightarrow> DB \<Rightarrow> lineage_state \<Rightarrow> lineage_state" where
  "record_ctx H x db g =
     \<lparr>lIDs = insert (uid x 0) (lIDs g),
      lHashes = (case NewRefreshToken x 0 of
        Inl _ \<Rightarrow> lHashes g | Inr raw \<Rightarrow> insert (HashRefresh H raw) (lHashes g)),
      lDB = db\<rparr>"

lemma record_ctx_simps [simp]:
  "lDB (record_ctx H x db g) = db" "lIDs (record_ctx H x db g) = insert (uid x 0) (lIDs g)"
  "lHashes g \<subseteq> lHashes (record_ctx H x db g)"
  by (auto simp: record_ctx_def split: sum.splits)

lemma record_ctx_hash [simp]: "h \<in> lHashes g \<Longrightarrow> h \<in> lHashes (record_ctx H x db g)"
  by (rule subsetD [OF record_ctx_simps(3)])

inductive session_step :: "lib \<Rightarrow> lineage_state \<Rightarrow> lineage_state \<Rightarrow> bool" for H where
  create: "new_ctx H x g \<Longrightarrow> CreateSession H x u c m (lDB g) = (r, db') \<Longrightarrow>
     session_step H g (record_ctx H x db' g)"
| rotate: "new_ctx H x g \<Longrightarrow> Rotate H x tok m (lDB g) = (r', db') \<Longrightarrow>
     session_step H g (record_ctx H x db' g)"
| revoke_family: "RevokeFamily x f (lDB g) = (q, db') \<Longrightarrow> session_step H g (g\<lparr>lDB := db'\<rparr>)"
| revoke_user: "RevokeAllForUser x u (lDB g) = (q, db') \<Longrightarrow> session_step H g (g\<lparr>lDB := db'\<rparr>)"
| revoke_token: "RevokeByToken H x y tok (lDB g) = (q, db') \<Longrightarrow> session_step H g (g\<lparr>lDB := db'\<rparr>)"
| prune: "PruneSessions x d (lDB g) = (n, db') \<Longrightarrow> session_step H g (g\<lparr>lDB := db'\<rparr>)"
| other: "sessions db' = sessions (lDB g) \<Longrightarrow> lIDs g \<subseteq> ids \<Longrightarrow> lHashes g \<subseteq> hs \<Longrightarrow>
     session_step H g \<lparr>lIDs = ids, lHashes = hs, lDB = db'\<rparr>"

definition lineage_start :: "lineage_state \<Rightarrow> bool" where
  "lineage_start g \<longleftrightarrow> sessions (lDB g) = []"

section \<open>The invariant\<close>

text \<open>
  Any two rows of one family belong to one user and one client, are revoked together, are not
  both unused unless they are the same row, and a parent is a used row of the family.
\<close>

definition kin :: "Session \<Rightarrow> Session \<Rightarrow> bool" where
  "kin s t \<longleftrightarrow>
     (sFamilyID s = sFamilyID t \<longrightarrow> sUserID s = sUserID t) \<and>
     (sFamilyID s = sFamilyID t \<longrightarrow> sClientID s = sClientID t) \<and>
     (sFamilyID s = sFamilyID t \<longrightarrow> (sRevokedAt s = None) = (sRevokedAt t = None)) \<and>
     (sFamilyID s = sFamilyID t \<longrightarrow> sUsedAt s \<noteq> None \<or> sUsedAt t \<noteq> None \<or> sID s = sID t) \<and>
     (sParentID t = Some (sID s) \<longrightarrow> sFamilyID s = sFamilyID t) \<and>
     (sParentID t = Some (sID s) \<longrightarrow> sUsedAt s \<noteq> None)"

definition issued :: "string set \<Rightarrow> string set \<Rightarrow> Session \<Rightarrow> bool" where
  "issued ids hs s \<longleftrightarrow> sID s \<in> ids \<and> sFamilyID s \<in> ids \<and> sTokenHash s \<in> hs \<and>
     set_option (sParentID s) \<subseteq> ids \<and> (sParentID s = None) = (sFamilyID s = sID s)"

definition lineage :: "string set \<Rightarrow> string set \<Rightarrow> Session list \<Rightarrow> bool" where
  "lineage ids hs ss \<longleftrightarrow> distinct (map sID ss) \<and> distinct (map sTokenHash ss) \<and>
     (\<forall>s \<in> set ss. \<forall>t \<in> set ss. kin s t) \<and> (\<forall>s \<in> set ss. issued ids hs s)"

definition lineage_inv :: "lineage_state \<Rightarrow> bool" where
  "lineage_inv g \<longleftrightarrow> lineage (lIDs g) (lHashes g) (sessions (lDB g))"

lemma kinD:
  assumes "kin s t"
  shows "sFamilyID s = sFamilyID t \<Longrightarrow> sUserID s = sUserID t"
    and "sFamilyID s = sFamilyID t \<Longrightarrow> sClientID s = sClientID t"
    and "sFamilyID s = sFamilyID t \<Longrightarrow> (sRevokedAt s = None) = (sRevokedAt t = None)"
    and "sFamilyID s = sFamilyID t \<Longrightarrow> sUsedAt s = None \<Longrightarrow> sUsedAt t = None \<Longrightarrow> sID s = sID t"
    and "sParentID t = Some (sID s) \<Longrightarrow> sFamilyID s = sFamilyID t"
    and "sParentID t = Some (sID s) \<Longrightarrow> sUsedAt s \<noteq> None"
  using assms unfolding kin_def by blast+

text \<open>Updates that keep the keys of a row keep kinship, if they revoke a family as one and
  never unspend a row.\<close>

lemma kin_update:
  assumes k: "kin s t"
    and s: "sID s' = sID s" "sFamilyID s' = sFamilyID s" "sUserID s' = sUserID s"
      "sClientID s' = sClientID s"
    and t: "sID t' = sID t" "sFamilyID t' = sFamilyID t" "sUserID t' = sUserID t"
      "sClientID t' = sClientID t" "sParentID t' = sParentID t"
    and revoked: "sFamilyID s = sFamilyID t \<Longrightarrow> (sRevokedAt s' = None) = (sRevokedAt t' = None)"
    and used: "sUsedAt s \<noteq> None \<Longrightarrow> sUsedAt s' \<noteq> None" "sUsedAt t \<noteq> None \<Longrightarrow> sUsedAt t' \<noteq> None"
  shows "kin s' t'"
  unfolding kin_def s t
proof (intro conjI impI)
  assume f: "sFamilyID s = sFamilyID t"
  show "sUsedAt s' \<noteq> None \<or> sUsedAt t' \<noteq> None \<or> sID s = sID t"
    using kinD(4) [OF k f] used by blast
qed (use kinD [OF k] revoked used in blast)+

lemma lineageD:
  assumes "lineage ids hs ss" and "s \<in> set ss"
  shows "issued ids hs s" and "t \<in> set ss \<Longrightarrow> kin s t"
    and "t \<in> set ss \<Longrightarrow> sID s = sID t \<Longrightarrow> s = t"
    and "t \<in> set ss \<Longrightarrow> sTokenHash s = sTokenHash t \<Longrightarrow> s = t"
  using assms unfolding lineage_def by (blast dest: distinct_keyD)+

lemma issued_mono: "issued ids hs s \<Longrightarrow> ids \<subseteq> ids' \<Longrightarrow> hs \<subseteq> hs' \<Longrightarrow> issued ids' hs' s"
  unfolding issued_def by blast

lemma lineage_mono: "lineage ids hs ss \<Longrightarrow> ids \<subseteq> ids' \<Longrightarrow> hs \<subseteq> hs' \<Longrightarrow> lineage ids' hs' ss"
  unfolding lineage_def by (blast intro: issued_mono)

lemma lineage_filter: "lineage ids hs ss \<Longrightarrow> lineage ids hs (delete_where P ss)"
  unfolding lineage_def mem_delete_where Ball_def by (blast intro: distinct_delete_where)

lemma lineage_update:
  assumes ok: "lineage ids hs ss"
    and keys: "\<And>s. sID (f s) = sID s \<and> sTokenHash (f s) = sTokenHash s \<and>
      sFamilyID (f s) = sFamilyID s \<and> sParentID (f s) = sParentID s"
    and kin: "\<And>s t. s \<in> set ss \<Longrightarrow> t \<in> set ss \<Longrightarrow>
      kin (if P s then f s else s) (if P t then f t else t)"
  shows "lineage ids hs (update_where P f ss)"
proof -
  have "map sID (update_where P f ss) = map sID ss"
    "map sTokenHash (update_where P f ss) = map sTokenHash ss"
    using keys by (simp_all add: key_update_where)
  moreover have "kin s t" if "s \<in> set (update_where P f ss)" "t \<in> set (update_where P f ss)" for s t
    using that kin unfolding mem_update_where by fast
  moreover have "issued ids hs (if P s then f s else s)" if "s \<in> set ss" for s
    using lineageD(1) [OF ok that] keys by (simp add: issued_def)
  then have "issued ids hs s" if "s \<in> set (update_where P f ss)" for s
    using that unfolding mem_update_where by blast
  ultimately show ?thesis
    using ok by (simp add: lineage_def)
qed

lemma lineage_revoke:
  assumes ok: "lineage ids hs ss"
    and closed: "\<And>s t. s \<in> set ss \<Longrightarrow> t \<in> set ss \<Longrightarrow> sFamilyID s = sFamilyID t \<Longrightarrow>
      sUserID s = sUserID t \<Longrightarrow> (sRevokedAt s = None) = (sRevokedAt t = None) \<Longrightarrow> P s = P t"
  shows "lineage ids hs
    (update_where P (\<lambda>s. s\<lparr>sRevokedAt := coalesce (sRevokedAt s) now\<rparr>) ss)"
proof (rule lineage_update [OF ok])
  fix s t assume st: "s \<in> set ss" "t \<in> set ss"
  have k: "kin s t" by (rule lineageD(2) [OF ok st])
  have P: "P s = P t" if f: "sFamilyID s = sFamilyID t"
    by (rule closed [OF st f kinD(1) [OF k f] kinD(3) [OF k f]])
  show "kin (if P s then s\<lparr>sRevokedAt := coalesce (sRevokedAt s) now\<rparr> else s)
    (if P t then t\<lparr>sRevokedAt := coalesce (sRevokedAt t) now\<rparr> else t)"
    by (rule kin_update [OF k]) (use P kinD(3) [OF k] in \<open>auto split: if_splits\<close>)
qed simp

lemma lineage_mark_used:
  assumes ok: "lineage ids hs ss"
  shows "lineage ids hs (mark_used i t ss)"
  unfolding mark_used_def
proof (rule lineage_update [OF ok])
  fix s q assume sq: "s \<in> set ss" "q \<in> set ss"
  have k: "kin s q" by (rule lineageD(2) [OF ok sq])
  show "kin (if sID s = i then s\<lparr>sUsedAt := Some t\<rparr> else s)
    (if sID q = i then q\<lparr>sUsedAt := Some t\<rparr> else q)"
    by (rule kin_update [OF k]) (use kinD(3) [OF k] in \<open>auto split: if_splits\<close>)
qed simp

lemma lineage_new:
  assumes ok: "lineage ids hs ss" and i: "sID s \<notin> ids" and h: "sTokenHash s \<notin> hs"
    and kin: "kin s s" "\<And>t. t \<in> set ss \<Longrightarrow> kin t s" "\<And>t. t \<in> set ss \<Longrightarrow> kin s t"
    and new: "issued (insert (sID s) ids) (insert (sTokenHash s) hs) s"
  shows "lineage (insert (sID s) ids) (insert (sTokenHash s) hs) (ss @ [s])"
proof -
  have "lineage (insert (sID s) ids) (insert (sTokenHash s) hs) ss"
    by (rule lineage_mono [OF ok]) auto
  moreover have "sID s \<notin> sID ` set ss" "sTokenHash s \<notin> sTokenHash ` set ss"
    using i h lineageD(1) [OF ok] by (auto simp: issued_def)
  ultimately show ?thesis
    using kin new unfolding lineage_def by simp
qed

lemma lineage_successor:
  assumes ok: "lineage ids hs ss" and row: "row \<in> set ss"
    and live: "sUsedAt row = None" "sRevokedAt row = None"
    and new: "uid x 0 \<notin> ids" "HashRefresh H raw \<notin> hs"
  shows "lineage (insert (uid x 0) ids) (insert (HashRefresh H raw) hs)
    (mark_used (sID row) t ss @ [successor H x raw m row])"
proof -
  let ?ss = "mark_used (sID row) t ss" and ?s = "successor H x raw m row"
  have ok': "lineage ids hs ?ss" by (rule lineage_mark_used [OF ok])
  have row_ids: "sID row \<in> ids" "sFamilyID row \<in> ids"
    using lineageD(1) [OF ok row] by (simp_all add: issued_def)
  have kin: "kin r ?s \<and> kin ?s r" if r: "r \<in> set ?ss" for r
  proof -
    obtain u where u: "u \<in> set ss" "r = (if sID u = sID row then u\<lparr>sUsedAt := Some t\<rparr> else u)"
      using r by (auto simp: mark_used_def mem_update_where)
    have k: "kin u row" by (rule lineageD(2) [OF ok u(1) row])
    have "uid x 0 \<notin> set_option (sParentID r)"
      using lineageD(1) [OF ok' r] new(1) unfolding issued_def by blast
    moreover have "sFamilyID u = sFamilyID row \<Longrightarrow> sUsedAt r \<noteq> None"
      using kinD(4) [OF k] live(1) u(2) by auto
    moreover have "sID u = sID row \<Longrightarrow> u = row" by (rule lineageD(3) [OF ok u(1) row])
    ultimately show ?thesis
      using kinD(1-3) [OF k] live(2) u(2) unfolding kin_def by (auto simp: successor_def)
  qed
  have "kin ?s ?s" using row_ids new(1) by (auto simp: kin_def successor_def)
  moreover have "issued (insert (sID ?s) ids) (insert (sTokenHash ?s) hs) ?s"
    using row_ids new(1) by (auto simp: issued_def successor_def)
  ultimately have "lineage (insert (sID ?s) ids) (insert (sTokenHash ?s) hs) (?ss @ [?s])"
    using kin new by (intro lineage_new [OF ok']) (auto simp: successor_def)
  then show ?thesis by (simp add: successor_def)
qed

section \<open>Every step keeps it\<close>

lemma record_ctx_fresh:
  assumes "new_ctx H x g" and "NewRefreshToken x 0 = Inr raw"
  shows "uid x 0 \<notin> lIDs g" "HashRefresh H raw \<notin> lHashes g"
    "lHashes (record_ctx H x db g) = insert (HashRefresh H raw) (lHashes g)"
  using assms by (simp_all add: new_ctx_def record_ctx_def)

lemma lineage_record: "lineage (lIDs g) (lHashes g) ss \<Longrightarrow>
    sessions db = ss \<Longrightarrow> lineage_inv (record_ctx H x db g)"
  unfolding lineage_inv_def by (rule lineage_mono [of "lIDs g" "lHashes g"]) auto

lemma create_inv:
  assumes inv: "lineage_inv g" and new: "new_ctx H x g"
    and run: "CreateSession H x u c m (lDB g) = (r, db')"
  shows "lineage_inv (record_ctx H x db' g)"
proof (cases r)
  case (Inl e)
  with run have "db' = lDB g"
    by (auto simp: CreateSession_def Let_def dest: insertSession_Inl)
  with inv show ?thesis by (intro lineage_record) (auto simp: lineage_inv_def)
next
  case (Inr iss)
  note ins = insertSession_Inr [OF run [unfolded CreateSession_def Let_def Inr]]
  note fresh = record_ctx_fresh [OF new ins(1)]
  let ?s = "isSession iss"
  have id_new: "sID ?s = uid x 0" and h: "sTokenHash ?s = HashRefresh H (RefreshToken iss)"
    unfolding ins(2) by simp_all
  have ok: "lineage (lIDs g) (lHashes g) (sessions (lDB g))"
    using inv by (simp add: lineage_inv_def)
  have "kin t ?s \<and> kin ?s t" if t: "t \<in> set (sessions (lDB g))" for t
  proof -
    have "sFamilyID t \<noteq> uid x 0" "Some (uid x 0) \<noteq> sParentID t"
      using lineageD(1) [OF ok t] fresh(1) by (auto simp: issued_def)
    then show ?thesis unfolding kin_def ins(2) by auto
  qed
  moreover have "kin ?s ?s" unfolding kin_def ins(2) by simp
  moreover have "issued (insert (sID ?s) (lIDs g)) (insert (sTokenHash ?s) (lHashes g)) ?s"
    unfolding issued_def ins(2) by simp
  ultimately have "lineage (insert (sID ?s) (lIDs g)) (insert (sTokenHash ?s) (lHashes g))
      (sessions (lDB g) @ [?s])"
    using fresh id_new h by (intro lineage_new [OF ok]) auto
  then show ?thesis using fresh id_new h ins(4) by (simp add: lineage_inv_def)
qed

lemma rotate_inv:
  assumes inv: "lineage_inv g" and new: "new_ctx H x g"
    and run: "Rotate H x tok m (lDB g) = (r, db')"
  shows "lineage_inv (record_ctx H x db' g)"
proof -
  have ok: "lineage (lIDs g) (lHashes g) (sessions (lDB g))"
    using inv by (simp add: lineage_inv_def)
  consider iss where "r = Inr iss" | "r = Inl ErrTokenReuse" | e where "r = Inl e" "e \<noteq> ErrTokenReuse"
    by (cases r) auto
  then show ?thesis
  proof cases
    case 1
    from run [unfolded 1] obtain row where row:
      "select_one (\<lambda>s. sTokenHash s = HashRefresh H tok) (sessions (lDB g)) = Some row"
      "sUsedAt row = None" "sRevokedAt row = None" "NewRefreshToken x 0 = Inr (RefreshToken iss)"
      "isSession iss = successor H x (RefreshToken iss) m row"
      "db' = lDB g\<lparr>sessions := mark_used (sID row) (clk x 1) (sessions (lDB g)) @ [isSession iss]\<rparr>"
      by (rule Rotate_Inr)
    note fresh = record_ctx_fresh [OF new row(4)]
    have "row \<in> set (sessions (lDB g))" using row(1) by (auto dest: select_one_Some)
    from lineage_successor [OF ok this row(2,3) fresh(1,2)]
    show ?thesis unfolding lineage_inv_def using fresh(3) row(5,6) by simp
  next
    case 2
    from run [unfolded 2] obtain row :: Session where
      "db' = revoke_where (\<lambda>s. sFamilyID s = sFamilyID row) (clk x 0) (lDB g)"
      by (elim Rotate_reuse)
    then show ?thesis
      by (intro lineage_record [OF lineage_revoke [OF ok, of "\<lambda>s. sFamilyID s = sFamilyID row"]])
         (simp_all add: tbl)
  next
    case 3
    then have "db' = lDB g" using run by (auto dest: Rotate_other)
    with ok show ?thesis by (intro lineage_record) auto
  qed
qed

text \<open>The operations that only revoke, and the one that only deletes.\<close>

lemma revoke_inv:
  assumes inv: "lineage_inv g"
    and closed: "\<And>s t. sFamilyID s = sFamilyID t \<Longrightarrow> sUserID s = sUserID t \<Longrightarrow>
      (sRevokedAt s = None) = (sRevokedAt t = None) \<Longrightarrow> P s = P t"
  shows "lineage_inv (g\<lparr>lDB := revoke_where P now (lDB g)\<rparr>)"
  using inv unfolding lineage_inv_def
  by (simp add: sessions_revoke_where) (rule lineage_revoke, assumption, rule closed)

lemma RevokeFamily_cases:
  assumes "RevokeFamily x f db = (q, db')"
  obtains "q = Inl ErrDB" "db' = db" | "q = Inr ()" "db' = revoke_where (\<lambda>s. sFamilyID s = f) (clk x 0) db"
  using assms by (auto simp: RevokeFamily_def split: if_splits)

lemma RevokeAllForUser_cases:
  assumes "RevokeAllForUser x u db = (q, db')"
  obtains "q = Inl ErrDB" "db' = db"
  | "q = Inr ()" "db' = revoke_where (\<lambda>s. sUserID s = u \<and> sRevokedAt s = None) (clk x 0) db"
  using assms by (auto simp: RevokeAllForUser_def split: if_splits)

lemma RevokeByToken_cases:
  assumes "RevokeByToken H x y tok db = (q, db')"
  obtains "db' = db" | f where "db' = revoke_where (\<lambda>s. sFamilyID s = f) (clk y 0) db"
  using assms by (auto simp: RevokeByToken_def RevokeFamily_def split: sum.splits if_splits)

lemma PruneSessions_cases:
  assumes "PruneSessions x d db = (n, db')"
  obtains "db' = db" | "db' = db\<lparr>sessions := delete_where (\<lambda>s. sExpiresAt s < clk x 0 - d) (sessions db)\<rparr>"
  using assms by (auto simp: PruneSessions_def Let_def split: if_splits)

lemma lineage_step_inv:
  assumes "session_step H g g'" and inv: "lineage_inv g"
  shows "lineage_inv g'"
  using assms(1)
proof cases
  case (create x u c m r db')
  then show ?thesis using inv by (auto intro: create_inv)
next
  case (rotate x tok m r db')
  then show ?thesis using inv by (auto intro: rotate_inv)
next
  case (revoke_family x f q db')
  then show ?thesis
    using inv by (elim RevokeFamily_cases) (auto intro!: revoke_inv)
next
  case (revoke_user x u q db')
  then show ?thesis
    using inv by (elim RevokeAllForUser_cases) (auto intro!: revoke_inv)
next
  case (revoke_token x y tok q db')
  then show ?thesis
    using inv by (elim RevokeByToken_cases) (auto intro!: revoke_inv)
next
  case (prune x d n db')
  then show ?thesis
    using inv by (elim PruneSessions_cases) (auto simp: lineage_inv_def intro: lineage_filter)
next
  case (other db' ids hs)
  then show ?thesis using inv by (auto simp: lineage_inv_def intro: lineage_mono)
qed

interpretation families: machine lineage_start "session_step H" lineage_inv for H
proof
  show "lineage_inv s" if "lineage_start s" for s
    using that by (simp add: lineage_start_def lineage_inv_def lineage_def)
qed (rule lineage_step_inv)

section \<open>A revoked family stays revoked\<close>

text \<open>Family \<open>f\<close> has been used as a family, and every row of it that is left is revoked.\<close>

definition dead_family :: "string \<Rightarrow> lineage_state \<Rightarrow> bool" where
  "dead_family f g \<longleftrightarrow> f \<in> lIDs g \<and>
     (\<forall>s \<in> set (sessions (lDB g)). sFamilyID s = f \<longrightarrow> sRevokedAt s \<noteq> None)"

lemma dead_family_revoke:
  "dead_family f g \<Longrightarrow> dead_family f (g\<lparr>lDB := revoke_where P t (lDB g)\<rparr>)"
  by (simp add: dead_family_def sessions_revoke_where ball_update_where)

lemma create_dead_family:
  assumes dead: "dead_family f g" and new: "new_ctx H x g"
    and run: "CreateSession H x u c m (lDB g) = (r, db')"
  shows "dead_family f (record_ctx H x db' g)"
proof (cases r)
  case (Inl e)
  with run have "db' = lDB g" by (auto simp: CreateSession_def Let_def dest: insertSession_Inl)
  with dead show ?thesis by (simp add: dead_family_def)
next
  case (Inr iss)
  note ins = insertSession_Inr [OF run [unfolded CreateSession_def Let_def Inr]]
  have "f \<noteq> uid x 0" using dead new by (auto simp: dead_family_def new_ctx_def)
  with dead show ?thesis by (auto simp: dead_family_def ins(2,4))
qed

lemma rotate_dead_family:
  assumes dead: "dead_family f g" and run: "Rotate H x tok m (lDB g) = (r, db')"
  shows "dead_family f (record_ctx H x db' g)"
proof -
  consider iss where "r = Inr iss" | "r = Inl ErrTokenReuse" | e where "r = Inl e" "e \<noteq> ErrTokenReuse"
    by (cases r) auto
  then show ?thesis
  proof cases
    case 1
    from run [unfolded 1] obtain row where row:
      "select_one (\<lambda>s. sTokenHash s = HashRefresh H tok) (sessions (lDB g)) = Some row"
      "sRevokedAt row = None" "isSession iss = successor H x (RefreshToken iss) m row"
      "db' = lDB g\<lparr>sessions := mark_used (sID row) (clk x 1) (sessions (lDB g)) @ [isSession iss]\<rparr>"
      by (rule Rotate_Inr)
    then have "sFamilyID row \<noteq> f" using dead by (auto simp: dead_family_def dest: select_one_Some)
    with dead row(3,4) show ?thesis
      by (simp add: dead_family_def successor_def mark_used_def ball_update_where ball_Un)
  next
    case 2
    from run [unfolded 2] obtain row :: Session where
      "db' = revoke_where (\<lambda>s. sFamilyID s = sFamilyID row) (clk x 0) (lDB g)"
      by (elim Rotate_reuse)
    with dead show ?thesis
      by (simp add: dead_family_def sessions_revoke_where ball_update_where)
  next
    case 3
    then have "db' = lDB g" using run by (auto dest: Rotate_other)
    with dead show ?thesis by (simp add: dead_family_def)
  qed
qed

lemma dead_family_step:
  assumes "session_step H g g'" and dead: "dead_family f g"
  shows "dead_family f g'"
  using assms(1)
proof cases
  case (create x u c m r db')
  then show ?thesis using dead by (auto intro: create_dead_family)
next
  case (rotate x tok m r db')
  then show ?thesis using dead by (auto intro: rotate_dead_family)
next
  case (revoke_family x k q db')
  then show ?thesis using dead by (elim RevokeFamily_cases) (auto intro!: dead_family_revoke)
next
  case (revoke_user x u q db')
  then show ?thesis using dead by (elim RevokeAllForUser_cases) (auto intro!: dead_family_revoke)
next
  case (revoke_token x y tok q db')
  then show ?thesis using dead by (elim RevokeByToken_cases) (auto intro!: dead_family_revoke)
next
  case (prune x d n db')
  then show ?thesis using dead
    by (elim PruneSessions_cases) (auto simp: dead_family_def mem_delete_where)
next
  case (other db' ids hs)
  then show ?thesis using dead by (auto simp: dead_family_def)
qed

interpretation dead_families:
  absorbing lineage_start "session_step H" lineage_inv dead_family for H
  by unfold_locales (rule dead_family_step)

text \<open>No rotation succeeds in a dead family.\<close>

lemma dead_family_no_rotation:
  assumes "dead_family f g" and "Rotate H x tok m (lDB g) = (Inr iss, db')"
  shows "sFamilyID (isSession iss) \<noteq> f"
  using assms(2)
proof (rule Rotate_Inr)
  fix row
  assume "select_one (\<lambda>s. sTokenHash s = HashRefresh H tok) (sessions (lDB g)) = Some row"
    "sRevokedAt row = None" "isSession iss = successor H x (RefreshToken iss) m row"
  with assms(1) show ?thesis by (auto simp: dead_family_def successor_def dest!: select_one_Some)
qed

section \<open>A refresh token is accepted once\<close>

definition spent_token :: "lib \<Rightarrow> string \<Rightarrow> lineage_state \<Rightarrow> bool" where
  "spent_token H tok g \<longleftrightarrow> HashRefresh H tok \<in> lHashes g \<and>
     (\<forall>s \<in> set (sessions (lDB g)). sTokenHash s = HashRefresh H tok \<longrightarrow> sUsedAt s \<noteq> None)"

lemma spent_token_revoke:
  "spent_token H tok g \<Longrightarrow> spent_token H tok (g\<lparr>lDB := revoke_where P t (lDB g)\<rparr>)"
  by (simp add: spent_token_def sessions_revoke_where ball_update_where)

lemma spent_token_record:
  "spent_token H tok g \<Longrightarrow>
   (\<forall>s \<in> set (sessions db'). sTokenHash s = HashRefresh H tok \<longrightarrow> sUsedAt s \<noteq> None) \<Longrightarrow>
   spent_token H tok (record_ctx H x db' g)"
  by (simp add: spent_token_def)

lemma create_spent_token:
  assumes spent: "spent_token H tok g" and new: "new_ctx H x g"
    and run: "CreateSession H x u c m (lDB g) = (r, db')"
  shows "spent_token H tok (record_ctx H x db' g)"
proof (cases r)
  case (Inl e)
  with run have "db' = lDB g" by (auto simp: CreateSession_def Let_def dest: insertSession_Inl)
  with spent show ?thesis by (intro spent_token_record) (simp_all add: spent_token_def)
next
  case (Inr iss)
  note ins = insertSession_Inr [OF run [unfolded CreateSession_def Let_def Inr]]
  have "HashRefresh H (RefreshToken iss) \<noteq> HashRefresh H tok"
    using spent record_ctx_fresh [OF new ins(1)] by (auto simp: spent_token_def)
  with spent show ?thesis
    by (intro spent_token_record) (simp_all add: spent_token_def ins(2,4) ball_Un)
qed

lemma rotate_spent_token:
  assumes spent: "spent_token H tok g" and new: "new_ctx H x g"
    and run: "Rotate H x tok' m (lDB g) = (r, db')"
  shows "spent_token H tok (record_ctx H x db' g)"
proof -
  consider iss where "r = Inr iss" | "r = Inl ErrTokenReuse" | e where "r = Inl e" "e \<noteq> ErrTokenReuse"
    by (cases r) auto
  then show ?thesis
  proof cases
    case 1
    from run [unfolded 1] obtain row where row: "NewRefreshToken x 0 = Inr (RefreshToken iss)"
      "isSession iss = successor H x (RefreshToken iss) m row"
      "db' = lDB g\<lparr>sessions := mark_used (sID row) (clk x 1) (sessions (lDB g)) @ [isSession iss]\<rparr>"
      by (rule Rotate_Inr)
    have "HashRefresh H (RefreshToken iss) \<noteq> HashRefresh H tok"
      using spent record_ctx_fresh [OF new row(1)] by (auto simp: spent_token_def)
    with spent show ?thesis
      by (intro spent_token_record)
        (simp_all add: spent_token_def row(2,3) successor_def mark_used_def ball_update_where ball_Un)
  next
    case 2
    from run [unfolded 2] obtain row :: Session where
      "db' = revoke_where (\<lambda>s. sFamilyID s = sFamilyID row) (clk x 0) (lDB g)"
      by (elim Rotate_reuse)
    with spent show ?thesis
      by (intro spent_token_record)
        (simp_all add: spent_token_def sessions_revoke_where ball_update_where)
  next
    case 3
    then have "db' = lDB g" using run by (auto dest: Rotate_other)
    with spent show ?thesis by (intro spent_token_record) (simp_all add: spent_token_def)
  qed
qed

lemma spent_token_step:
  assumes "session_step H g g'" and spent: "spent_token H tok g"
  shows "spent_token H tok g'"
  using assms(1)
proof cases
  case (create x u c m r db')
  then show ?thesis using spent by (auto intro: create_spent_token)
next
  case (rotate x tok m r db')
  then show ?thesis using spent by (auto intro: rotate_spent_token)
next
  case (revoke_family x k q db')
  then show ?thesis using spent by (elim RevokeFamily_cases) (auto intro!: spent_token_revoke)
next
  case (revoke_user x u q db')
  then show ?thesis using spent by (elim RevokeAllForUser_cases) (auto intro!: spent_token_revoke)
next
  case (revoke_token x y tok q db')
  then show ?thesis using spent by (elim RevokeByToken_cases) (auto intro!: spent_token_revoke)
next
  case (prune x d n db')
  then show ?thesis using spent
    by (elim PruneSessions_cases) (auto simp: spent_token_def mem_delete_where)
next
  case (other db' ids hs)
  then show ?thesis using spent by (auto simp: spent_token_def)
qed

text \<open>A successful rotation spends the presented token.\<close>

lemma rotate_spends:
  assumes inv: "lineage_inv g" and run: "Rotate H x tok m (lDB g) = (Inr iss, db')"
    and new: "new_ctx H x g"
  shows "spent_token H tok (record_ctx H x db' g)"
proof -
  have ok: "lineage (lIDs g) (lHashes g) (sessions (lDB g))"
    using inv by (simp add: lineage_inv_def)
  from run obtain row where row:
    "select_one (\<lambda>s. sTokenHash s = HashRefresh H tok) (sessions (lDB g)) = Some row"
    "NewRefreshToken x 0 = Inr (RefreshToken iss)"
    "isSession iss = successor H x (RefreshToken iss) m row"
    "db' = lDB g\<lparr>sessions := mark_used (sID row) (clk x 1) (sessions (lDB g)) @ [isSession iss]\<rparr>"
    by (rule Rotate_Inr)
  have r: "row \<in> set (sessions (lDB g))" "sTokenHash row = HashRefresh H tok"
    using row(1) by (auto dest: select_one_Some)
  have h: "HashRefresh H tok \<in> lHashes g" using lineageD(1) [OF ok r(1)] r(2) by (simp add: issued_def)
  have "HashRefresh H (RefreshToken iss) \<noteq> HashRefresh H tok"
    using h record_ctx_fresh [OF new row(2)] by auto
  moreover have "s = row" if "s \<in> set (sessions (lDB g))" "sTokenHash s = HashRefresh H tok" for s
    using lineageD(4) [OF ok that(1) r(1)] that(2) r(2) by simp
  ultimately have "\<forall>s \<in> set (sessions db'). sTokenHash s = HashRefresh H tok \<longrightarrow> sUsedAt s \<noteq> None"
    by (auto simp: row(3,4) successor_def mark_used_def ball_update_where ball_Un)
  then show ?thesis
    using h by (simp add: spent_token_def)
qed

definition rotation :: "lib \<Rightarrow> opctx \<times> SessionMeta \<Rightarrow> string \<Rightarrow> lineage_state \<Rightarrow> store_error + IssuedSession" where
  "rotation H a tok g = fst (Rotate H (fst a) tok (snd a) (lDB g))"

definition rotated :: "lib \<Rightarrow> opctx \<times> SessionMeta \<Rightarrow> string \<Rightarrow> lineage_state \<Rightarrow> lineage_state" where
  "rotated H a tok g = record_ctx H (fst a) (snd (Rotate H (fst a) tok (snd a) (lDB g))) g"

interpretation refresh_tokens:
  one_time lineage_start "session_step H" lineage_inv "spent_token H" "rotation H" "rotated H"
    "\<lambda>a. new_ctx H (fst a)" for H
proof
  show "spent_token H k t" if "lineage_inv s" "spent_token H k s" "session_step H s t" for k s t
    using that by (blast intro: spent_token_step)
  show "session_step H s (rotated H x k s)"
    if "new_ctx H (fst x) s" "rotation H x k s = Inr r" for x s k r
    using that(1) unfolding rotated_def by (rule session_step.rotate) (rule prod.collapse [symmetric])
  show "\<exists>e. rotation H x k s = Inl e" if "spent_token H k s" for x k s
    using that unfolding rotation_def spent_token_def by (intro Rotate_spent) blast
  show "spent_token H k (rotated H x k s)"
    if "lineage_inv s" "new_ctx H (fst x) s" "rotation H x k s = Inr r" for x k s r
    using that(1) _ that(2) unfolding rotated_def
    by (rule rotate_spends [of s H "fst x" k "snd x" r])
      (use that(3) in \<open>auto simp: rotation_def prod_eq_iff\<close>)
qed

section \<open>Properties\<close>

text \<open>A database with one user and one client, and a first session, for the witnesses.\<close>

definition seed_db :: DB where
  "seed_db = empty_db\<lparr>users := [\<lparr>uID = ''A'', uEmail = ''ann@x.io'', uEmailVerifiedAt = Some 1,
       uPasswordHash = None, uCreatedAt = 1, uUpdatedAt = 1, uDisabledAt = None\<rparr>],
     app_clients := [\<lparr>cID = ''app'', cName = ''App'', cSecretHash = [], cRedirectURIs = [''https://app/cb''],
       cAudience = ''app''\<rparr>]\<rparr>"

definition no_meta :: SessionMeta where
  "no_meta = \<lparr>UserAgent = [], IP = []\<rparr>"

definition tok :: "char \<Rightarrow> string" where
  "tok c = EncodeToString url_alphabet (replicate 32 c)"

definition first_session :: Session where
  "first_session = \<lparr>sID = ''S1'', sUserID = ''A'', sClientID = ''app'', sFamilyID = ''S1'',
     sParentID = None, sTokenHash = tok CHR ''a'', sIssuedAt = 10, sExpiresAt = 10 + RefreshTTL,
     sUsedAt = None, sRevokedAt = None, sUserAgent = [], sIP = []\<rparr>"

definition signed_in_db :: DB where
  "signed_in_db = seed_db\<lparr>sessions := [first_session]\<rparr>"

definition second_session :: Session where
  "second_session = \<lparr>sID = ''S2'', sUserID = ''A'', sClientID = ''app'', sFamilyID = ''S1'',
     sParentID = Some ''S1'', sTokenHash = tok CHR ''b'', sIssuedAt = 20, sExpiresAt = 20 + RefreshTTL,
     sUsedAt = None, sRevokedAt = None, sUserAgent = [], sIP = []\<rparr>"

definition rotated_db :: DB where
  "rotated_db = seed_db\<lparr>sessions := [first_session\<lparr>sUsedAt := Some 20\<rparr>, second_session]\<rparr>"

lemma tok_inj: "tok c = tok d \<longleftrightarrow> c = d"
  using EncodeToString_inj [of url_alphabet "replicate 32 c" "replicate 32 d"] by (auto simp: tok_def)

lemma NewRefreshToken_calm: "NewRefreshToken (calm t i c) 0 = Inr (tok c)"
  by (simp add: NewRefreshToken_def rand_read_def tok_def RefreshBytes_def calm_def map_replicate_const)

lemmas session_examples =
  seed_db_def no_meta_def first_session_def second_session_def signed_in_db_def rotated_db_def
  empty_db_def HashRefresh_def RefreshTTL_def session_ok_def user_exists_def client_exists_def
  insertSession_def NewRefreshToken_calm Let_def tok_inj norows_def

lemma create_first:
  "CreateSession plain (calm 10 ''S1'' CHR ''a'') ''A'' ''app'' no_meta seed_db =
     (Inr \<lparr>isSession = first_session, RefreshToken = tok CHR ''a''\<rparr>, signed_in_db)"
  by (simp add: CreateSession_def session_examples)

lemma rotate_first:
  "Rotate plain (calm 20 ''S2'' CHR ''b'') (tok CHR ''a'') no_meta signed_in_db =
     (Inr \<lparr>isSession = second_session, RefreshToken = tok CHR ''b''\<rparr>, rotated_db)"
  by (simp add: Rotate_def session_examples)

lemma rotate_reused:
  "fst (Rotate plain (calm 30 ''S3'' CHR ''c'') (tok CHR ''a'') no_meta rotated_db) = Inl ErrTokenReuse"
  by (simp add: Rotate_def session_examples)

definition seed_state :: lineage_state where
  "seed_state = \<lparr>lIDs = {}, lHashes = {}, lDB = seed_db\<rparr>"

definition signed_in_state :: lineage_state where
  "signed_in_state = record_ctx plain (calm 10 ''S1'' CHR ''a'') signed_in_db seed_state"

lemma seed_start: "lineage_start seed_state"
  by (simp add: lineage_start_def seed_state_def session_examples)

lemma signed_in_reached: "rtranclp (session_step plain) seed_state signed_in_state"
  unfolding signed_in_state_def
proof (rule r_into_rtranclp, rule session_step.create)
  show "new_ctx plain (calm 10 ''S1'' CHR ''a'') seed_state"
    by (simp add: new_ctx_def seed_state_def NewRefreshToken_calm)
  show "CreateSession plain (calm 10 ''S1'' CHR ''a'') ''A'' ''app'' no_meta (lDB seed_state) =
     (Inr \<lparr>isSession = first_session, RefreshToken = tok CHR ''a''\<rparr>, signed_in_db)"
    using create_first by (simp add: seed_state_def)
qed

lemma signed_in_fresh: "new_ctx plain (calm 20 ''S2'' CHR ''b'') signed_in_state"
  by (simp add: new_ctx_def signed_in_state_def seed_state_def NewRefreshToken_calm record_ctx_def
      HashRefresh_def tok_inj)

lemma signed_in_DB [simp]: "lDB signed_in_state = signed_in_db"
  by (simp add: signed_in_state_def)

definition rotated_state :: lineage_state where
  "rotated_state = record_ctx plain (calm 20 ''S2'' CHR ''b'') rotated_db signed_in_state"

lemma rotated_DB [simp]: "lDB rotated_state = rotated_db"
  by (simp add: rotated_state_def)

lemma rotated_reached: "rtranclp (session_step plain) seed_state rotated_state"
  unfolding rotated_state_def
  by (rule rtranclp.rtrancl_into_rtrancl [OF signed_in_reached],
      rule session_step.rotate [OF signed_in_fresh]) (use rotate_first in simp)

lemma rotated_fresh: "new_ctx plain (calm 30 ''S3'' CHR ''c'') rotated_state"
  by (simp add: new_ctx_def rotated_state_def signed_in_state_def seed_state_def NewRefreshToken_calm
      record_ctx_def HashRefresh_def tok_inj)

text \<open>A refresh token is accepted at most once: after one rotation with it succeeded, every
  later rotation with it fails, whatever session operations by whomever ran in between.\<close>

theorem refresh_token_accepted_once:
  assumes "lineage_start g0" and "rtranclp (session_step H) g0 g" and "new_ctx H x g"
    and "Rotate H x tk m (lDB g) = (Inr iss, db')"
    and "rtranclp (session_step H) (record_ctx H x db' g) g'"
  shows "\<exists>err. fst (Rotate H y tk n (lDB g')) = Inl err"
  using refresh_tokens.at_most_once [of g H "(x, m)" tk iss g' "(y, n)"]
    families.reach_inv [OF assms(1,2)] assms(3-5)
  by (simp add: rotation_def rotated_def)

theorem refresh_token_accepted_once_witness:
  "\<exists>err. fst (Rotate plain (calm 30 ''S3'' CHR ''c'') (tok CHR ''a'') no_meta rotated_db) = Inl err"
proof -
  have run: "Rotate plain (calm 20 ''S2'' CHR ''b'') (tok CHR ''a'') no_meta (lDB signed_in_state) =
     (Inr \<lparr>isSession = second_session, RefreshToken = tok CHR ''b''\<rparr>, rotated_db)"
    using rotate_first by simp
  show ?thesis
    using refresh_token_accepted_once [OF seed_start signed_in_reached signed_in_fresh run,
        of rotated_state]
    by (simp add: rotated_state_def)
qed

lemma filter_update_where:
  "(\<And>r. P r \<Longrightarrow> \<not> Q r \<and> \<not> Q (f r)) \<Longrightarrow> filter Q (update_where P f t) = filter Q t"
  by (induction t) auto

text \<open>What a rotation does with a spent token when no statement fails, whether the session has expired or
  been revoked since or not.\<close>

lemma Rotate_returned:
  assumes "select_one (\<lambda>s. sTokenHash s = HashRefresh H tk) (sessions db) = Some row" and "sUsedAt row \<noteq> None"
    and "\<And>k. \<not> flt x k"
  shows "Rotate H x tk m db = (Inl ErrTokenReuse, revoke_where (\<lambda>s. sFamilyID s = sFamilyID row) (clk x 0) db)"
  using assms by (auto simp: Rotate_def norows_def Let_def)

text \<open>C5: a refresh token that comes back after it was spent revokes its whole family, also when the
  session has expired or was revoked before, and nothing else; the family stays dead: no later
  rotation yields a session of it. Reuse is reported for spent tokens only.\<close>

theorem reuse_kills_family:
  assumes "lineage_start g0" and "rtranclp (session_step H) g0 g" and "\<And>k. \<not> flt x k" and "new_ctx H x g"
    and "Rotate H x tk m (lDB g) = (r, db')" and "rtranclp (session_step H) (record_ctx H x db' g) g'"
  shows "(r = Inl ErrTokenReuse \<longleftrightarrow> (\<exists>row \<in> set (sessions (lDB g)). sTokenHash row = HashRefresh H tk \<and> sUsedAt row \<noteq> None)) \<and>
    (\<forall>row \<in> set (sessions (lDB g)). sTokenHash row = HashRefresh H tk \<and> sUsedAt row \<noteq> None \<longrightarrow>
      (\<forall>s \<in> set (sessions db'). sFamilyID s = sFamilyID row \<longrightarrow> sRevokedAt s \<noteq> None) \<and>
      filter (\<lambda>s. sFamilyID s \<noteq> sFamilyID row) (sessions db') =
        filter (\<lambda>s. sFamilyID s \<noteq> sFamilyID row) (sessions (lDB g)) \<and>
      (\<forall>y tk' n iss db''. Rotate H y tk' n (lDB g') = (Inr iss, db'') \<longrightarrow>
         sFamilyID (isSession iss) \<noteq> sFamilyID row))"
proof (intro conjI ballI impI)
  have inv: "lineage_inv g" by (rule families.reach_inv [OF assms(1,2)])
  then have lin: "lineage (lIDs g) (lHashes g) (sessions (lDB g))" by (simp add: lineage_inv_def)
  have run: "r = Inl ErrTokenReuse \<and> db' = revoke_where (\<lambda>s. sFamilyID s = sFamilyID row) (clk x 0) (lDB g)"
    if row: "row \<in> set (sessions (lDB g))" "sTokenHash row = HashRefresh H tk \<and> sUsedAt row \<noteq> None" for row
  proof -
    have "select_one (\<lambda>s. sTokenHash s = HashRefresh H tk) (sessions (lDB g)) = Some row"
      using row lineageD(4) [OF lin _ row(1)] select_one_Some select_one_None
      by (metis (mono_tags, lifting) option.exhaust)
    from Rotate_returned [OF this _ assms(3)] row(2) assms(5) show ?thesis by simp
  qed
  show "r = Inl ErrTokenReuse \<longleftrightarrow>
      (\<exists>row \<in> set (sessions (lDB g)). sTokenHash row = HashRefresh H tk \<and> sUsedAt row \<noteq> None)"
  proof
    assume "r = Inl ErrTokenReuse"
    with assms(5) have "Rotate H x tk m (lDB g) = (Inl ErrTokenReuse, db')" by simp
    then obtain row where "select_one (\<lambda>s. sTokenHash s = HashRefresh H tk) (sessions (lDB g)) = Some row"
      "sUsedAt row \<noteq> None" by (rule Rotate_reuse)
    then show "\<exists>row \<in> set (sessions (lDB g)). sTokenHash row = HashRefresh H tk \<and> sUsedAt row \<noteq> None"
      by (auto dest: select_one_Some)
  qed (use run in blast)
  fix row :: Session
  assume row: "row \<in> set (sessions (lDB g))" "sTokenHash row = HashRefresh H tk \<and> sUsedAt row \<noteq> None"
  note run' = run [OF row]
  have all: "\<forall>s \<in> set (sessions db'). sFamilyID s = sFamilyID row \<longrightarrow> sRevokedAt s \<noteq> None"
    using run' by (simp add: sessions_revoke_where ball_update_where)
  then show "sRevokedAt s \<noteq> None" if "s \<in> set (sessions db')" "sFamilyID s = sFamilyID row" for s
    using that by blast
  show "filter (\<lambda>s. sFamilyID s \<noteq> sFamilyID row) (sessions db') =
      filter (\<lambda>s. sFamilyID s \<noteq> sFamilyID row) (sessions (lDB g))"
    unfolding conjunct2 [OF run'] sessions_revoke_where by (rule filter_update_where) simp_all
  have "sFamilyID row \<in> lIDs g" using lineageD(1) [OF lin row(1)] by (simp add: issued_def)
  with all have "dead_family (sFamilyID row) (record_ctx H x db' g)" by (simp add: dead_family_def)
  moreover have "lineage_inv (record_ctx H x db' g)"
    by (rule families.step_inv [OF inv session_step.rotate [OF assms(4,5)]])
  ultimately have "dead_family (sFamilyID row) g'"
    using dead_families.dead_run [OF assms(6)] by blast
  then show "\<forall>y tk' n iss db''. Rotate H y tk' n (lDB g') = (Inr iss, db'') \<longrightarrow>
      sFamilyID (isSession iss) \<noteq> sFamilyID row"
    using dead_family_no_rotation by blast
qed

text \<open>The spent token of the example comes back long after its session has expired.\<close>

theorem reuse_kills_family_witness:
  "\<exists>db'. Rotate plain (calm (20 + 2 * RefreshTTL) ''S3'' CHR ''c'') (tok CHR ''a'') no_meta rotated_db = (Inl ErrTokenReuse, db') \<and>
     sExpiresAt first_session < 20 + 2 * RefreshTTL \<and>
     (\<forall>s \<in> set (sessions db'). sFamilyID s = ''S1'' \<longrightarrow> sRevokedAt s \<noteq> None)"
proof -
  let ?x = "calm (20 + 2 * RefreshTTL) ''S3'' CHR ''c''"
  obtain r db' where run: "Rotate plain ?x (tok CHR ''a'') no_meta (lDB rotated_state) = (r, db')" by fastforce
  have fresh: "new_ctx plain ?x rotated_state" using rotated_fresh by (simp add: new_ctx_def NewRefreshToken_calm)
  let ?row = "first_session\<lparr>sUsedAt := Some 20\<rparr>"
  have row: "?row \<in> set (sessions (lDB rotated_state))" "sTokenHash ?row = HashRefresh plain (tok CHR ''a'')" "sUsedAt ?row \<noteq> None"
    "sFamilyID ?row = ''S1''"
    by (simp_all add: rotated_db_def first_session_def HashRefresh_def)
  have calm: "\<not> flt ?x k" for k by simp
  note reuse = reuse_kills_family [OF seed_start rotated_reached calm fresh run rtranclp.rtrancl_refl]
  have "r = Inl ErrTokenReuse" using reuse row(1-3) by blast
  moreover have "\<forall>s \<in> set (sessions db'). sFamilyID s = ''S1'' \<longrightarrow> sRevokedAt s \<noteq> None"
    using conjunct2 [OF reuse] row by (metis (no_types, lifting))
  ultimately show ?thesis using run by (simp add: first_session_def RefreshTTL_def)
qed

text \<open>C16: in every reachable state two unused sessions of one family are the same row: a family has
  at most one token that can still be refreshed; and a family belongs to one user and one client.\<close>

theorem family_has_one_tip:
  assumes "lineage_start g0" and "rtranclp (session_step H) g0 g"
    and "s \<in> set (sessions (lDB g))" and "t \<in> set (sessions (lDB g))" and "sFamilyID s = sFamilyID t"
  shows "sUserID s = sUserID t \<and> sClientID s = sClientID t \<and>
    (sUsedAt s = None \<and> sUsedAt t = None \<longrightarrow> s = t)"
proof -
  have ok: "lineage (lIDs g) (lHashes g) (sessions (lDB g))"
    using families.reach_inv [OF assms(1,2)] by (simp add: lineage_inv_def)
  note k = kinD [OF lineageD(2) [OF ok assms(3,4)]]
  show ?thesis using k(1,2,4) lineageD(3) [OF ok assms(3,4)] assms(5) by blast
qed

theorem family_has_one_tip_witness:
  "sUserID (first_session\<lparr>sUsedAt := Some 20\<rparr>) = sUserID second_session \<and>
   sClientID (first_session\<lparr>sUsedAt := Some 20\<rparr>) = sClientID second_session \<and>
   {first_session\<lparr>sUsedAt := Some 20\<rparr>, second_session} = set (sessions (lDB rotated_state))"
proof -
  have m: "first_session\<lparr>sUsedAt := Some 20\<rparr> \<in> set (sessions (lDB rotated_state))"
    "second_session \<in> set (sessions (lDB rotated_state))"
    "sFamilyID (first_session\<lparr>sUsedAt := Some 20\<rparr>) = sFamilyID second_session"
    by (simp_all add: rotated_db_def first_session_def second_session_def)
  show ?thesis
    using family_has_one_tip [OF seed_start rotated_reached m] by (simp add: rotated_db_def)
qed

text \<open>C19: an unspent, unrevoked, unexpired refresh token is always accepted when no statement fails:
  the presented row is marked used and one row is added, of the same family, user and client, that
  names it as its parent, carries the new token's hash and lives for another \<open>RefreshTTL\<close>.\<close>

theorem rotate_accepts_live_token:
  assumes "db_ok H db" and "\<And>k. \<not> flt x k" and "NewRefreshToken x 0 = Inr raw"
    and "uid x 0 \<notin> set (map sID (sessions db))"
    and "HashRefresh H raw \<notin> set (map sTokenHash (sessions db))"
    and "row \<in> set (sessions db)" and "sTokenHash row = HashRefresh H tk"
    and "sUsedAt row = None" and "sRevokedAt row = None" and "clk x 0 \<le> sExpiresAt row"
  shows "Rotate H x tk m db =
    (Inr \<lparr>isSession = successor H x raw m row, RefreshToken = raw\<rparr>,
     db\<lparr>sessions := mark_used (sID row) (clk x 1) (sessions db) @ [successor H x raw m row]\<rparr>)"
proof -
  have "select_one (\<lambda>s. sTokenHash s = HashRefresh H tk) (sessions db) = Some row"
    using select_one_unique [OF _ assms(6), of sTokenHash] assms(1,7) by (simp add: db_ok_def)
  moreover have "user_exists db (sUserID row)" "client_exists db (sClientID row)"
    using assms(1,6) by (simp_all add: db_ok_def)
  moreover have "map sID (mark_used i t ss) = map sID ss"
    "map sTokenHash (mark_used i t ss) = map sTokenHash ss" for i t ss
    by (simp_all add: mark_used_def key_update_where)
  then have "session_ok (db\<lparr>sessions := mark_used (sID row) (clk x 1) (sessions db)\<rparr>) (successor H x raw m row)"
    using calculation(2,3) assms(4,5) by (simp add: session_ok_def successor_def del: set_map)
  ultimately show ?thesis
    using assms(2,3,8-10)
    by (simp add: Rotate_def norows_def Let_def insertSession_def successor_def mark_used_def)
qed

lemma db_ok_signed_in: "db_ok plain signed_in_db"
  by (simp add: session_examples db_ok_def)

theorem rotate_accepts_live_token_witness:
  "fst (Rotate plain (calm 20 ''S2'' CHR ''b'') (tok CHR ''a'') no_meta signed_in_db) =
     Inr \<lparr>isSession = successor plain (calm 20 ''S2'' CHR ''b'') (tok CHR ''b'') no_meta first_session,
          RefreshToken = tok CHR ''b''\<rparr>"
  by (subst rotate_accepts_live_token [OF db_ok_signed_in _ NewRefreshToken_calm, of _ _ _ first_session])
    (simp_all add: session_examples)

text \<open>Revoking all sessions of a user leaves none of them unrevoked, changes no other user's
  session, and is final: no later rotation yields a session of a family the user had.\<close>

theorem revoke_all_is_final:
  assumes "lineage_start g0" and "rtranclp (session_step H) g0 g"
    and "RevokeAllForUser x u (lDB g) = (Inr (), db')"
    and "rtranclp (session_step H) (g\<lparr>lDB := db'\<rparr>) g'"
  shows "(\<forall>s \<in> set (sessions db'). sUserID s = u \<longrightarrow> sRevokedAt s \<noteq> None) \<and>
    (\<forall>s \<in> set (sessions (lDB g)). sUserID s \<noteq> u \<longrightarrow> s \<in> set (sessions db')) \<and>
    (\<forall>y tk m iss db''. Rotate H y tk m (lDB g') = (Inr iss, db'') \<longrightarrow>
       (\<forall>s \<in> set (sessions (lDB g)). sUserID s = u \<longrightarrow> sFamilyID (isSession iss) \<noteq> sFamilyID s))"
proof -
  have db': "db' = revoke_where (\<lambda>s. sUserID s = u \<and> sRevokedAt s = None) (clk x 0) (lDB g)"
    using assms(3) by (simp add: RevokeAllForUser_def split: if_splits)
  have inv: "lineage_inv g" by (rule families.reach_inv [OF assms(1,2)])
  then have ok: "lineage (lIDs g) (lHashes g) (sessions (lDB g))" by (simp add: lineage_inv_def)
  have inv': "lineage_inv (g\<lparr>lDB := db'\<rparr>)"
    by (rule families.step_inv [OF inv session_step.revoke_user [OF assms(3)]])
  have gone: "\<forall>s \<in> set (sessions db'). sUserID s = u \<longrightarrow> sRevokedAt s \<noteq> None"
    by (simp add: db' sessions_revoke_where ball_update_where)
  have kept: "\<forall>s \<in> set (sessions (lDB g)). sUserID s \<noteq> u \<longrightarrow> s \<in> set (sessions db')"
    by (auto simp: db' sessions_revoke_where mem_update_where)
  have dead: "dead_family (sFamilyID s) (g\<lparr>lDB := db'\<rparr>)"
    if s: "s \<in> set (sessions (lDB g))" "sUserID s = u" for s
  proof -
    have "sFamilyID s \<in> lIDs g" using lineageD(1) [OF ok s(1)] by (simp add: issued_def)
    moreover have "sUserID t = u" if "t \<in> set (sessions (lDB g))" "sFamilyID t = sFamilyID s" for t
      using kinD(1) [OF lineageD(2) [OF ok that(1) s(1)]] that(2) s(2) by simp
    ultimately show ?thesis
      by (simp add: dead_family_def db' sessions_revoke_where ball_update_where)
  qed
  show ?thesis
    using gone kept dead_families.dead_run [OF assms(4) inv' dead] dead_family_no_rotation by blast
qed

theorem revoke_all_is_final_witness:
  "\<exists>db'. RevokeAllForUser (calm 30 [] CHR ''c'') ''A'' signed_in_db = (Inr (), db') \<and>
     (\<forall>s \<in> set (sessions db'). sUserID s = ''A'' \<longrightarrow> sRevokedAt s \<noteq> None)"
proof -
  obtain db' where run: "RevokeAllForUser (calm 30 [] CHR ''c'') ''A'' (lDB signed_in_state) = (Inr (), db')"
    by (simp add: RevokeAllForUser_def)
  show ?thesis
    using revoke_all_is_final [OF seed_start signed_in_reached run rtranclp.rtrancl_refl] run by auto
qed

text \<open>\<open>ActiveSessionsForUser\<close> lists exactly the user's sessions that are neither revoked, spent
  nor expired, each once, newest first.\<close>

theorem active_sessions_exact:
  assumes "ActiveSessionsForUser x u db = Inr ss"
  shows "mset ss = filter_mset (\<lambda>s. sUserID s = u \<and> sRevokedAt s = None \<and> sUsedAt s = None \<and>
      clk x 0 < sExpiresAt s) (mset (sessions db)) \<and>
    sorted_wrt (\<lambda>s t. sIssuedAt t \<le> sIssuedAt s) ss"
proof -
  have "ss = order_by (\<lambda>s t. sIssuedAt t \<le> sIssuedAt s)
      (filter (\<lambda>s. sUserID s = u \<and> sRevokedAt s = None \<and> sUsedAt s = None \<and> clk x 0 < sExpiresAt s)
         (sessions db))"
    using assms by (simp add: ActiveSessionsForUser_def split: if_splits)
  moreover have "sorted_wrt (\<lambda>s t. sIssuedAt t \<le> sIssuedAt s)
      (order_by (\<lambda>s t :: Session. sIssuedAt t \<le> sIssuedAt s) ts)" for ts
    by (rule sorted_order_by) auto
  ultimately show ?thesis by (simp add: mset_order_by)
qed

theorem active_sessions_exact_witness:
  "ActiveSessionsForUser (calm 30 [] CHR ''c'') ''A'' rotated_db = Inr [second_session] \<and>
     mset [second_session] = filter_mset (\<lambda>s. sUsedAt s = None) (mset (sessions rotated_db))"
proof -
  have run: "ActiveSessionsForUser (calm 30 [] CHR ''c'') ''A'' rotated_db = Inr [second_session]"
    by (simp add: ActiveSessionsForUser_def order_by_def session_examples)
  show ?thesis
    using active_sessions_exact [OF run] run
    by (simp add: rotated_db_def first_session_def second_session_def RefreshTTL_def)
qed

text \<open>The nightly prune never takes a session that could still be refreshed: every row it
  deletes had expired by more than the grace period, it reports their number, and a rotation that
  would have succeeded succeeds just the same.\<close>

theorem prune_keeps_live_sessions:
  assumes "PruneSessions x grace db = (Inr n, db')" and "0 \<le> grace" and "clk x 0 \<le> clk y 0"
  shows "(\<forall>s \<in> set (sessions db) - set (sessions db'). sExpiresAt s < clk x 0 - grace) \<and>
    length (sessions db') + n = length (sessions db) \<and>
    (\<forall>iss. fst (Rotate H y tk m db) = Inr iss \<longrightarrow> fst (Rotate H y tk m db') = Inr iss)"
proof -
  let ?gone = "\<lambda>s. sExpiresAt s < clk x 0 - grace"
  have db': "db' = db\<lparr>sessions := delete_where ?gone (sessions db)\<rparr>"
    and n: "n = length (filter ?gone (sessions db))"
    using assms(1) by (auto simp: PruneSessions_def Let_def split: if_splits)
  have "fst (Rotate H y tk m db') = Inr iss" if ok: "fst (Rotate H y tk m db) = Inr iss" for iss
  proof -
    obtain db1 where run: "Rotate H y tk m db = (Inr iss, db1)"
      using ok by (metis prod.collapse)
    then obtain row where row:
      "select_one (\<lambda>s. sTokenHash s = HashRefresh H tk) (sessions db) = Some row"
      "sUsedAt row = None" "sRevokedAt row = None" "clk y 0 \<le> sExpiresAt row"
      "NewRefreshToken y 0 = Inr (RefreshToken iss)"
      "isSession iss = successor H y (RefreshToken iss) m row"
      "session_ok (db\<lparr>sessions := mark_used (sID row) (clk y 1) (sessions db)\<rparr>) (isSession iss)"
      by (rule Rotate_Inr)
    have "\<not> ?gone row" using row(4) assms(2,3) by simp
    then have sel: "select_one (\<lambda>s. sTokenHash s = HashRefresh H tk) (sessions db') = Some row"
      using select_one_delete [OF row(1), of ?gone] by (simp add: db')
    have keys: "map sID (mark_used i t ss) = map sID ss"
      "map sTokenHash (mark_used i t ss) = map sTokenHash ss" for i t ss
      by (simp_all add: mark_used_def key_update_where)
    have ok: "session_ok (db'\<lparr>sessions := mark_used (sID row) (clk y 1) (sessions db')\<rparr>) (isSession iss)"
      using row(7) set_map_delete [of sID ?gone] set_map_delete [of sTokenHash ?gone]
      by (simp add: session_ok_def keys db' del: set_map) blast
    have "\<not> flt y 0" "\<not> flt y 1" "\<not> flt y 2" "\<not> flt y 3" "\<not> flt y 4"
      using run row(1-4)
      by (auto simp: Rotate_def norows_def Let_def insertSession_def row(5) split: if_splits prod.splits sum.splits)
    then show ?thesis
      using sel row ok
      by (simp add: Rotate_def norows_def Let_def insertSession_def successor_def mark_used_def)
  qed
  moreover have "length (sessions db') + n = length (sessions db)"
    using sum_length_filter_compl [of ?gone "sessions db"] by (simp add: db' n delete_where_def)
  ultimately show ?thesis by (auto simp: db' mem_delete_where)
qed

theorem prune_keeps_live_sessions_witness:
  "\<exists>db'. PruneSessions (calm (12 + RefreshTTL) [] CHR ''c'') 1 signed_in_db = (Inr 1, db') \<and>
     sessions db' = [] \<and> length (sessions signed_in_db) = 1"
proof -
  let ?x = "calm (12 + RefreshTTL) [] CHR ''c''"
  obtain db' where run: "PruneSessions ?x 1 signed_in_db = (Inr 1, db')"
    by (simp add: PruneSessions_def signed_in_db_def first_session_def)
  show ?thesis
    using prune_keeps_live_sessions [OF run, of ?x] run by (simp add: signed_in_db_def)
qed

end
