(* ===== verification/Users.thy ===== *)
theory Users
  imports Store
begin

text \<open>
  \<open>internal/store/users.go\<close> and \<open>identities.go\<close>: accounts, client applications and the
  provider identities attached to accounts.
\<close>

section \<open>Users\<close>

definition CreateUser ::
  "lib \<Rightarrow> opctx \<Rightarrow> string \<Rightarrow> string option \<Rightarrow> DB \<Rightarrow> (store_error + User) \<times> DB" where
  "CreateUser H x email passwordHash db =
     (let u = \<lparr>uID = uid x 0, uEmail = email, uEmailVerifiedAt = None, uPasswordHash = passwordHash,
               uCreatedAt = clk x 0, uUpdatedAt = clk x 0, uDisabledAt = None\<rparr>
      in if flt x 0 \<or> \<not> user_ok H db u then (Inl ErrDB, db)
         else (Inr u, db\<lparr>users := users db @ [u]\<rparr>))"

text \<open>\<open>scanUser\<close> runs the query its two callers complete with a \<open>WHERE\<close> clause.\<close>

definition scanUser :: "opctx \<Rightarrow> (User \<Rightarrow> bool) \<Rightarrow> DB \<Rightarrow> store_error + User" where
  "scanUser x P db = norows (flt x 0) (select_one P (users db))"

definition UserByEmail :: "lib \<Rightarrow> opctx \<Rightarrow> string \<Rightarrow> DB \<Rightarrow> store_error + User" where
  "UserByEmail H x email db = scanUser x (\<lambda>u. citext H (uEmail u) = citext H email) db"

definition UserByID :: "opctx \<Rightarrow> string \<Rightarrow> DB \<Rightarrow> store_error + User" where
  "UserByID x i db = scanUser x (\<lambda>u. uID u = i) db"

definition MarkEmailVerified :: "opctx \<Rightarrow> string \<Rightarrow> DB \<Rightarrow> (store_error + unit) \<times> DB" where
  "MarkEmailVerified x userID db =
     (if flt x 0 then (Inl ErrDB, db)
      else (Inr (), db\<lparr>users := update_where (\<lambda>u. uID u = userID)
        (\<lambda>u. u\<lparr>uEmailVerifiedAt := coalesce (uEmailVerifiedAt u) (clk x 0), uUpdatedAt := clk x 0\<rparr>)
        (users db)\<rparr>))"

definition SetPasswordHash :: "opctx \<Rightarrow> string \<Rightarrow> string \<Rightarrow> DB \<Rightarrow> (store_error + unit) \<times> DB" where
  "SetPasswordHash x userID hash db =
     (if flt x 0 then (Inl ErrDB, db)
      else (Inr (), db\<lparr>users := update_where (\<lambda>u. uID u = userID)
        (\<lambda>u. u\<lparr>uPasswordHash := Some hash, uUpdatedAt := clk x 0\<rparr>) (users db)\<rparr>))"

section \<open>Clients\<close>

definition CreateClient :: "opctx \<Rightarrow> Client \<Rightarrow> DB \<Rightarrow> (store_error + unit) \<times> DB" where
  "CreateClient x c db =
     (if flt x 0 \<or> \<not> client_ok db c then (Inl ErrDB, db)
      else (Inr (), db\<lparr>app_clients := app_clients db @ [c]\<rparr>))"

definition ClientByID :: "opctx \<Rightarrow> string \<Rightarrow> DB \<Rightarrow> store_error + Client" where
  "ClientByID x i db = norows (flt x 0) (select_one (\<lambda>c. cID c = i) (app_clients db))"

text \<open>The loop over the registered redirects, exact comparison.\<close>

fun allows :: "string list \<Rightarrow> string \<Rightarrow> bool" where
  "allows [] uri = False"
| "allows (u # us) uri = (if u = uri then True else allows us uri)"

definition AllowsRedirect :: "Client \<Rightarrow> string \<Rightarrow> bool" where
  "AllowsRedirect c uri = allows (cRedirectURIs c) uri"

lemma AllowsRedirect_iff: "AllowsRedirect c uri \<longleftrightarrow> uri \<in> set (cRedirectURIs c)"
proof -
  have "allows us uri \<longleftrightarrow> uri \<in> set us" for us by (induction us) auto
  then show ?thesis by (simp add: AllowsRedirect_def)
qed

definition ListClients :: "opctx \<Rightarrow> DB \<Rightarrow> store_error + Client list" where
  "ListClients x db =
     (if flt x 0 then Inl ErrDB
      else Inr (order_by (\<lambda>c d. str_le (cID c) (cID d)) (app_clients db)))"

section \<open>Identities\<close>

definition IdentityBySubject ::
  "opctx \<Rightarrow> string \<Rightarrow> string \<Rightarrow> DB \<Rightarrow> store_error + Identity" where
  "IdentityBySubject x provider subject db =
     norows (flt x 0)
       (select_one (\<lambda>i. (iProvider i, iSubject i) = (provider, subject)) (identities db))"

definition IdentitiesForUser :: "opctx \<Rightarrow> string \<Rightarrow> DB \<Rightarrow> store_error + Identity list" where
  "IdentitiesForUser x userID db =
     (if flt x 0 then Inl ErrDB
      else Inr (order_by (\<lambda>i j. str_le (iProvider i) (iProvider j))
             (filter (\<lambda>i. iUserID i = userID) (identities db))))"

text \<open>A missing profile is stored as the empty object.\<close>

definition with_profile :: "Identity \<Rightarrow> Identity" where
  "with_profile i = (if iRawProfile i = None then i\<lparr>iRawProfile := Some ''{}''\<rparr> else i)"

definition CreateIdentity :: "opctx \<Rightarrow> Identity \<Rightarrow> DB \<Rightarrow> (store_error + Identity) \<times> DB" where
  "CreateIdentity x i db =
     (let i' = with_profile (i\<lparr>iID := uid x 0\<rparr>)
      in if flt x 0 \<or> \<not> identity_ok db i' then (Inl ErrDB, db)
         else (Inr i', db\<lparr>identities := identities db @ [i']\<rparr>))"

text \<open>One transaction: 0 \<open>BEGIN\<close>, 1 the user, 2 the identity, 3 \<open>COMMIT\<close>.\<close>

definition CreateUserWithIdentity ::
  "lib \<Rightarrow> opctx \<Rightarrow> string \<Rightarrow> bool \<Rightarrow> Identity \<Rightarrow> DB \<Rightarrow> (store_error + User \<times> Identity) \<times> DB" where
  "CreateUserWithIdentity H x email emailVerified i db =
     (if flt x 0 then (Inl ErrDB, db)
      else
        let now = clk x 0;
            u = \<lparr>uID = uid x 0, uEmail = email,
                 uEmailVerifiedAt = (if emailVerified then Some now else None),
                 uPasswordHash = None, uCreatedAt = now, uUpdatedAt = now, uDisabledAt = None\<rparr>
        in if flt x 1 \<or> \<not> user_ok H db u then (Inl ErrDB, db)
        else
          let db1 = db\<lparr>users := users db @ [u]\<rparr>;
              i' = with_profile (i\<lparr>iID := uid x 1, iUserID := uID u\<rparr>)
          in if flt x 2 \<or> \<not> identity_ok db1 i' then (Inl ErrDB, db)
          else if flt x 3 then (Inl ErrDB, db)
          else (Inr (u, i'), db1\<lparr>identities := identities db @ [i']\<rparr>))"

section \<open>What the operations do\<close>

lemma with_profile_simps [simp]:
  "iID (with_profile i) = iID i" "iUserID (with_profile i) = iUserID i"
  "iProvider (with_profile i) = iProvider i" "iSubject (with_profile i) = iSubject i"
  "iEmail (with_profile i) = iEmail i" "iEmailVerified (with_profile i) = iEmailVerified i"
  by (simp_all add: with_profile_def)

lemma CreateUser_Inr:
  assumes "CreateUser H x email ph db = (Inr u, db')"
  shows "uEmail u = email" "uEmailVerifiedAt u = None" "uPasswordHash u = ph" "uDisabledAt u = None"
    "uID u = uid x 0" "user_ok H db u" "db' = db\<lparr>users := users db @ [u]\<rparr>"
  using assms by (auto simp: CreateUser_def Let_def split: if_splits)

lemma CreateUser_Inl: "CreateUser H x email ph db = (Inl e, db') \<Longrightarrow> db' = db \<and> e = ErrDB"
  by (auto simp: CreateUser_def Let_def split: if_splits)

lemma CreateIdentity_Inr:
  assumes "CreateIdentity x i db = (Inr i', db')"
  shows "i' = with_profile (i\<lparr>iID := uid x 0\<rparr>)" "identity_ok db i'"
    "db' = db\<lparr>identities := identities db @ [i']\<rparr>"
  using assms by (auto simp: CreateIdentity_def Let_def split: if_splits)

lemma CreateIdentity_Inl: "CreateIdentity x i db = (Inl e, db') \<Longrightarrow> db' = db \<and> e = ErrDB"
  by (auto simp: CreateIdentity_def Let_def split: if_splits)

lemma CreateUserWithIdentity_Inr:
  assumes "CreateUserWithIdentity H x email v i db = (Inr (u, i'), db')"
  shows "uID u = uid x 0" "uEmail u = email" "EmailVerified u = v" "uPasswordHash u = None"
    "uDisabledAt u = None" "user_ok H db u" "i' = with_profile (i\<lparr>iID := uid x 1, iUserID := uID u\<rparr>)"
    "identity_ok (db\<lparr>users := users db @ [u]\<rparr>) i'"
    "db' = db\<lparr>users := users db @ [u], identities := identities db @ [i']\<rparr>"
  using assms
  by (auto simp: CreateUserWithIdentity_def Let_def EmailVerified_def split: if_splits)

lemma CreateUserWithIdentity_Inl:
  "CreateUserWithIdentity H x email v i db = (Inl e, db') \<Longrightarrow> db' = db \<and> e = ErrDB"
  by (auto simp: CreateUserWithIdentity_def Let_def split: if_splits)

text \<open>Reads by a unique key, on a database that keeps its constraints.\<close>

lemma UserByID_Inr: "UserByID x i db = Inr u \<Longrightarrow> u \<in> set (users db) \<and> uID u = i"
  unfolding UserByID_def scanUser_def norows_Inr by (blast dest: select_one_Some)

lemma UserByID_NotFound: "UserByID x i db = Inl ErrNotFound \<Longrightarrow> \<not> user_exists db i"
  by (auto simp: UserByID_def scanUser_def norows_NotFound select_one_None user_exists_def)

lemma UserByEmail_Inr:
  "UserByEmail H x e db = Inr u \<Longrightarrow> u \<in> set (users db) \<and> citext H (uEmail u) = citext H e"
  unfolding UserByEmail_def scanUser_def norows_Inr by (blast dest: select_one_Some)

lemma UserByEmail_NotFound:
  "UserByEmail H x e db = Inl ErrNotFound \<Longrightarrow> \<forall>u \<in> set (users db). citext H (uEmail u) \<noteq> citext H e"
  by (simp add: UserByEmail_def scanUser_def norows_NotFound select_one_None)

lemma IdentityBySubject_Inr:
  "IdentityBySubject x p s db = Inr i \<Longrightarrow>
   i \<in> set (identities db) \<and> iProvider i = p \<and> iSubject i = s"
  unfolding IdentityBySubject_def norows_Inr by (blast dest: select_one_Some)

lemma IdentityBySubject_NotFound:
  "IdentityBySubject x p s db = Inl ErrNotFound \<Longrightarrow>
   \<forall>i \<in> set (identities db). (iProvider i, iSubject i) \<noteq> (p, s)"
  by (simp add: IdentityBySubject_def norows_NotFound select_one_None)

lemma ClientByID_Inr: "ClientByID x i db = Inr c \<Longrightarrow> c \<in> set (app_clients db) \<and> cID c = i"
  unfolding ClientByID_def norows_Inr by (blast dest: select_one_Some)

lemma db_ok_userD:
  assumes "db_ok H db" "u \<in> set (users db)" "v \<in> set (users db)"
  shows "uID u = uID v \<Longrightarrow> u = v" "citext H (uEmail u) = citext H (uEmail v) \<Longrightarrow> u = v"
  using assms distinct_keyD [of uID "users db" u v] distinct_keyD [of "citext H \<circ> uEmail" "users db" u v]
  by (auto simp: db_ok_def)

lemma db_ok_identityD:
  assumes "db_ok H db" "i \<in> set (identities db)" "j \<in> set (identities db)"
  shows "iProvider i = iProvider j \<Longrightarrow> iSubject i = iSubject j \<Longrightarrow> i = j"
  using assms distinct_keyD [of "\<lambda>j. (iProvider j, iSubject j)" "identities db" i j]
  by (auto simp: db_ok_def)

end
