(* ===== verification/Codes.thy ===== *)
theory Codes
  imports Store Machine GoStrings
begin

text \<open>
  \<open>internal/store/otp.go\<close>: one-time codes. A numeric code is redeemed for an identifier the
  caller names and allows \<open>MaxOTPAttempts\<close> guesses; an emailed token names its row itself.
\<close>

definition MaxOTPAttempts :: int where
  "MaxOTPAttempts = 5"

section \<open>Minting\<close>

text \<open>
  \<open>rand.Int(rand.Reader, max)\<close> is documented as a uniform number below \<open>max\<close>, or an error. Here it is the
  bytes of the context read as a number, reduced: any number below \<open>max\<close> and no other; that Go draws
  again instead of reducing concerns the distribution only, which is not modelled. The loop pads to
  \<open>n\<close> digits.
\<close>

function zero_pad :: "nat \<Rightarrow> string \<Rightarrow> string" where
  "zero_pad n s = (if length s < n then zero_pad n (CHR ''0'' # s) else s)"
  by pat_completeness auto
termination
  by (relation "measure (\<lambda>(n, s). n - length s)") auto

declare zero_pad.simps [simp del]

definition rand_int :: "opctx \<Rightarrow> nat \<Rightarrow> nat \<Rightarrow> nat option" where
  "rand_int x k bound =
     map_option (\<lambda>b. foldl (\<lambda>a c. a * 256 + byte c) 0 b mod bound) (rand_read x k 32)"

definition NewNumericCode :: "opctx \<Rightarrow> nat \<Rightarrow> store_error + string" where
  "NewNumericCode x n =
     (case rand_int x 0 (10 ^ n) of None \<Rightarrow> Inl ErrRand | Some v \<Rightarrow> Inr (zero_pad n (digits v)))"

section \<open>Issuing and redeeming\<close>

text \<open>One transaction: 0 \<open>BEGIN\<close>, 1 the \<open>UPDATE\<close> that burns older codes, 2 the \<open>INSERT\<close>,
  3 \<open>COMMIT\<close>.\<close>

definition IssueCode ::
  "lib \<Rightarrow> opctx \<Rightarrow> string \<Rightarrow> Purpose \<Rightarrow> string \<Rightarrow> duration \<Rightarrow> DB \<Rightarrow> (store_error + unit) \<times> DB" where
  "IssueCode H x identifier p code ttl db =
     (if flt x 0 then (Inl ErrDB, db)
      else
        let now = clk x 0 in
        if flt x 1 then (Inl ErrDB, db)
        else
          let db1 = db\<lparr>otp_codes := update_where
                (\<lambda>r. oIdentifier r = identifier \<and> oPurpose r = p \<and> oConsumedAt r = None)
                (\<lambda>r. r\<lparr>oConsumedAt := Some now\<rparr>) (otp_codes db)\<rparr>;
              row = \<lparr>oID = uid x 0, oIdentifier = identifier, oCodeHash = hashCode H code,
                     oPurpose = p, oAttempts = 0, oExpiresAt = now + ttl, oConsumedAt = None,
                     oCreatedAt = now\<rparr>
          in if flt x 2 \<or> \<not> otp_ok db1 row then (Inl ErrDB, db)
          else if flt x 3 then (Inl ErrDB, db)
          else (Inr (), db1\<lparr>otp_codes := otp_codes db1 @ [row]\<rparr>))"

text \<open>
  \<open>ORDER BY created_at DESC LIMIT 1\<close>: a newest row among those that match, the last inserted
  one where two are equally new.
\<close>

fun newest :: "OTPRow list \<Rightarrow> OTPRow option" where
  "newest [] = None"
| "newest (r # rs) =
     (case newest rs of
        None \<Rightarrow> Some r
      | Some q \<Rightarrow> if oCreatedAt q < oCreatedAt r then Some r else Some q)"

definition outstanding :: "string \<Rightarrow> Purpose \<Rightarrow> OTPRow \<Rightarrow> bool" where
  "outstanding identifier p r \<longleftrightarrow>
     oIdentifier r = identifier \<and> oPurpose r = p \<and> oConsumedAt r = None"

text \<open>
  \<open>ConsumeCode\<close>: any error of the \<open>SELECT\<close> (statement 1) is \<open>ErrCodeInvalid\<close>. A wrong guess
  is counted and committed although the result is an error. \<open>pgnow\<close> is the server's \<open>now()\<close>
  the burning statement uses.
\<close>

definition ConsumeCode ::
  "lib \<Rightarrow> opctx \<Rightarrow> instant \<Rightarrow> string \<Rightarrow> Purpose \<Rightarrow> string \<Rightarrow> DB \<Rightarrow> (store_error + unit) \<times> DB" where
  "ConsumeCode H x pgnow identifier p code db =
     (if flt x 0 then (Inl ErrDB, db)
      else case (if flt x 1 then None else newest (filter (outstanding identifier p) (otp_codes db))) of
        None \<Rightarrow> (Inl ErrCodeInvalid, db)
      | Some row \<Rightarrow>
          if oExpiresAt row < clk x 0 then (Inl ErrCodeInvalid, db)
          else if MaxOTPAttempts \<le> oAttempts row then (Inl ErrCodeAttempts, db)
          else if oCodeHash row \<noteq> hashCode H code then
            (let attempts = oAttempts row + 1;
                 db' = db\<lparr>otp_codes := update_where (\<lambda>r. oID r = oID row)
                   (\<lambda>r. if MaxOTPAttempts \<le> attempts
                        then r\<lparr>oAttempts := attempts, oConsumedAt := Some pgnow\<rparr>
                        else r\<lparr>oAttempts := attempts\<rparr>) (otp_codes db)\<rparr>
             in if flt x 2 \<or> flt x 3 then (Inl ErrDB, db)
                else if MaxOTPAttempts \<le> attempts then (Inl ErrCodeAttempts, db')
                else (Inl ErrCodeInvalid, db'))
          else if flt x 2 \<or> flt x 3 then (Inl ErrDB, db)
          else (Inr (), db\<lparr>otp_codes := update_where (\<lambda>r. oID r = oID row)
                             (\<lambda>r. r\<lparr>oConsumedAt := Some (clk x 1)\<rparr>) (otp_codes db)\<rparr>))"

definition ConsumeToken ::
  "lib \<Rightarrow> opctx \<Rightarrow> Purpose \<Rightarrow> string \<Rightarrow> DB \<Rightarrow> (store_error + string) \<times> DB" where
  "ConsumeToken H x p tok db =
     (if flt x 0 then (Inl ErrDB, db)
      else case (if flt x 1 then None
                 else select_one (\<lambda>r. oCodeHash r = hashCode H tok \<and> oPurpose r = p \<and>
                        oConsumedAt r = None) (otp_codes db)) of
        None \<Rightarrow> (Inl ErrCodeInvalid, db)
      | Some row \<Rightarrow>
          if oExpiresAt row < clk x 0 then (Inl ErrCodeInvalid, db)
          else if flt x 2 \<or> flt x 3 then (Inl ErrDB, db)
          else (Inr (oIdentifier row), db\<lparr>otp_codes := update_where (\<lambda>r. oID r = oID row)
                 (\<lambda>r. r\<lparr>oConsumedAt := Some (clk x 1)\<rparr>) (otp_codes db)\<rparr>))"

definition PruneCodes :: "opctx \<Rightarrow> duration \<Rightarrow> DB \<Rightarrow> (store_error + nat) \<times> DB" where
  "PruneCodes x grace db =
     (if flt x 0 then (Inl ErrDB, db)
      else let gone = (\<lambda>r. oExpiresAt r < clk x 0 - grace)
           in (Inr (length (filter gone (otp_codes db))),
               db\<lparr>otp_codes := delete_where gone (otp_codes db)\<rparr>))"

section \<open>A numeric code has as many digits as asked\<close>

lemma zero_pad_eq: "zero_pad n s = replicate (n - length s) CHR ''0'' @ s"
proof (induction n s rule: zero_pad.induct)
  case (1 n s)
  show ?case
  proof (cases "length s < n")
    case True
    then have "n - length s = Suc (n - Suc (length s))" by simp
    with 1 True show ?thesis
      by (subst zero_pad.simps) (simp add: replicate_app_Cons_same)
  next
    case False
    then show ?thesis by (subst zero_pad.simps) simp
  qed
qed

lemma NewNumericCode_shape:
  assumes "NewNumericCode x n = Inr code" and "0 < n"
  shows "length code = n" and "list_all is_digit code"
proof -
  obtain m where "code = zero_pad n (digits (m mod 10 ^ n))"
    using assms(1) by (auto simp: NewNumericCode_def rand_int_def split: option.splits)
  moreover have "m mod 10 ^ n < 10 ^ n" by simp
  ultimately obtain v where v: "v < 10 ^ n" "code = zero_pad n (digits v)" by blast
  with length_digits [OF assms(2) v(1)] show "length code = n" by (simp add: zero_pad_eq)
  show "list_all is_digit code"
    using v digits_chars [of v] by (auto simp: zero_pad_eq list_all_length is_digit_def nth_append)
qed

section \<open>What the operations do\<close>

lemma newest_mem: "newest rs = Some r \<Longrightarrow> r \<in> set rs"
  by (induction rs arbitrary: r) (auto split: option.splits if_splits)

lemma newest_None [simp]: "newest rs = None \<longleftrightarrow> rs = []"
  by (cases rs) (auto split: option.splits)

text \<open>The codes an \<open>IssueCode\<close> burns, and the table it leaves.\<close>

definition burn :: "string \<Rightarrow> Purpose \<Rightarrow> instant \<Rightarrow> OTPRow list \<Rightarrow> OTPRow list" where
  "burn identifier p now =
     update_where (\<lambda>r. oIdentifier r = identifier \<and> oPurpose r = p \<and> oConsumedAt r = None)
       (\<lambda>r. r\<lparr>oConsumedAt := Some now\<rparr>)"

definition issued_row :: "lib \<Rightarrow> opctx \<Rightarrow> string \<Rightarrow> Purpose \<Rightarrow> string \<Rightarrow> duration \<Rightarrow> OTPRow" where
  "issued_row H x identifier p code ttl =
     \<lparr>oID = uid x 0, oIdentifier = identifier, oCodeHash = hashCode H code, oPurpose = p,
      oAttempts = 0, oExpiresAt = clk x 0 + ttl, oConsumedAt = None, oCreatedAt = clk x 0\<rparr>"

lemma IssueCode_cases:
  assumes "IssueCode H x i p code ttl db = (r, db')"
  obtains "r = Inl ErrDB" "db' = db"
  | "r = Inr ()" "otp_ok db (issued_row H x i p code ttl)"
    "db' = db\<lparr>otp_codes := burn i p (clk x 0) (otp_codes db) @ [issued_row H x i p code ttl]\<rparr>"
proof -
  let ?row = "issued_row H x i p code ttl"
  let ?db1 = "db\<lparr>otp_codes := burn i p (clk x 0) (otp_codes db)\<rparr>"
  have ok: "otp_ok ?db1 ?row = otp_ok db ?row"
    unfolding otp_ok_def burn_def by (simp add: key_update_where del: set_map)
  have eq: "IssueCode H x i p code ttl db =
      (if flt x 0 \<or> flt x 1 \<or> flt x 2 \<or> \<not> otp_ok ?db1 ?row \<or> flt x 3 then (Inl ErrDB, db)
       else (Inr (), ?db1\<lparr>otp_codes := otp_codes ?db1 @ [?row]\<rparr>))"
    unfolding IssueCode_def Let_def issued_row_def burn_def by simp
  show thesis
  proof (cases "flt x 0 \<or> flt x 1 \<or> flt x 2 \<or> \<not> otp_ok ?db1 ?row \<or> flt x 3")
    case True
    with assms show thesis unfolding eq by (intro that(1)) simp_all
  next
    case False
    with assms ok show thesis unfolding eq by (intro that(2)) simp_all
  qed
qed

lemma ConsumeToken_cases:
  assumes "ConsumeToken H x p tok db = (r, db')"
  obtains e where "r = Inl e" "db' = db"
  | row where "r = Inr (oIdentifier row)" "row \<in> set (otp_codes db)"
      "oCodeHash row = hashCode H tok" "oPurpose row = p" "oConsumedAt row = None"
      "clk x 0 \<le> oExpiresAt row"
      "db' = db\<lparr>otp_codes := update_where (\<lambda>r. oID r = oID row)
         (\<lambda>r. r\<lparr>oConsumedAt := Some (clk x 1)\<rparr>) (otp_codes db)\<rparr>"
proof (cases r)
  case (Inl e)
  with assms show thesis
    by (intro that(1) [of e]) (auto simp: ConsumeToken_def split: if_splits option.splits)
next
  case (Inr i)
  with assms obtain row where row:
    "select_one (\<lambda>r. oCodeHash r = hashCode H tok \<and> oPurpose r = p \<and> oConsumedAt r = None)
       (otp_codes db) = Some row"
    "clk x 0 \<le> oExpiresAt row" "i = oIdentifier row"
    "db' = db\<lparr>otp_codes := update_where (\<lambda>r. oID r = oID row)
       (\<lambda>r. r\<lparr>oConsumedAt := Some (clk x 1)\<rparr>) (otp_codes db)\<rparr>"
    by (auto simp: ConsumeToken_def split: if_splits option.splits)
  from select_one_Some [OF row(1)] row(2-) Inr show thesis by (intro that(2) [of row]) simp_all
qed

text \<open>
  What a guess does to the row it was made against: \<open>miss\<close> counts it and burns the row at the
  limit, \<open>hit\<close> redeems the row.
\<close>

definition miss :: "instant \<Rightarrow> int \<Rightarrow> OTPRow \<Rightarrow> OTPRow" where
  "miss pgnow n r =
     (if MaxOTPAttempts \<le> n then r\<lparr>oAttempts := n, oConsumedAt := Some pgnow\<rparr>
      else r\<lparr>oAttempts := n\<rparr>)"

lemma miss_simps [simp]:
  "oID (miss t n r) = oID r" "oIdentifier (miss t n r) = oIdentifier r"
  "oCodeHash (miss t n r) = oCodeHash r" "oPurpose (miss t n r) = oPurpose r"
  "oExpiresAt (miss t n r) = oExpiresAt r" "oAttempts (miss t n r) = n"
  "oConsumedAt (miss t n r) = (if MaxOTPAttempts \<le> n then Some t else oConsumedAt r)"
  by (simp_all add: miss_def)

lemma ConsumeCode_cases:
  assumes "ConsumeCode H x pgnow i p code db = (r, db')"
  obtains e where "r = Inl e" "db' = db"
  | row where "newest (filter (outstanding i p) (otp_codes db)) = Some row"
      "oCodeHash row \<noteq> hashCode H code" "oAttempts row < MaxOTPAttempts"
      "r = Inl (if MaxOTPAttempts \<le> oAttempts row + 1 then ErrCodeAttempts else ErrCodeInvalid)"
      "db' = db\<lparr>otp_codes := update_where (\<lambda>q. oID q = oID row) (miss pgnow (oAttempts row + 1))
         (otp_codes db)\<rparr>"
  | row where "newest (filter (outstanding i p) (otp_codes db)) = Some row"
      "oCodeHash row = hashCode H code" "oAttempts row < MaxOTPAttempts"
      "clk x 0 \<le> oExpiresAt row" "r = Inr ()"
      "db' = db\<lparr>otp_codes := update_where (\<lambda>q. oID q = oID row)
         (\<lambda>q. q\<lparr>oConsumedAt := Some (clk x 1)\<rparr>) (otp_codes db)\<rparr>"
proof (cases "flt x 0 \<or> flt x 1")
  case True
  with assms show thesis
    by (intro that(1) [of "if flt x 0 then ErrDB else ErrCodeInvalid"])
      (auto simp: ConsumeCode_def split: if_splits)
next
  case False
  show thesis
  proof (cases "newest (filter (outstanding i p) (otp_codes db))")
    case None
    with False assms show thesis by (intro that(1) [of ErrCodeInvalid]) (simp_all add: ConsumeCode_def)
  next
    case (Some row)
    note run = assms [unfolded ConsumeCode_def Let_def miss_def [symmetric]]
    consider "oExpiresAt row < clk x 0" | "clk x 0 \<le> oExpiresAt row" "MaxOTPAttempts \<le> oAttempts row"
      | "clk x 0 \<le> oExpiresAt row" "oAttempts row < MaxOTPAttempts" "flt x 2 \<or> flt x 3"
      | "clk x 0 \<le> oExpiresAt row" "oAttempts row < MaxOTPAttempts" "\<not> (flt x 2 \<or> flt x 3)"
      by linarith
    then show thesis
    proof cases
      case 4
      then show thesis
        using False Some run that(2) [OF Some] that(3) [OF Some]
        by (cases "oCodeHash row = hashCode H code"; cases "MaxOTPAttempts \<le> oAttempts row + 1")
          simp_all
    qed (use False Some run that(1) in \<open>auto split: if_splits\<close>)
  qed
qed

lemma PruneCodes_cases:
  assumes "PruneCodes x d db = (n, db')"
  obtains "db' = db"
  | "db' = db\<lparr>otp_codes := delete_where (\<lambda>r. oExpiresAt r < clk x 0 - d) (otp_codes db)\<rparr>"
  using assms by (auto simp: PruneCodes_def Let_def split: if_splits)

end
