(* ===== verification/OTP.thy ===== *)
theory OTP
  imports Codes
begin

text \<open>
  What the one-time codes of \<open>otp.go\<close> promise. Emailed tokens (verification, password reset):
  any sequence of the operations on \<open>otp_codes\<close> redeems a token at most once. Numeric codes:
  only the newest code of an identifier can be redeemed, and it survives exactly
  \<open>MaxOTPAttempts - 1\<close> wrong guesses.
\<close>

section \<open>Emailed tokens\<close>

text \<open>Keys are hash and purpose. A token minted for an email is new; a numeric login code may
  repeat.\<close>

definition otp_key :: "OTPRow \<Rightarrow> string \<times> Purpose" where
  "otp_key r = (oCodeHash r, oPurpose r)"

record otp_state =
  otpKeys :: "(string \<times> Purpose) set"
  otpDB :: DB

inductive otp_step :: "lib \<Rightarrow> otp_state \<Rightarrow> otp_state \<Rightarrow> bool" for H where
  issue: "p = PurposeLoginOTP \<or> (hashCode H code, p) \<notin> otpKeys g \<Longrightarrow>
     IssueCode H x i p code ttl (otpDB g) = (r, db') \<Longrightarrow>
     otp_step H g (g\<lparr>otpKeys := insert (hashCode H code, p) (otpKeys g), otpDB := db'\<rparr>)"
| guess: "ConsumeCode H x pgnow i p code (otpDB g) = (r, db') \<Longrightarrow> otp_step H g (g\<lparr>otpDB := db'\<rparr>)"
| redeem: "ConsumeToken H x p tok (otpDB g) = (q, db') \<Longrightarrow> otp_step H g (g\<lparr>otpDB := db'\<rparr>)"
| prune: "PruneCodes x d (otpDB g) = (n, db') \<Longrightarrow> otp_step H g (g\<lparr>otpDB := db'\<rparr>)"
| other: "otp_codes db' = otp_codes (otpDB g) \<Longrightarrow> otpKeys g \<subseteq> ks \<Longrightarrow>
     otp_step H g \<lparr>otpKeys = ks, otpDB = db'\<rparr>"

definition otp_start :: "otp_state \<Rightarrow> bool" where
  "otp_start g \<longleftrightarrow> otp_codes (otpDB g) = []"

text \<open>Identifiers are unique, keys are known, and a key of an emailed token is on one row.\<close>

definition otp_rows_ok :: "(string \<times> Purpose) set \<Rightarrow> OTPRow list \<Rightarrow> bool" where
  "otp_rows_ok ks t \<longleftrightarrow> distinct (map oID t) \<and> tracked otp_key ks t \<and>
     (\<forall>r \<in> set t. \<forall>q \<in> set t. oPurpose r \<noteq> PurposeLoginOTP \<longrightarrow> otp_key r = otp_key q \<longrightarrow> oID r = oID q)"

definition otp_inv :: "otp_state \<Rightarrow> bool" where
  "otp_inv g \<longleftrightarrow> otp_rows_ok (otpKeys g) (otp_codes (otpDB g))"

definition spent_otp :: "lib \<Rightarrow> Purpose \<Rightarrow> string \<Rightarrow> otp_state \<Rightarrow> bool" where
  "spent_otp H p tok g \<longleftrightarrow> p \<noteq> PurposeLoginOTP \<and>
     spent_rows otp_key (\<lambda>r. oConsumedAt r \<noteq> None) (hashCode H tok, p) (otpKeys g)
       (otp_codes (otpDB g))"

lemma otp_rows_update:
  assumes ok: "otp_rows_ok ks t" and f: "\<And>r. oID (f r) = oID r" "\<And>r. otp_key (f r) = otp_key r"
  shows "otp_rows_ok ks (update_where P f t)"
proof -
  have p: "oPurpose (f r) = oPurpose r" for r using f(2) [of r] by (simp add: otp_key_def)
  have "\<exists>r' \<in> set t. oID r = oID r' \<and> otp_key r = otp_key r' \<and> oPurpose r = oPurpose r'"
    if "r \<in> set (update_where P f t)" for r
    using that f p unfolding mem_update_where by (metis (full_types))
  then have "oID r = oID q" if "r \<in> set (update_where P f t)" "q \<in> set (update_where P f t)"
    "oPurpose r \<noteq> PurposeLoginOTP" "otp_key r = otp_key q" for r q
    using ok that unfolding otp_rows_ok_def by metis
  then show ?thesis
    using ok f unfolding otp_rows_ok_def by (simp add: key_update_where tracked_update)
qed

lemma otp_rows_delete: "otp_rows_ok ks t \<Longrightarrow> otp_rows_ok ks (delete_where P t)"
  unfolding otp_rows_ok_def
  by (simp add: mem_delete_where distinct_delete_where tracked_delete del: set_map)

lemma otp_rows_mono: "otp_rows_ok ks t \<Longrightarrow> ks \<subseteq> ks' \<Longrightarrow> otp_rows_ok ks' t"
  unfolding otp_rows_ok_def by (blast intro: tracked_mono)

lemma otp_rows_insert:
  assumes ok: "otp_rows_ok ks t" and i: "oID r \<notin> set (map oID t)"
    and k: "oPurpose r = PurposeLoginOTP \<or> otp_key r \<notin> ks"
  shows "otp_rows_ok (insert (otp_key r) ks) (t @ [r])"
proof -
  have "otp_key q \<noteq> otp_key r \<or> oPurpose q = PurposeLoginOTP" if "q \<in> set t" for q
    using ok k that by (auto simp: otp_rows_ok_def tracked_def otp_key_def)
  then have "oID a = oID b" if "a \<in> set (t @ [r])" "b \<in> set (t @ [r])"
    "oPurpose a \<noteq> PurposeLoginOTP" "otp_key a = otp_key b" for a b
  proof -
    have "oPurpose a = oPurpose b" using that(4) by (simp add: otp_key_def)
    moreover have "oID a = oID b" if "a \<in> set t" "b \<in> set t"
      using ok that \<open>oPurpose a \<noteq> _\<close> \<open>otp_key a = _\<close> unfolding otp_rows_ok_def by blast
    ultimately show ?thesis
      using that \<open>\<And>q. q \<in> set t \<Longrightarrow> otp_key q \<noteq> otp_key r \<or> oPurpose q = PurposeLoginOTP\<close>
      by (metis Un_iff empty_iff list.set(1) set_ConsD set_append)
  qed
  moreover have "distinct (map oID (t @ [r]))" using ok i unfolding otp_rows_ok_def by simp
  moreover have "tracked otp_key (insert (otp_key r) ks) (t @ [r])"
    using ok unfolding otp_rows_ok_def by (blast intro: tracked_insert)
  ultimately show ?thesis unfolding otp_rows_ok_def by blast
qed

lemma burn_keeps: "otp_rows_ok ks t \<Longrightarrow> otp_rows_ok ks (burn i p now t)"
  unfolding burn_def by (rule otp_rows_update) (simp_all add: otp_key_def)

lemma otp_key_issued [simp]: "otp_key (issued_row H x i p code ttl) = (hashCode H code, p)"
  by (simp add: otp_key_def issued_row_def)

lemma otp_step_inv: "otp_step H g g' \<Longrightarrow> otp_inv g \<Longrightarrow> otp_inv g'"
proof (induction rule: otp_step.induct)
  case (issue p code g x i ttl r db')
  from issue(2) show ?case
  proof (cases rule: IssueCode_cases)
    case 1
    with issue(3) show ?thesis by (auto simp: otp_inv_def intro: otp_rows_mono)
  next
    case 2
    let ?row = "issued_row H x i p code ttl" and ?t = "burn i p (clk x 0) (otp_codes (otpDB g))"
    have "otp_rows_ok (otpKeys g) ?t" using issue(3) by (simp add: otp_inv_def burn_keeps)
    moreover have "oID ?row \<notin> set (map oID ?t)"
      using 2(2) unfolding otp_ok_def burn_def by (simp add: key_update_where del: set_map)
    moreover have "oPurpose ?row = PurposeLoginOTP \<or> otp_key ?row \<notin> otpKeys g"
      using issue(1) by (simp add: issued_row_def otp_key_def)
    ultimately have "otp_rows_ok (insert (otp_key ?row) (otpKeys g)) (?t @ [?row])"
      by (rule otp_rows_insert)
    with 2 show ?thesis by (simp add: otp_inv_def)
  qed
next
  case (guess x pgnow i p code g r db')
  then show ?case unfolding otp_inv_def
    by (elim ConsumeCode_cases) (auto intro!: otp_rows_update simp: otp_key_def)
next
  case (redeem x p tok g q db')
  then show ?case unfolding otp_inv_def
    by (elim ConsumeToken_cases) (auto intro!: otp_rows_update simp: otp_key_def)
next
  case (prune x d g n db')
  then show ?case unfolding otp_inv_def by (elim PruneCodes_cases) (auto intro: otp_rows_delete)
qed (auto simp: otp_inv_def intro: otp_rows_mono)

lemma spent_otp_step: "otp_step H g g' \<Longrightarrow> spent_otp H p tok g \<Longrightarrow> spent_otp H p tok g'"
proof (induction rule: otp_step.induct)
  case (issue p' code g x i ttl r db')
  from issue(2) show ?case
  proof (cases rule: IssueCode_cases)
    case 1
    with issue(3) show ?thesis by (auto simp: spent_otp_def intro: spent_mono)
  next
    case 2
    let ?row = "issued_row H x i p' code ttl"
    have s: "spent_rows otp_key (\<lambda>r. oConsumedAt r \<noteq> None) (hashCode H tok, p) (otpKeys g)
        (otp_codes (otpDB g))" and p: "p \<noteq> PurposeLoginOTP"
      using issue(3) unfolding spent_otp_def by blast+
    have "spent_rows otp_key (\<lambda>r. oConsumedAt r \<noteq> None) (hashCode H tok, p) (otpKeys g)
        (burn i p' (clk x 0) (otp_codes (otpDB g)))"
      unfolding burn_def by (rule spent_update [OF s]) (simp_all add: otp_key_def)
    moreover have "otp_key ?row \<noteq> (hashCode H tok, p)"
      using issue(1) s p by (auto simp: spent_rows_def)
    ultimately have "spent_rows otp_key (\<lambda>r. oConsumedAt r \<noteq> None) (hashCode H tok, p)
        (insert (hashCode H code, p') (otpKeys g))
        (burn i p' (clk x 0) (otp_codes (otpDB g)) @ [?row])"
      by (rule spent_other) blast
    with p 2 show ?thesis by (simp add: spent_otp_def)
  qed
next
  case (guess x pgnow i p code g r db')
  then show ?case unfolding spent_otp_def
    by (elim ConsumeCode_cases) (auto intro!: spent_update simp: otp_key_def)
next
  case (redeem x p tok g q db')
  then show ?case unfolding spent_otp_def
    by (elim ConsumeToken_cases) (auto intro!: spent_update simp: otp_key_def)
next
  case (prune x d g n db')
  then show ?case unfolding spent_otp_def
    by (elim PruneCodes_cases) (auto intro: spent_delete)
qed (auto simp: spent_otp_def intro: spent_mono)

definition redeem_token :: "lib \<Rightarrow> Purpose \<Rightarrow> opctx \<Rightarrow> string \<Rightarrow> otp_state \<Rightarrow> store_error + string" where
  "redeem_token H p x tok g = fst (ConsumeToken H x p tok (otpDB g))"

definition after_token :: "lib \<Rightarrow> Purpose \<Rightarrow> opctx \<Rightarrow> string \<Rightarrow> otp_state \<Rightarrow> otp_state" where
  "after_token H p x tok g = g\<lparr>otpDB := snd (ConsumeToken H x p tok (otpDB g))\<rparr>"

lemma spent_otp_refused: "spent_otp H p k g \<Longrightarrow> \<exists>e. redeem_token H p x k g = Inl e"
  by (cases "ConsumeToken H x p k (otpDB g)")
    (auto simp: redeem_token_def spent_otp_def spent_rows_def otp_key_def elim!: ConsumeToken_cases)

lemma redeem_token_spends:
  assumes inv: "otp_inv g" and p: "p \<noteq> PurposeLoginOTP" and run: "redeem_token H p x k g = Inr i"
  shows "spent_otp H p k (after_token H p x k g)"
proof -
  obtain db' where db': "ConsumeToken H x p k (otpDB g) = (Inr i, db')"
    using run by (cases "ConsumeToken H x p k (otpDB g)") (simp add: redeem_token_def)
  then show ?thesis
  proof (cases rule: ConsumeToken_cases)
    case (2 row)
    then have key: "otp_key row = (hashCode H k, p)" by (simp add: otp_key_def)
    have "\<forall>r \<in> set (otp_codes (otpDB g)). oID r \<noteq> oID row \<longrightarrow> otp_key r \<noteq> (hashCode H k, p)"
      using inv 2(2) p unfolding otp_inv_def otp_rows_ok_def
      by (metis key otp_key_def prod.inject)
    moreover have "(hashCode H k, p) \<in> otpKeys g"
      using inv 2(2) key unfolding otp_inv_def otp_rows_ok_def tracked_def by force
    ultimately have "spent_rows otp_key (\<lambda>r. oConsumedAt r \<noteq> None) (hashCode H k, p) (otpKeys g)
        (update_where (\<lambda>r. oID r = oID row) (\<lambda>r. r\<lparr>oConsumedAt := Some (clk x 1)\<rparr>) (otp_codes (otpDB g)))"
      unfolding spent_rows_def ball_update_where by simp
    with p 2(7) show ?thesis by (simp add: spent_otp_def after_token_def db')
  qed simp
qed

interpretation email_tokens:
  one_time otp_start "otp_step H" otp_inv "spent_otp H PurposeEmailVerify"
    "redeem_token H PurposeEmailVerify" "after_token H PurposeEmailVerify" "\<lambda>_ _. True" for H
proof
  show "otp_inv s" if "otp_start s" for s
    using that by (simp add: otp_start_def otp_inv_def otp_rows_ok_def)
  show "otp_step H s (after_token H PurposeEmailVerify x k s)" for x k s
    unfolding after_token_def by (rule otp_step.redeem [OF prod.collapse [symmetric]])
qed (blast intro: otp_step_inv spent_otp_step redeem_token_spends spent_otp_refused)+

interpretation reset_tokens:
  one_time otp_start "otp_step H" otp_inv "spent_otp H PurposePasswordReset"
    "redeem_token H PurposePasswordReset" "after_token H PurposePasswordReset" "\<lambda>_ _. True" for H
proof
  show "otp_step H s (after_token H PurposePasswordReset x k s)" for x k s
    unfolding after_token_def by (rule otp_step.redeem [OF prod.collapse [symmetric]])
qed (blast intro: spent_otp_step redeem_token_spends spent_otp_refused)+

section \<open>Numeric codes: the guess budget\<close>

text \<open>The outstanding row of an identifier, and what a guess makes of it.\<close>

definition active :: "string \<Rightarrow> Purpose \<Rightarrow> DB \<Rightarrow> OTPRow list" where
  "active i p db = filter (outstanding i p) (otp_codes db)"

lemma filter_update_one:
  assumes "distinct (map oID t)" and "filter Q t = [row]" and "\<And>r. oID (f r) = oID r"
  shows "filter Q (update_where (\<lambda>r. oID r = oID row) f t) = filter Q [f row]"
  using assms(1,2)
proof (induction t)
  case (Cons r t)
  show ?case
  proof (cases "Q r")
    case True
    with Cons.prems have t: "r = row" "filter Q t = []" "oID row \<notin> set (map oID t)" by auto
    then have "update_where (\<lambda>r. oID r = oID row) f t = t"
      by (intro update_where_none) (metis image_eqI set_map)
    with t show ?thesis by simp
  next
    case False
    with Cons.prems have "row \<in> set t" "filter Q t = [row]" by (auto simp: filter_eq_Cons_iff)
    moreover from this Cons.prems have "oID r \<noteq> oID row" by auto
    ultimately show ?thesis using Cons False by simp
  qed
qed simp

lemma IssueCode_active:
  assumes "IssueCode H x i p code ttl db = (Inr (), db')"
  shows "active i p db' = [issued_row H x i p code ttl]"
  using assms
proof (cases rule: IssueCode_cases)
  case 2
  have "filter (outstanding i p) (burn i p (clk x 0) t) = []" for t
    by (induction t) (auto simp: burn_def outstanding_def)
  with 2 show ?thesis by (simp add: active_def outstanding_def issued_row_def)
qed simp

text \<open>A context in which the statements of \<open>ConsumeCode\<close> succeed, before the code's expiry.\<close>

definition in_time :: "opctx \<Rightarrow> instant \<Rightarrow> bool" where
  "in_time x t \<longleftrightarrow> \<not> flt x 0 \<and> \<not> flt x 1 \<and> \<not> flt x 2 \<and> \<not> flt x 3 \<and> clk x 0 \<le> t"

lemma ConsumeCode_miss:
  assumes d: "distinct (map oID (otp_codes db))" and a: "active i p db = [row]"
    and n: "oAttempts row < MaxOTPAttempts" and x: "in_time x (oExpiresAt row)"
    and wrong: "hashCode H g \<noteq> oCodeHash row"
    and run: "ConsumeCode H x pgnow i p g db = (r, db')"
  shows "isl r" "distinct (map oID (otp_codes db'))"
    "active i p db' = (if MaxOTPAttempts \<le> oAttempts row + 1 then [] else [row\<lparr>oAttempts := oAttempts row + 1\<rparr>])"
proof -
  let ?n = "oAttempts row + 1"
  have nw: "newest (filter (outstanding i p) (otp_codes db)) = Some row"
    using a by (simp add: active_def)
  have out: "outstanding i p row"
    using a filter_eq_ConsD [of "outstanding i p" "otp_codes db" row "[]"] by (auto simp: active_def)
  have eq: "r = Inl (if MaxOTPAttempts \<le> ?n then ErrCodeAttempts else ErrCodeInvalid)"
    "db' = db\<lparr>otp_codes := update_where (\<lambda>q. oID q = oID row) (miss pgnow ?n) (otp_codes db)\<rparr>"
    using run [unfolded ConsumeCode_def Let_def nw miss_def [symmetric]] n wrong x
    by (auto simp: in_time_def not_le not_less split: if_splits)
  show "isl r" using eq by simp
  show "distinct (map oID (otp_codes db'))" using d eq by (simp add: key_update_where del: set_map)
  show "active i p db' = (if MaxOTPAttempts \<le> ?n then [] else [row\<lparr>oAttempts := ?n\<rparr>])"
    using filter_update_one [OF d a [unfolded active_def], of "miss pgnow ?n"] out
    by (simp add: eq active_def) (auto simp: outstanding_def miss_def)
qed

fun guesses :: "lib \<Rightarrow> string \<Rightarrow> Purpose \<Rightarrow> (opctx \<times> instant \<times> string) list \<Rightarrow> DB \<Rightarrow> DB" where
  "guesses H i p [] db = db"
| "guesses H i p ((x, pgnow, g) # gs) db =
     guesses H i p gs (snd (ConsumeCode H x pgnow i p g db))"

lemma guesses_active:
  assumes "distinct (map oID (otp_codes db))" and "active i p db = [row]"
    and "0 \<le> oAttempts row" "oAttempts row < MaxOTPAttempts"
    and "\<forall>(x, t, g) \<in> set gs. in_time x (oExpiresAt row) \<and> hashCode H g \<noteq> oCodeHash row"
  shows "distinct (map oID (otp_codes (guesses H i p gs db))) \<and>
    active i p (guesses H i p gs db) =
      (if oAttempts row + int (length gs) < MaxOTPAttempts
       then [row\<lparr>oAttempts := oAttempts row + int (length gs)\<rparr>] else [])"
  using assms
proof (induction gs arbitrary: db row)
  case (Cons a gs)
  obtain x t g where a: "a = (x, t, g)" by (cases a)
  obtain r db' where run: "ConsumeCode H x t i p g db = (r, db')" by fastforce
  have x: "in_time x (oExpiresAt row)" and g: "hashCode H g \<noteq> oCodeHash row"
    using Cons.prems(5) a by auto
  note step = ConsumeCode_miss [OF Cons.prems(1,2,4) x g run]
  show ?case
  proof (cases "MaxOTPAttempts \<le> oAttempts row + 1")
    case True
    have dead: "active i p (guesses H i p hs d) = [] \<and> distinct (map oID (otp_codes (guesses H i p hs d)))"
      if "active i p d = []" "distinct (map oID (otp_codes d))" for hs d
      using that
    proof (induction hs arbitrary: d)
      case (Cons b hs)
      obtain y u k where b: "b = (y, u, k)" by (cases b)
      have "snd (ConsumeCode H y u i p k d) = d"
        using Cons.prems(1) by (auto simp: ConsumeCode_def active_def)
      with Cons b show ?case by simp
    qed simp
    from step True dead [of db' gs] Cons.prems(3) run a show ?thesis by simp
  next
    case False
    let ?row = "row\<lparr>oAttempts := oAttempts row + 1\<rparr>"
    from False step(3) have act: "active i p db' = [?row]" by simp
    have gs: "\<forall>(x, t, g) \<in> set gs. in_time x (oExpiresAt ?row) \<and> hashCode H g \<noteq> oCodeHash ?row"
      using Cons.prems(5) by simp
    have "0 \<le> oAttempts ?row" "oAttempts ?row < MaxOTPAttempts" using False Cons.prems(3) by simp_all
    from Cons.IH [OF step(2) act this gs] show ?thesis
      using run a by (simp add: algebra_simps)
  qed
qed simp

lemma dead_guesses:
  "active i p db = [] \<Longrightarrow> guesses H i p hs db = db"
proof (induction hs)
  case (Cons b hs)
  obtain y u k where b: "b = (y, u, k)" by (cases b)
  have "snd (ConsumeCode H y u i p k db) = db"
    using Cons.prems by (auto simp: ConsumeCode_def active_def)
  with Cons b show ?case by simp
qed simp

lemma dead_refused: "active i p db = [] \<Longrightarrow> fst (ConsumeCode H y u i p k db) \<noteq> Inr ()"
  by (auto simp: ConsumeCode_def active_def)

lemma ConsumeCode_hit:
  assumes "distinct (map oID (otp_codes db))" and a: "active i p db = [row]"
    and n: "oAttempts row < MaxOTPAttempts" and x: "in_time x (oExpiresAt row)"
    and right: "hashCode H g = oCodeHash row"
  shows "fst (ConsumeCode H x pgnow i p g db) = Inr ()"
    "active i p (snd (ConsumeCode H x pgnow i p g db)) = []"
proof -
  have nw: "newest (filter (outstanding i p) (otp_codes db)) = Some row"
    using a by (simp add: active_def)
  have eq: "ConsumeCode H x pgnow i p g db = (Inr (), db\<lparr>otp_codes :=
      update_where (\<lambda>r. oID r = oID row) (\<lambda>r. r\<lparr>oConsumedAt := Some (clk x 1)\<rparr>) (otp_codes db)\<rparr>)"
    using x n right by (simp add: ConsumeCode_def nw in_time_def)
  show "fst (ConsumeCode H x pgnow i p g db) = Inr ()" by (simp add: eq)
  show "active i p (snd (ConsumeCode H x pgnow i p g db)) = []"
    using filter_update_one [OF assms(1) a [unfolded active_def], of "\<lambda>r. r\<lparr>oConsumedAt := Some (clk x 1)\<rparr>"]
    by (simp add: eq active_def outstanding_def)
qed

lemma IssueCode_distinct:
  assumes "IssueCode H x i p code ttl db = (Inr (), db')" and "distinct (map oID (otp_codes db))"
  shows "distinct (map oID (otp_codes db'))"
  using assms
  by (cases rule: IssueCode_cases) (auto simp: burn_def key_update_where otp_ok_def simp del: set_map)

section \<open>Properties\<close>

text \<open>An emailed token, for verification or for a password reset, is accepted at most once: once
  it was redeemed every later attempt with it fails, whatever operations on codes ran in between.\<close>

theorem emailed_token_accepted_once:
  assumes "otp_start g0" and "rtranclp (otp_step H) g0 g" and "p \<noteq> PurposeLoginOTP"
    and "ConsumeToken H x p tk (otpDB g) = (Inr k, db')"
    and "rtranclp (otp_step H) (g\<lparr>otpDB := db'\<rparr>) g'"
  shows "\<exists>err. fst (ConsumeToken H y p tk (otpDB g')) = Inl err"
proof (cases p)
  case PurposeEmailVerify
  then show ?thesis
    using email_tokens.at_most_once [of g H x tk k g' y] email_tokens.reach_inv [OF assms(1,2)] assms(4,5)
    by (simp add: redeem_token_def after_token_def)
next
  case PurposePasswordReset
  then show ?thesis
    using reset_tokens.at_most_once [of g H x tk k g' y] email_tokens.reach_inv [OF assms(1,2)] assms(4,5)
    by (simp add: redeem_token_def after_token_def)
qed (use assms(3) in simp)

definition issued_db :: "Purpose \<Rightarrow> DB" where
  "issued_db p = empty_db\<lparr>otp_codes := [issued_row plain (calm 10 ''K'' CHR ''a'') ''A'' p ''tok'' 100]\<rparr>"

lemma issue_run: "IssueCode plain (calm 10 ''K'' CHR ''a'') ''A'' p ''tok'' 100 empty_db = (Inr (), issued_db p)"
  by (simp add: IssueCode_def issued_db_def issued_row_def empty_db_def otp_ok_def)

theorem emailed_token_accepted_once_witness:
  "\<exists>err. fst (ConsumeToken plain (calm 30 [] CHR ''c'') PurposePasswordReset ''tok''
     (snd (ConsumeToken plain (calm 20 [] CHR ''b'') PurposePasswordReset ''tok'' (issued_db PurposePasswordReset))))
     = Inl err"
proof -
  let ?p = PurposePasswordReset
  define g0 where "g0 = \<lparr>otpKeys = {}, otpDB = empty_db\<rparr>"
  let ?g = "g0\<lparr>otpKeys := insert (hashCode plain ''tok'', ?p) (otpKeys g0), otpDB := issued_db ?p\<rparr>"
  let ?db' = "snd (ConsumeToken plain (calm 20 [] CHR ''b'') ?p ''tok'' (issued_db ?p))"
  have start: "otp_start g0" by (simp add: g0_def otp_start_def empty_db_def)
  have "otp_step plain g0 ?g"
    by (rule otp_step.issue [where x = "calm 10 ''K'' CHR ''a''" and i = "''A''" and ttl = 100])
      (use issue_run [of ?p] in \<open>simp_all add: g0_def\<close>)
  then have reach: "rtranclp (otp_step plain) g0 ?g" by (rule r_into_rtranclp)
  have run: "ConsumeToken plain (calm 20 [] CHR ''b'') ?p ''tok'' (otpDB ?g) = (Inr ''A'', ?db')"
    by (simp add: ConsumeToken_def issued_db_def issued_row_def)
  show ?thesis
    using emailed_token_accepted_once [OF start reach _ run rtranclp.rtrancl_refl] by simp
qed

text \<open>C18: after a code is issued, wrong guesses and then the right one: the right one is accepted
  exactly when fewer than \<open>MaxOTPAttempts\<close> wrong ones came before it, and after it nothing is
  accepted until another code is issued.\<close>

theorem guess_budget:
  assumes "distinct (map oID (otp_codes db))" and "IssueCode H z i p code ttl db = (Inr (), db1)"
    and "\<forall>(x, t, g) \<in> set gs. in_time x (clk z 0 + ttl) \<and> hashCode H g \<noteq> hashCode H code"
    and "in_time x (clk z 0 + ttl)"
  shows "fst (ConsumeCode H x t i p code (guesses H i p gs db1)) =
      (if int (length gs) < MaxOTPAttempts then Inr () else Inl ErrCodeInvalid) \<and>
    fst (ConsumeCode H y u i p k (guesses H i p hs
      (snd (ConsumeCode H x t i p code (guesses H i p gs db1))))) \<noteq> Inr ()"
proof -
  let ?row = "issued_row H z i p code ttl"
  let ?db2 = "guesses H i p gs db1"
  have act: "active i p db1 = [?row]" by (rule IssueCode_active [OF assms(2)])
  have d: "distinct (map oID (otp_codes db1))" by (rule IssueCode_distinct [OF assms(2,1)])
  have row: "oAttempts ?row = 0" "oExpiresAt ?row = clk z 0 + ttl" "oCodeHash ?row = hashCode H code"
    by (simp_all add: issued_row_def)
  have st: "distinct (map oID (otp_codes ?db2))" "active i p ?db2 =
      (if int (length gs) < MaxOTPAttempts then [?row\<lparr>oAttempts := int (length gs)\<rparr>] else [])"
    using guesses_active [OF d act, of gs] assms(3) row by (simp_all add: MaxOTPAttempts_def)
  show ?thesis
  proof (cases "int (length gs) < MaxOTPAttempts")
    case True
    with st have a: "active i p ?db2 = [?row\<lparr>oAttempts := int (length gs)\<rparr>]" by simp
    note hit = ConsumeCode_hit [OF st(1) a, of x H code t]
    show ?thesis
      using hit True assms(4) row dead_guesses [of i p "snd (ConsumeCode H x t i p code ?db2)" H hs]
      by (simp add: dead_refused)
  next
    case False
    with st have a: "active i p ?db2 = []" by simp
    moreover have "ConsumeCode H x t i p code ?db2 = (Inl ErrCodeInvalid, ?db2)"
      using a assms(4) by (simp add: ConsumeCode_def active_def in_time_def)
    ultimately show ?thesis using False by (simp add: dead_guesses dead_refused)
  qed
qed

theorem guess_budget_witness:
  "fst (ConsumeCode plain (calm 20 [] CHR ''b'') 20 ''A'' PurposeLoginOTP ''tok'' (guesses plain ''A'' PurposeLoginOTP
     (replicate 4 (calm 15 [] CHR ''b'', 15, ''bad'')) (issued_db PurposeLoginOTP))) = Inr () \<and>
   fst (ConsumeCode plain (calm 20 [] CHR ''b'') 20 ''A'' PurposeLoginOTP ''tok'' (guesses plain ''A'' PurposeLoginOTP
     (replicate 5 (calm 15 [] CHR ''b'', 15, ''bad'')) (issued_db PurposeLoginOTP))) = Inl ErrCodeInvalid"
proof -
  have "distinct (map oID (otp_codes empty_db))" by (simp add: empty_db_def)
  note b = guess_budget [OF this issue_run, of "replicate n (calm 15 [] CHR ''b'', 15, ''bad'')"
      "calm 20 [] CHR ''b''" 20 for n]
  show ?thesis using b [of 4] b [of 5] by (simp add: in_time_def hashCode_def MaxOTPAttempts_def)
qed

text \<open>Issuing a code makes it the only one: until another is issued, nothing but that code can be
  redeemed for the identifier, and only before it expires.\<close>

theorem only_newest_code:
  assumes "IssueCode H z i p code ttl db = (Inr (), db1)" and "ConsumeCode H x t i p k db1 = (Inr (), db2)"
  shows "hashCode H k = hashCode H code \<and> clk x 0 \<le> clk z 0 + ttl"
proof -
  have "filter (outstanding i p) (otp_codes db1) = [issued_row H z i p code ttl]"
    using IssueCode_active [OF assms(1)] by (simp add: active_def)
  with assms(2) show ?thesis
    by (cases rule: ConsumeCode_cases) (auto simp: issued_row_def)
qed

theorem only_newest_code_witness:
  "hashCode plain ''tok'' = ''tok'' \<and> (20::int) \<le> 10 + 100"
proof -
  obtain db2 where "ConsumeCode plain (calm 20 [] CHR ''b'') 20 ''A'' PurposeLoginOTP ''tok''
      (issued_db PurposeLoginOTP) = (Inr (), db2)"
    by (simp add: ConsumeCode_def issued_db_def issued_row_def outstanding_def MaxOTPAttempts_def)
  from only_newest_code [OF issue_run this] show ?thesis by (simp add: hashCode_def)
qed

text \<open>A numeric code of \<open>n\<close> digits is \<open>n\<close> decimal digits, leading zeros kept.\<close>

theorem numeric_code_shape:
  assumes "NewNumericCode x n = Inr code" and "0 < n"
  shows "length code = n \<and> list_all is_digit code"
  using NewNumericCode_shape [OF assms] by blast

theorem numeric_code_shape_witness:
  "NewNumericCode (calm 0 [] CHR 0x00) 6 = Inr ''000000'' \<and> list_all is_digit ''000000''"
proof -
  have "foldl (\<lambda>a c. a * 256 + byte c) 0 (replicate m CHR 0x00) = 0" for m
    by (induction m) simp_all
  then have "NewNumericCode (calm 0 [] CHR 0x00) 6 = Inr (zero_pad 6 (digits 0))"
    by (simp add: NewNumericCode_def rand_int_def rand_read_def calm_def map_replicate_const)
  moreover have "zero_pad 6 (digits 0) = ''000000''"
    by (simp add: zero_pad_eq digits.simps eval_nat_numeral)
  ultimately have run: "NewNumericCode (calm 0 [] CHR 0x00) 6 = Inr ''000000''" by simp
  show ?thesis using numeric_code_shape [OF run] run by simp
qed

end
