(* ===== verification/RateLimit.thy ===== *)
theory RateLimit
  imports Store
begin

text \<open>
  \<open>internal/store/ratelimit.go\<close>: fixed-window counters. \<open>count\<close> is a Postgres \<open>int\<close>: the
  statement fails when it would pass \<open>2^31 - 1\<close>.
\<close>

definition max_int4 :: int where
  "max_int4 = 2 ^ 31 - 1"

definition in_window :: "string \<Rightarrow> instant \<Rightarrow> RateRow \<Rightarrow> bool" where
  "in_window bucket start r \<longleftrightarrow> rBucket r = bucket \<and> rWindowStart r = start"

text \<open>\<open>INSERT ... ON CONFLICT DO UPDATE SET count = count + 1 RETURNING count\<close>.\<close>

definition Allow ::
  "opctx \<Rightarrow> string \<Rightarrow> int \<Rightarrow> duration \<Rightarrow> DB \<Rightarrow> (store_error + bool) \<times> DB" where
  "Allow x bucket limit window db =
     (let start = Truncate (clk x 0) window in
      if flt x 0 then (Inl ErrDB, db)
      else case select_one (in_window bucket start) (rate_limits db) of
        None \<Rightarrow>
          (Inr (1 \<le> limit), db\<lparr>rate_limits := rate_limits db @
             [\<lparr>rBucket = bucket, rWindowStart = start, rCount = 1\<rparr>]\<rparr>)
      | Some r \<Rightarrow>
          if rCount r = max_int4 then (Inl ErrDB, db)
          else (Inr (rCount r + 1 \<le> limit), db\<lparr>rate_limits :=
                 update_where (in_window bucket start) (\<lambda>q. q\<lparr>rCount := rCount q + 1\<rparr>)
                   (rate_limits db)\<rparr>))"

definition PruneRateLimits :: "opctx \<Rightarrow> duration \<Rightarrow> DB \<Rightarrow> (store_error + nat) \<times> DB" where
  "PruneRateLimits x olderThan db =
     (if flt x 0 then (Inl ErrDB, db)
      else let gone = (\<lambda>r. rWindowStart r < clk x 0 - olderThan)
           in (Inr (length (filter gone (rate_limits db))),
               db\<lparr>rate_limits := delete_where gone (rate_limits db)\<rparr>))"

section \<open>Counting within a window\<close>

text \<open>The count a bucket has reached in the window that starts at \<open>start\<close>.\<close>

definition tally :: "string \<Rightarrow> instant \<Rightarrow> DB \<Rightarrow> int" where
  "tally b start db =
     (case select_one (in_window b start) (rate_limits db) of None \<Rightarrow> 0 | Some r \<Rightarrow> rCount r)"

lemma select_one_bump:
  "select_one (in_window b s) (update_where (in_window b' s') (\<lambda>q. q\<lparr>rCount := rCount q + 1\<rparr>) t) =
     map_option (\<lambda>q. if b = b' \<and> s = s' then q\<lparr>rCount := rCount q + 1\<rparr> else q)
       (select_one (in_window b s) t)"
  by (induction t) (auto simp: in_window_def)

lemma select_one_keep:
  "(\<And>r. in_window b s r \<Longrightarrow> \<not> P r) \<Longrightarrow>
   select_one (in_window b s) (delete_where P t) = select_one (in_window b s) t"
  by (induction t) (auto simp: delete_where_def)

lemma Allow_tally:
  assumes "\<not> flt x 0" and "tally b (Truncate (clk x 0) w) db < max_int4"
  shows "fst (Allow x b limit w db) = Inr (tally b (Truncate (clk x 0) w) db + 1 \<le> limit)"
    and "tally b (Truncate (clk x 0) w) (snd (Allow x b limit w db)) =
      tally b (Truncate (clk x 0) w) db + 1"
  using assms
  by (auto simp: Allow_def Let_def tally_def select_one_bump select_one_append in_window_def
      split: option.splits)

lemma Allow_elsewhere:
  assumes "(b', Truncate (clk x 0) w) \<noteq> (b, start)"
  shows "tally b start (snd (Allow x b' limit w db)) = tally b start db"
  using assms
  by (auto simp: Allow_def Let_def tally_def select_one_bump select_one_append in_window_def
      split: option.splits)

lemma Prune_tally:
  assumes "clk x 0 - d \<le> start"
  shows "tally b start (snd (PruneRateLimits x d db)) = tally b start db"
proof -
  have "select_one (in_window b start) (delete_where (\<lambda>r. rWindowStart r < clk x 0 - d) t) =
      select_one (in_window b start) t" for t
    using assms by (intro select_one_keep) (auto simp: in_window_def)
  then show ?thesis by (simp add: PruneRateLimits_def Let_def tally_def)
qed

text \<open>
  What happens to the counters while one bucket is watched: a call for it, a call for another
  bucket, a pruning. The run collects the answers to the watched calls.
\<close>

datatype rate_event =
    Hit opctx
  | Elsewhere opctx string int duration
  | Prune opctx duration

fun rate_step :: "string \<Rightarrow> int \<Rightarrow> duration \<Rightarrow> rate_event \<Rightarrow> DB \<Rightarrow> DB" where
  "rate_step b limit w (Hit x) db = snd (Allow x b limit w db)"
| "rate_step b limit w (Elsewhere x b' l' w') db = snd (Allow x b' l' w' db)"
| "rate_step b limit w (Prune x d) db = snd (PruneRateLimits x d db)"

fun answers :: "string \<Rightarrow> int \<Rightarrow> duration \<Rightarrow> rate_event list \<Rightarrow> DB \<Rightarrow> (store_error + bool) list" where
  "answers b limit w [] db = []"
| "answers b limit w (e # es) db =
     (case e of Hit x \<Rightarrow> [fst (Allow x b limit w db)] | _ \<Rightarrow> [])
       @ answers b limit w es (rate_step b limit w e db)"

fun hits :: "rate_event list \<Rightarrow> nat" where
  "hits [] = 0"
| "hits (Hit x # es) = Suc (hits es)"
| "hits (_ # es) = hits es"

text \<open>All watched calls fall in the window of \<open>start\<close>, other calls name other buckets, and a
  pruning spares that window.\<close>

fun within :: "string \<Rightarrow> duration \<Rightarrow> instant \<Rightarrow> rate_event \<Rightarrow> bool" where
  "within b w start (Hit x) = (\<not> flt x 0 \<and> Truncate (clk x 0) w = start)"
| "within b w start (Elsewhere x b' l' w') = (b' \<noteq> b)"
| "within b w start (Prune x d) = (clk x 0 - d \<le> start)"

lemma answers_eq:
  assumes "list_all (within b w start) es" and "tally b start db + int (hits es) \<le> max_int4"
  shows "answers b limit w es db =
    map (\<lambda>k. Inr (tally b start db + 1 + int k \<le> limit)) [0..<hits es]"
  using assms
proof (induction es arbitrary: db)
  case (Cons e es)
  show ?case
  proof (cases e)
    case (Hit x)
    let ?db' = "snd (Allow x b limit w db)"
    have a: "fst (Allow x b limit w db) = Inr (tally b start db + 1 \<le> limit)"
      "tally b start ?db' = tally b start db + 1"
      using Cons.prems Hit Allow_tally [of x b w db limit] by auto
    have "answers b limit w es ?db' =
        map (\<lambda>k. Inr (tally b start db + 1 + int (Suc k) \<le> limit)) [0..<hits es]"
      using Cons.IH [of ?db'] Cons.prems Hit a(2) by (simp add: algebra_simps)
    then show ?thesis
      using Hit a(1) by (simp add: upt_conv_Cons map_Suc_upt [symmetric] comp_def del: upt_Suc map_Suc_upt)
  next
    case (Elsewhere x b' l' w')
    then have "tally b start (snd (Allow x b' l' w' db)) = tally b start db"
      using Cons.prems by (intro Allow_elsewhere) simp
    with Elsewhere Cons show ?thesis by simp
  next
    case (Prune x d)
    then have "tally b start (snd (PruneRateLimits x d db)) = tally b start db"
      using Cons.prems by (intro Prune_tally) simp
    with Prune Cons show ?thesis by simp
  qed
qed simp

section \<open>Properties\<close>

text \<open>C20: in one window a bucket admits exactly its first \<open>limit\<close> calls: whatever other buckets do and
  however often old windows are pruned, the first \<open>limit\<close> calls are answered yes, the rest no.\<close>

theorem window_admits_exactly_limit:
  assumes "list_all (within b w start) es" and "tally b start db = 0" and "int (hits es) \<le> max_int4"
  shows "answers b limit w es db = map (\<lambda>k. Inr (int k < limit)) [0..<hits es]"
proof -
  have "1 + int k \<le> limit \<longleftrightarrow> int k < limit" for k by linarith
  then show ?thesis using answers_eq [OF assms(1), of db limit] assms(2,3) by simp
qed

theorem window_admits_exactly_limit_witness:
  "answers ''login'' 2 minute [Hit (calm 5 [] CHR ''a''), Elsewhere (calm 5 [] CHR ''a'') ''x'' 1 minute,
     Hit (calm 6 [] CHR ''a''), Prune (calm 7 [] CHR ''a'') hour, Hit (calm 8 [] CHR ''a'')] empty_db
   = [Inr True, Inr True, Inr False]"
proof -
  let ?es = "[Hit (calm 5 [] CHR ''a''), Elsewhere (calm 5 [] CHR ''a'') ''x'' 1 minute,
     Hit (calm 6 [] CHR ''a''), Prune (calm 7 [] CHR ''a'') hour, Hit (calm 8 [] CHR ''a'')]"
  have "list_all (within ''login'' minute 0) ?es" by (simp add: Truncate_def)
  moreover have "tally ''login'' 0 empty_db = 0" by (simp add: tally_def empty_db_def)
  ultimately show ?thesis
    using window_admits_exactly_limit [of "''login''" minute 0 ?es empty_db 2]
    by (simp add: max_int4_def upt_rec)
qed

text \<open>The limiter fails closed: when the statement fails, or the counter cannot grow, the answer is
  an error and never a yes, and nothing changes.\<close>

theorem limiter_fails_closed:
  assumes "flt x 0 \<or> tally b (Truncate (clk x 0) w) db = max_int4"
  shows "Allow x b limit w db = (Inl ErrDB, db)"
  using assms by (auto simp: Allow_def Let_def tally_def max_int4_def split: option.splits)

theorem limiter_fails_closed_witness:
  "Allow ((calm 5 [] CHR ''a'')\<lparr>flt := (\<lambda>_. True)\<rparr>) ''login'' 2 minute empty_db = (Inl ErrDB, empty_db)"
  by (rule limiter_fails_closed) simp

end
