(* ===== verification/Flows.thy ===== *)
theory Flows
  imports Store Machine
begin

text \<open>
  \<open>internal/store/oauth.go\<close>: the two single-use secrets of the OAuth handoff, the state of a
  started round trip and the authorization code handed to the app.
\<close>

definition OAuthFlowTTL :: duration where
  "OAuthFlowTTL = 10 * minute"

record OAuthFlow =
  flProvider :: string
  flClientID :: string
  flRedirectURI :: string
  flAppState :: string
  flCodeVerifier :: string
  flLinkUserID :: "string option"

definition CreateOAuthFlow ::
  "lib \<Rightarrow> opctx \<Rightarrow> string \<Rightarrow> OAuthFlow \<Rightarrow> DB \<Rightarrow> (store_error + unit) \<times> DB" where
  "CreateOAuthFlow H x state f db =
     (let now = clk x 0;
          row = \<lparr>fStateHash = hashCode H state, fProvider = flProvider f, fClientID = flClientID f,
                 fRedirectURI = flRedirectURI f, fAppState = flAppState f,
                 fCodeVerifier = flCodeVerifier f, fLinkUserID = flLinkUserID f,
                 fCreatedAt = now, fExpiresAt = now + OAuthFlowTTL, fConsumedAt = None\<rparr>
      in if flt x 0 \<or> \<not> flow_ok db row then (Inl ErrDB, db)
         else (Inr (), db\<lparr>oauth_flows := oauth_flows db @ [row]\<rparr>))"

text \<open>One transaction: 0 \<open>BEGIN\<close>, 1 the \<open>SELECT\<close>, any error of which is \<open>ErrNotFound\<close>, 2 the
  \<open>UPDATE\<close>, 3 \<open>COMMIT\<close>.\<close>

definition ConsumeOAuthFlow ::
  "lib \<Rightarrow> opctx \<Rightarrow> string \<Rightarrow> DB \<Rightarrow> (store_error + OAuthFlow) \<times> DB" where
  "ConsumeOAuthFlow H x state db =
     (if flt x 0 then (Inl ErrDB, db)
      else case (if flt x 1 then None
                 else select_one (\<lambda>r. fStateHash r = hashCode H state \<and> fConsumedAt r = None)
                        (oauth_flows db)) of
        None \<Rightarrow> (Inl ErrNotFound, db)
      | Some row \<Rightarrow>
          if fExpiresAt row < clk x 0 then (Inl ErrNotFound, db)
          else if flt x 2 \<or> flt x 3 then (Inl ErrDB, db)
          else (Inr \<lparr>flProvider = fProvider row, flClientID = fClientID row,
                     flRedirectURI = fRedirectURI row, flAppState = fAppState row,
                     flCodeVerifier = fCodeVerifier row, flLinkUserID = fLinkUserID row\<rparr>,
                db\<lparr>oauth_flows := update_where (\<lambda>r. fStateHash r = hashCode H state)
                     (\<lambda>r. r\<lparr>fConsumedAt := Some (clk x 1)\<rparr>) (oauth_flows db)\<rparr>))"

definition AuthCodeTTL :: duration where
  "AuthCodeTTL = 60 * second"

record AuthCode =
  acUserID :: string
  acClientID :: string
  acRedirectURI :: string

definition CreateAuthCode ::
  "lib \<Rightarrow> opctx \<Rightarrow> string \<Rightarrow> AuthCode \<Rightarrow> DB \<Rightarrow> (store_error + unit) \<times> DB" where
  "CreateAuthCode H x code c db =
     (let now = clk x 0;
          row = \<lparr>aCodeHash = hashCode H code, aUserID = acUserID c, aClientID = acClientID c,
                 aRedirectURI = acRedirectURI c, aExpiresAt = now + AuthCodeTTL, aConsumedAt = None\<rparr>
      in if flt x 0 \<or> \<not> auth_code_ok db row then (Inl ErrDB, db)
         else (Inr (), db\<lparr>auth_codes := auth_codes db @ [row]\<rparr>))"

definition ConsumeAuthCode ::
  "lib \<Rightarrow> opctx \<Rightarrow> string \<Rightarrow> DB \<Rightarrow> (store_error + AuthCode) \<times> DB" where
  "ConsumeAuthCode H x code db =
     (if flt x 0 then (Inl ErrDB, db)
      else case (if flt x 1 then None
                 else select_one (\<lambda>r. aCodeHash r = hashCode H code \<and> aConsumedAt r = None)
                        (auth_codes db)) of
        None \<Rightarrow> (Inl ErrNotFound, db)
      | Some row \<Rightarrow>
          if aExpiresAt row < clk x 0 then (Inl ErrNotFound, db)
          else if flt x 2 \<or> flt x 3 then (Inl ErrDB, db)
          else (Inr \<lparr>acUserID = aUserID row, acClientID = aClientID row,
                     acRedirectURI = aRedirectURI row\<rparr>,
                db\<lparr>auth_codes := update_where (\<lambda>r. aCodeHash r = hashCode H code)
                     (\<lambda>r. r\<lparr>aConsumedAt := Some (clk x 1)\<rparr>) (auth_codes db)\<rparr>))"

text \<open>\<open>PruneOAuth\<close>: two statements, the second not reached when the first fails.\<close>

definition PruneOAuth :: "opctx \<Rightarrow> DB \<Rightarrow> (store_error + unit) \<times> DB" where
  "PruneOAuth x db =
     (let cutoff = clk x 0 - hour in
      if flt x 0 then (Inl ErrDB, db)
      else
        let db1 = db\<lparr>oauth_flows := delete_where (\<lambda>r. fExpiresAt r < cutoff) (oauth_flows db)\<rparr> in
        if flt x 1 then (Inl ErrDB, db1)
        else (Inr (), db1\<lparr>auth_codes := delete_where (\<lambda>r. aExpiresAt r < cutoff) (auth_codes db1)\<rparr>))"

section \<open>What the operations do\<close>

lemma CreateOAuthFlow_cases:
  assumes "CreateOAuthFlow H x state f db = (r, db')"
  obtains "r = Inl ErrDB" "db' = db"
  | row where "r = Inr ()" "fStateHash row = hashCode H state" "fConsumedAt row = None"
      "fExpiresAt row = clk x 0 + OAuthFlowTTL" "flow_ok db row"
      "db' = db\<lparr>oauth_flows := oauth_flows db @ [row]\<rparr>"
proof -
  let ?row = "\<lparr>fStateHash = hashCode H state, fProvider = flProvider f, fClientID = flClientID f,
    fRedirectURI = flRedirectURI f, fAppState = flAppState f, fCodeVerifier = flCodeVerifier f,
    fLinkUserID = flLinkUserID f, fCreatedAt = clk x 0, fExpiresAt = clk x 0 + OAuthFlowTTL,
    fConsumedAt = None\<rparr>"
  have run: "(if flt x 0 \<or> \<not> flow_ok db ?row then (Inl ErrDB, db) else (Inr (), db\<lparr>oauth_flows := oauth_flows db @ [?row]\<rparr>)) = (r, db')"
    using assms by (simp only: CreateOAuthFlow_def Let_def)
  show thesis
  proof (cases "flt x 0 \<or> \<not> flow_ok db ?row")
    case True
    with run show thesis by (intro that(1)) simp_all
  next
    case False
    with run show thesis by (intro that(2) [of ?row]) simp_all
  qed
qed

lemma CreateAuthCode_cases:
  assumes "CreateAuthCode H x code c db = (r, db')"
  obtains "r = Inl ErrDB" "db' = db"
  | row where "r = Inr ()" "aCodeHash row = hashCode H code" "aConsumedAt row = None"
      "aUserID row = acUserID c" "aClientID row = acClientID c" "aRedirectURI row = acRedirectURI c"
      "aExpiresAt row = clk x 0 + AuthCodeTTL" "auth_code_ok db row"
      "db' = db\<lparr>auth_codes := auth_codes db @ [row]\<rparr>"
proof -
  let ?row = "\<lparr>aCodeHash = hashCode H code, aUserID = acUserID c, aClientID = acClientID c,
    aRedirectURI = acRedirectURI c, aExpiresAt = clk x 0 + AuthCodeTTL, aConsumedAt = None\<rparr>"
  have run: "(if flt x 0 \<or> \<not> auth_code_ok db ?row then (Inl ErrDB, db) else (Inr (), db\<lparr>auth_codes := auth_codes db @ [?row]\<rparr>)) = (r, db')"
    using assms by (simp only: CreateAuthCode_def Let_def)
  show thesis
  proof (cases "flt x 0 \<or> \<not> auth_code_ok db ?row")
    case True
    with run show thesis by (intro that(1)) simp_all
  next
    case False
    with run show thesis by (intro that(2) [of ?row]) simp_all
  qed
qed

lemma ConsumeOAuthFlow_cases:
  assumes "ConsumeOAuthFlow H x state db = (r, db')"
  obtains e where "r = Inl e" "db' = db"
  | row fl where "r = Inr fl" "row \<in> set (oauth_flows db)" "fStateHash row = hashCode H state"
      "fConsumedAt row = None" "clk x 0 \<le> fExpiresAt row"
      "flProvider fl = fProvider row" "flClientID fl = fClientID row"
      "flRedirectURI fl = fRedirectURI row" "flLinkUserID fl = fLinkUserID row"
      "db' = db\<lparr>oauth_flows := update_where (\<lambda>r. fStateHash r = fStateHash row)
         (\<lambda>r. r\<lparr>fConsumedAt := Some (clk x 1)\<rparr>) (oauth_flows db)\<rparr>"
proof (cases r)
  case (Inl e)
  with assms show thesis
    by (intro that(1) [of e]) (auto simp: ConsumeOAuthFlow_def split: if_splits option.splits)
next
  case (Inr fl)
  with assms obtain row where row:
    "select_one (\<lambda>r. fStateHash r = hashCode H state \<and> fConsumedAt r = None) (oauth_flows db) = Some row"
    "clk x 0 \<le> fExpiresAt row"
    "flProvider fl = fProvider row" "flClientID fl = fClientID row"
    "flRedirectURI fl = fRedirectURI row" "flLinkUserID fl = fLinkUserID row"
    "db' = db\<lparr>oauth_flows := update_where (\<lambda>r. fStateHash r = hashCode H state)
         (\<lambda>r. r\<lparr>fConsumedAt := Some (clk x 1)\<rparr>) (oauth_flows db)\<rparr>"
    by (auto simp: ConsumeOAuthFlow_def split: if_splits option.splits)
  from select_one_Some [OF row(1)] row(2-) Inr show thesis by (intro that(2) [of fl row]) simp_all
qed

lemma ConsumeAuthCode_cases:
  assumes "ConsumeAuthCode H x code db = (r, db')"
  obtains e where "r = Inl e" "db' = db"
  | row ac where "r = Inr ac" "row \<in> set (auth_codes db)" "aCodeHash row = hashCode H code"
      "aConsumedAt row = None" "clk x 0 \<le> aExpiresAt row"
      "acUserID ac = aUserID row" "acClientID ac = aClientID row"
      "acRedirectURI ac = aRedirectURI row"
      "db' = db\<lparr>auth_codes := update_where (\<lambda>r. aCodeHash r = aCodeHash row)
         (\<lambda>r. r\<lparr>aConsumedAt := Some (clk x 1)\<rparr>) (auth_codes db)\<rparr>"
proof (cases r)
  case (Inl e)
  with assms show thesis
    by (intro that(1) [of e]) (auto simp: ConsumeAuthCode_def split: if_splits option.splits)
next
  case (Inr ac)
  with assms obtain row where row:
    "select_one (\<lambda>r. aCodeHash r = hashCode H code \<and> aConsumedAt r = None) (auth_codes db) = Some row"
    "clk x 0 \<le> aExpiresAt row" "acUserID ac = aUserID row" "acClientID ac = aClientID row"
    "acRedirectURI ac = aRedirectURI row"
    "db' = db\<lparr>auth_codes := update_where (\<lambda>r. aCodeHash r = hashCode H code)
         (\<lambda>r. r\<lparr>aConsumedAt := Some (clk x 1)\<rparr>) (auth_codes db)\<rparr>"
    by (auto simp: ConsumeAuthCode_def split: if_splits option.splits)
  from select_one_Some [OF row(1)] row(2-) Inr show thesis by (intro that(2) [of ac row]) simp_all
qed

lemma PruneOAuth_cases:
  assumes "PruneOAuth x db = (r, db')"
  obtains "db' = db"
  | "db' = db\<lparr>oauth_flows := delete_where (\<lambda>r. fExpiresAt r < clk x 0 - hour) (oauth_flows db)\<rparr>"
  | "db' = db\<lparr>oauth_flows := delete_where (\<lambda>r. fExpiresAt r < clk x 0 - hour) (oauth_flows db),
       auth_codes := delete_where (\<lambda>r. aExpiresAt r < clk x 0 - hour) (auth_codes db)\<rparr>"
  using assms by (auto simp: PruneOAuth_def Let_def split: if_splits)

section \<open>The two tables as a machine\<close>

text \<open>
  Any sequence of the operations on the two tables, the hashes of the states and codes minted so
  far beside the database: a secret is never minted twice.
\<close>

record secrets =
  stateHashes :: "string set"
  codeHashes :: "string set"
  secDB :: DB

inductive flow_step :: "lib \<Rightarrow> secrets \<Rightarrow> secrets \<Rightarrow> bool" for H where
  start: "hashCode H state \<notin> stateHashes g \<Longrightarrow>
     CreateOAuthFlow H x state f (secDB g) = (r, db') \<Longrightarrow>
     flow_step H g (g\<lparr>stateHashes := insert (hashCode H state) (stateHashes g), secDB := db'\<rparr>)"
| callback: "ConsumeOAuthFlow H x state (secDB g) = (q, db') \<Longrightarrow> flow_step H g (g\<lparr>secDB := db'\<rparr>)"
| mint: "hashCode H code \<notin> codeHashes g \<Longrightarrow> CreateAuthCode H x code c (secDB g) = (r, db') \<Longrightarrow>
     flow_step H g (g\<lparr>codeHashes := insert (hashCode H code) (codeHashes g), secDB := db'\<rparr>)"
| exchange: "ConsumeAuthCode H x code (secDB g) = (p, db') \<Longrightarrow> flow_step H g (g\<lparr>secDB := db'\<rparr>)"
| prune: "PruneOAuth x (secDB g) = (r, db') \<Longrightarrow> flow_step H g (g\<lparr>secDB := db'\<rparr>)"
| other: "oauth_flows db' = oauth_flows (secDB g) \<Longrightarrow> auth_codes db' = auth_codes (secDB g) \<Longrightarrow>
     stateHashes g \<subseteq> ss \<Longrightarrow> codeHashes g \<subseteq> cs \<Longrightarrow>
     flow_step H g \<lparr>stateHashes = ss, codeHashes = cs, secDB = db'\<rparr>"

definition secrets_start :: "secrets \<Rightarrow> bool" where
  "secrets_start g \<longleftrightarrow> oauth_flows (secDB g) = [] \<and> auth_codes (secDB g) = []"

definition secrets_inv :: "secrets \<Rightarrow> bool" where
  "secrets_inv g \<longleftrightarrow> tracked fStateHash (stateHashes g) (oauth_flows (secDB g)) \<and>
     tracked aCodeHash (codeHashes g) (auth_codes (secDB g))"

definition spent_state :: "lib \<Rightarrow> string \<Rightarrow> secrets \<Rightarrow> bool" where
  "spent_state H state g \<longleftrightarrow> spent_rows fStateHash (\<lambda>r. fConsumedAt r \<noteq> None) (hashCode H state)
     (stateHashes g) (oauth_flows (secDB g))"

definition spent_code :: "lib \<Rightarrow> string \<Rightarrow> secrets \<Rightarrow> bool" where
  "spent_code H code g \<longleftrightarrow> spent_rows aCodeHash (\<lambda>r. aConsumedAt r \<noteq> None) (hashCode H code)
     (codeHashes g) (auth_codes (secDB g))"

lemma secrets_step_inv: "flow_step H g g' \<Longrightarrow> secrets_inv g \<Longrightarrow> secrets_inv g'"
proof (induction rule: flow_step.induct)
  case (start state g x f r db')
  from start(2) start(3) show ?case unfolding secrets_inv_def
    by (cases rule: CreateOAuthFlow_cases) (auto intro: tracked_mono tracked_insert dest: tracked_insert)
next
  case (callback x state g q db')
  then show ?case unfolding secrets_inv_def
    by (elim ConsumeOAuthFlow_cases) (auto intro: tracked_rules)
next
  case (mint code g x c r db')
  from mint(2) mint(3) show ?case unfolding secrets_inv_def
    by (cases rule: CreateAuthCode_cases) (auto intro: tracked_mono dest: tracked_insert)
next
  case (exchange x code g p db')
  then show ?case unfolding secrets_inv_def
    by (elim ConsumeAuthCode_cases) (auto intro: tracked_rules)
next
  case (prune x g r db')
  then show ?case unfolding secrets_inv_def
    by (elim PruneOAuth_cases) (auto intro: tracked_rules)
qed (auto simp: secrets_inv_def intro: tracked_mono)

lemma spent_state_step: "flow_step H g g' \<Longrightarrow> spent_state H k g \<Longrightarrow> spent_state H k g'"
proof (induction rule: flow_step.induct)
  case (start state g x f r db')
  from start(2) show ?case
  proof (cases rule: CreateOAuthFlow_cases)
    case 1
    with start(3) show ?thesis by (auto simp: spent_state_def intro: spent_mono)
  next
    case (2 row)
    with start(1,3) spent_insert [of fStateHash _ _ "stateHashes g" "oauth_flows (secDB g)" row]
    show ?thesis by (simp add: spent_state_def)
  qed
next
  case (callback x state g q db')
  then show ?case unfolding spent_state_def
    by (elim ConsumeOAuthFlow_cases) (auto intro: spent_rules)
next
  case (mint code g x c r db')
  from mint(2) mint(3) show ?case unfolding spent_state_def
    by (cases rule: CreateAuthCode_cases) simp_all
next
  case (exchange x code g p db')
  then show ?case unfolding spent_state_def by (elim ConsumeAuthCode_cases) simp_all
next
  case (prune x g r db')
  then show ?case unfolding spent_state_def
    by (elim PruneOAuth_cases) (auto intro: spent_rules)
qed (auto simp: spent_state_def intro: spent_mono)

lemma spent_code_step: "flow_step H g g' \<Longrightarrow> spent_code H k g \<Longrightarrow> spent_code H k g'"
proof (induction rule: flow_step.induct)
  case (start state g x f r db')
  from start(2) start(3) show ?case unfolding spent_code_def
    by (cases rule: CreateOAuthFlow_cases) simp_all
next
  case (callback x state g q db')
  then show ?case unfolding spent_code_def by (elim ConsumeOAuthFlow_cases) simp_all
next
  case (mint code g x c r db')
  from mint(2) show ?case
  proof (cases rule: CreateAuthCode_cases)
    case 1
    with mint(3) show ?thesis by (auto simp: spent_code_def intro: spent_mono)
  next
    case (2 row)
    with mint(1,3) spent_insert [of aCodeHash _ _ "codeHashes g" "auth_codes (secDB g)" row]
    show ?thesis by (simp add: spent_code_def)
  qed
next
  case (exchange x code g p db')
  then show ?case unfolding spent_code_def
    by (elim ConsumeAuthCode_cases) (auto intro: spent_rules)
next
  case (prune x g r db')
  then show ?case unfolding spent_code_def
    by (elim PruneOAuth_cases) (auto intro: spent_rules)
qed (auto simp: spent_code_def intro: spent_mono)

definition redeem_state :: "lib \<Rightarrow> opctx \<Rightarrow> string \<Rightarrow> secrets \<Rightarrow> store_error + OAuthFlow" where
  "redeem_state H x state g = fst (ConsumeOAuthFlow H x state (secDB g))"

definition redeem_code :: "lib \<Rightarrow> opctx \<Rightarrow> string \<Rightarrow> secrets \<Rightarrow> store_error + AuthCode" where
  "redeem_code H x code g = fst (ConsumeAuthCode H x code (secDB g))"

definition after_state :: "lib \<Rightarrow> opctx \<Rightarrow> string \<Rightarrow> secrets \<Rightarrow> secrets" where
  "after_state H x state g = g\<lparr>secDB := snd (ConsumeOAuthFlow H x state (secDB g))\<rparr>"

definition after_code :: "lib \<Rightarrow> opctx \<Rightarrow> string \<Rightarrow> secrets \<Rightarrow> secrets" where
  "after_code H x code g = g\<lparr>secDB := snd (ConsumeAuthCode H x code (secDB g))\<rparr>"

lemma spent_state_refused: "spent_state H k g \<Longrightarrow> \<exists>e. redeem_state H x k g = Inl e"
  by (cases "ConsumeOAuthFlow H x k (secDB g)")
    (auto simp: redeem_state_def spent_state_def spent_rows_def elim!: ConsumeOAuthFlow_cases)

lemma spent_code_refused: "spent_code H k g \<Longrightarrow> \<exists>e. redeem_code H x k g = Inl e"
  by (cases "ConsumeAuthCode H x k (secDB g)")
    (auto simp: redeem_code_def spent_code_def spent_rows_def elim!: ConsumeAuthCode_cases)

lemma redeem_state_spends:
  assumes inv: "secrets_inv g" and run: "redeem_state H x k g = Inr fl"
  shows "spent_state H k (after_state H x k g)"
proof -
  obtain db' where db': "ConsumeOAuthFlow H x k (secDB g) = (Inr fl, db')"
    using run by (cases "ConsumeOAuthFlow H x k (secDB g)") (simp add: redeem_state_def)
  then show ?thesis
  proof (cases rule: ConsumeOAuthFlow_cases)
    case (2 row fl)
    then have "spent_rows fStateHash (\<lambda>r. fConsumedAt r \<noteq> None) (hashCode H k) (stateHashes g)
        (oauth_flows db')"
      using inv unfolding secrets_inv_def
      by (auto intro: spent_after_use [where r = row])
    then show ?thesis by (simp add: spent_state_def after_state_def db')
  qed simp
qed

lemma redeem_code_spends:
  assumes inv: "secrets_inv g" and run: "redeem_code H x k g = Inr ac"
  shows "spent_code H k (after_code H x k g)"
proof -
  obtain db' where db': "ConsumeAuthCode H x k (secDB g) = (Inr ac, db')"
    using run by (cases "ConsumeAuthCode H x k (secDB g)") (simp add: redeem_code_def)
  then show ?thesis
  proof (cases rule: ConsumeAuthCode_cases)
    case (2 row ac)
    then have "spent_rows aCodeHash (\<lambda>r. aConsumedAt r \<noteq> None) (hashCode H k) (codeHashes g)
        (auth_codes db')"
      using inv unfolding secrets_inv_def
      by (auto intro: spent_after_use [where r = row])
    then show ?thesis by (simp add: spent_code_def after_code_def db')
  qed simp
qed

interpretation flow_states:
  one_time secrets_start "flow_step H" secrets_inv "spent_state H" "redeem_state H" "after_state H"
    "\<lambda>_ _. True" for H
proof
  show "secrets_inv s" if "secrets_start s" for s
    using that by (simp add: secrets_start_def secrets_inv_def)
  show "flow_step H s (after_state H x k s)" for x k s
    unfolding after_state_def by (rule flow_step.callback [OF prod.collapse [symmetric]])
qed (blast intro: secrets_step_inv spent_state_step redeem_state_spends spent_state_refused)+

interpretation exchange_codes:
  one_time secrets_start "flow_step H" secrets_inv "spent_code H" "redeem_code H" "after_code H"
    "\<lambda>_ _. True" for H
proof
  show "flow_step H s (after_code H x k s)" for x k s
    unfolding after_code_def by (rule flow_step.exchange [OF prod.collapse [symmetric]])
qed (blast intro: spent_code_step redeem_code_spends spent_code_refused)+

section \<open>Properties\<close>

text \<open>An authorization code is accepted at most once: after it was exchanged every later attempt
  with it fails, whatever operations on flows and codes ran in between.\<close>

theorem auth_code_accepted_once:
  assumes "secrets_start g0" and "rtranclp (flow_step H) g0 g"
    and "ConsumeAuthCode H x code (secDB g) = (Inr ac, db')"
    and "rtranclp (flow_step H) (g\<lparr>secDB := db'\<rparr>) g'"
  shows "\<exists>err. fst (ConsumeAuthCode H y code (secDB g')) = Inl err"
  using exchange_codes.at_most_once [of g H x code ac g' y] flow_states.reach_inv [OF assms(1,2)]
    assms(3,4)
  by (simp add: redeem_code_def after_code_def)

definition handoff :: AuthCode where
  "handoff = \<lparr>acUserID = ''A'', acClientID = ''app'', acRedirectURI = ''https://app/cb''\<rparr>"

definition client_db :: DB where
  "client_db = empty_db\<lparr>users := [\<lparr>uID = ''A'', uEmail = ''ann@x.io'', uEmailVerifiedAt = Some 1,
       uPasswordHash = None, uCreatedAt = 1, uUpdatedAt = 1, uDisabledAt = None\<rparr>],
     app_clients := [\<lparr>cID = ''app'', cName = ''App'', cSecretHash = [], cRedirectURIs = [''https://app/cb''],
       cAudience = ''app''\<rparr>]\<rparr>"

definition code_db :: DB where
  "code_db = client_db\<lparr>auth_codes := [\<lparr>aCodeHash = ''code'', aUserID = ''A'', aClientID = ''app'',
     aRedirectURI = ''https://app/cb'', aExpiresAt = 10 + AuthCodeTTL, aConsumedAt = None\<rparr>]\<rparr>"

lemmas flow_examples = handoff_def client_db_def code_db_def empty_db_def hashCode_def user_exists_def
  client_exists_def auth_code_ok_def flow_ok_def AuthCodeTTL_def OAuthFlowTTL_def

lemma mint_run: "CreateAuthCode plain (calm 10 [] CHR ''a'') ''code'' handoff client_db = (Inr (), code_db)"
  by (simp add: CreateAuthCode_def flow_examples)

lemma exchange_run: "fst (ConsumeAuthCode plain (calm 20 [] CHR ''a'') ''code'' code_db) = Inr handoff"
  by (simp add: ConsumeAuthCode_def flow_examples)

theorem auth_code_accepted_once_witness:
  "\<exists>err. fst (ConsumeAuthCode plain (calm 30 [] CHR ''a'') ''code''
     (snd (ConsumeAuthCode plain (calm 20 [] CHR ''a'') ''code'' code_db))) = Inl err"
proof -
  define g0 where "g0 = \<lparr>stateHashes = {}, codeHashes = {}, secDB = client_db\<rparr>"
  let ?g = "g0\<lparr>codeHashes := insert (hashCode plain ''code'') (codeHashes g0), secDB := code_db\<rparr>"
  let ?db' = "snd (ConsumeAuthCode plain (calm 20 [] CHR ''a'') ''code'' code_db)"
  have start: "secrets_start g0" by (simp add: g0_def secrets_start_def flow_examples)
  have "flow_step plain g0 ?g"
    by (rule flow_step.mint [where x = "calm 10 [] CHR ''a''" and c = handoff])
      (use mint_run in \<open>simp_all add: g0_def\<close>)
  then have reach: "rtranclp (flow_step plain) g0 ?g" by (rule r_into_rtranclp)
  have run: "ConsumeAuthCode plain (calm 20 [] CHR ''a'') ''code'' (secDB ?g) = (Inr handoff, ?db')"
    using exchange_run by (simp add: prod_eq_iff)
  show ?thesis
    using auth_code_accepted_once [OF start reach run rtranclp.rtrancl_refl] by simp
qed

text \<open>An OAuth state is accepted at most once: a callback with a state that already completed one
  is refused, whatever operations on flows and codes ran in between.\<close>

theorem oauth_state_accepted_once:
  assumes "secrets_start g0" and "rtranclp (flow_step H) g0 g"
    and "ConsumeOAuthFlow H x state (secDB g) = (Inr fl, db')"
    and "rtranclp (flow_step H) (g\<lparr>secDB := db'\<rparr>) g'"
  shows "\<exists>err. fst (ConsumeOAuthFlow H y state (secDB g')) = Inl err"
  using flow_states.at_most_once [of g H x state fl g' y] flow_states.reach_inv [OF assms(1,2)]
    assms(3,4)
  by (simp add: redeem_state_def after_state_def)

definition login_flow :: OAuthFlow where
  "login_flow = \<lparr>flProvider = ''google'', flClientID = ''app'', flRedirectURI = ''https://app/cb'',
     flAppState = ''s'', flCodeVerifier = ''v'', flLinkUserID = None\<rparr>"

definition flow_db :: DB where
  "flow_db = snd (CreateOAuthFlow plain (calm 10 [] CHR ''a'') ''st'' login_flow client_db)"

lemma start_run: "CreateOAuthFlow plain (calm 10 [] CHR ''a'') ''st'' login_flow client_db = (Inr (), flow_db)"
  by (simp add: flow_db_def CreateOAuthFlow_def Let_def flow_examples login_flow_def)

lemma callback_run: "fst (ConsumeOAuthFlow plain (calm 20 [] CHR ''a'') ''st'' flow_db) = Inr login_flow"
  by (simp add: flow_db_def CreateOAuthFlow_def ConsumeOAuthFlow_def Let_def flow_examples login_flow_def)

theorem oauth_state_accepted_once_witness:
  "\<exists>err. fst (ConsumeOAuthFlow plain (calm 30 [] CHR ''a'') ''st''
     (snd (ConsumeOAuthFlow plain (calm 20 [] CHR ''a'') ''st'' flow_db))) = Inl err"
proof -
  define g0 where "g0 = \<lparr>stateHashes = {}, codeHashes = {}, secDB = client_db\<rparr>"
  let ?g = "g0\<lparr>stateHashes := insert (hashCode plain ''st'') (stateHashes g0), secDB := flow_db\<rparr>"
  let ?db' = "snd (ConsumeOAuthFlow plain (calm 20 [] CHR ''a'') ''st'' flow_db)"
  have start: "secrets_start g0" by (simp add: g0_def secrets_start_def flow_examples)
  have "flow_step plain g0 ?g"
    by (rule flow_step.start [where x = "calm 10 [] CHR ''a''" and f = login_flow])
      (use start_run in \<open>simp_all add: g0_def\<close>)
  then have reach: "rtranclp (flow_step plain) g0 ?g" by (rule r_into_rtranclp)
  have run: "ConsumeOAuthFlow plain (calm 20 [] CHR ''a'') ''st'' (secDB ?g) = (Inr login_flow, ?db')"
    using callback_run by (simp add: prod_eq_iff)
  show ?thesis
    using oauth_state_accepted_once [OF start reach run rtranclp.rtrancl_refl] by simp
qed

text \<open>C21: what a callback and an exchange get back is what was put in: a code minted for a user, client
  and redirect, and a state recorded for a flow, redeem to exactly that, from the time they are made
  until their lifetime is over, and not a moment after.\<close>

theorem handoff_round_trip:
  assumes "hashCode H code \<notin> set (map aCodeHash (auth_codes db))"
    and "hashCode H state \<notin> set (map fStateHash (oauth_flows db))"
    and "CreateAuthCode H x code c db = (Inr (), db1)" and "CreateOAuthFlow H x state f db = (Inr (), db2)"
    and "\<forall>k. \<not> flt y k"
  shows "fst (ConsumeAuthCode H y code db1) =
      (if clk y 0 \<le> clk x 0 + AuthCodeTTL then Inr c else Inl ErrNotFound) \<and>
    fst (ConsumeOAuthFlow H y state db2) =
      (if clk y 0 \<le> clk x 0 + OAuthFlowTTL then Inr f else Inl ErrNotFound)"
proof -
  let ?c = "\<lparr>aCodeHash = hashCode H code, aUserID = acUserID c, aClientID = acClientID c,
    aRedirectURI = acRedirectURI c, aExpiresAt = clk x 0 + AuthCodeTTL, aConsumedAt = None\<rparr>"
  let ?f = "\<lparr>fStateHash = hashCode H state, fProvider = flProvider f, fClientID = flClientID f,
    fRedirectURI = flRedirectURI f, fAppState = flAppState f, fCodeVerifier = flCodeVerifier f,
    fLinkUserID = flLinkUserID f, fCreatedAt = clk x 0, fExpiresAt = clk x 0 + OAuthFlowTTL,
    fConsumedAt = None\<rparr>"
  have db: "db1 = db\<lparr>auth_codes := auth_codes db @ [?c]\<rparr>" "db2 = db\<lparr>oauth_flows := oauth_flows db @ [?f]\<rparr>"
    using assms(3,4) by (simp_all add: CreateAuthCode_def CreateOAuthFlow_def Let_def split: if_splits)
  have "select_one (\<lambda>r. aCodeHash r = hashCode H code \<and> aConsumedAt r = None) (auth_codes db) = None"
    "select_one (\<lambda>r. fStateHash r = hashCode H state \<and> fConsumedAt r = None) (oauth_flows db) = None"
    using assms(1,2) by (force simp: select_one_None)+
  then show ?thesis
    using assms(5) by (simp add: ConsumeAuthCode_def ConsumeOAuthFlow_def db select_one_append)
qed

theorem handoff_round_trip_witness:
  "fst (ConsumeAuthCode plain (calm 20 [] CHR ''a'') ''code'' code_db) = Inr handoff \<and>
   fst (ConsumeOAuthFlow plain (calm (11 + OAuthFlowTTL) [] CHR ''a'') ''st'' flow_db) = Inl ErrNotFound"
proof -
  have "hashCode plain ''code'' \<notin> set (map aCodeHash (auth_codes client_db))"
    "hashCode plain ''st'' \<notin> set (map fStateHash (oauth_flows client_db))"
    by (simp_all add: flow_examples)
  note r = handoff_round_trip [OF this mint_run start_run, of "calm t [] CHR ''a''" for t]
  show ?thesis using r [of 20] r [of "11 + OAuthFlowTTL"] by (simp add: AuthCodeTTL_def)
qed

end
