(* ===== verification/OAuth.thy ===== *)
theory OAuth
  imports Store Json
begin

text \<open>
  \<open>internal/oauth\<close>: the PKCE verifier and challenge, the profile a provider yields, and the two
  providers. The provider's servers are outside the program: \<open>exch\<close> is the token endpoint the
  \<open>golang.org/x/oauth2\<close> package calls, \<open>net tok\<close> the HTTP client that carries the token, \<open>J\<close>
  the JSON grammar.
\<close>

section \<open>Profiles and PKCE: \<open>oauth.go\<close>\<close>

record Profile =
  pSubject :: string
  pEmail :: string
  pEmailVerified :: bool
  pName :: string
  pAvatar :: string
  pRaw :: "string option"

definition NewVerifier :: "opctx \<Rightarrow> nat \<Rightarrow> store_error + string" where
  "NewVerifier x k =
     (case rand_read x k 32 of
        None \<Rightarrow> Inl ErrRand
      | Some b \<Rightarrow> Inr (EncodeToString url_alphabet b))"

definition Challenge :: "lib \<Rightarrow> string \<Rightarrow> string" where
  "Challenge H verifier = EncodeToString url_alphabet (sha256 H verifier)"

lemma length_NewVerifier: "NewVerifier x k = Inr v \<Longrightarrow> length v = 43"
  by (auto simp: NewVerifier_def length_EncodeToString length_rand_read split: option.splits)

section \<open>Reading JSON from a provider: \<open>http.go\<close>\<close>

text \<open>What \<open>Client.Do\<close> and reading the body come to.\<close>

datatype http_outcome = DoFails | BodyFails | Answer int string

definition maxProfile :: nat where
  "maxProfile = 2 ^ 20"

definition getJSON :: "(string \<Rightarrow> http_outcome) \<Rightarrow> string \<Rightarrow> string option" where
  "getJSON net url =
     (case net url of
        DoFails \<Rightarrow> None
      | BodyFails \<Rightarrow> None
      | Answer status body \<Rightarrow> if status \<noteq> 200 then None else Some (take maxProfile body))"

section \<open>Google\<close>

record googleUser =
  gSub :: string
  gEmail :: string
  gEmailVerified :: bool
  gName :: string
  gPicture :: string

definition zero_googleUser :: googleUser where
  "zero_googleUser = \<lparr>gSub = [], gEmail = [], gEmailVerified = False, gName = [], gPicture = []\<rparr>"

definition googleUser_fields :: "googleUser fields" where
  "googleUser_fields =
     [(''sub'', into_string (\<lambda>s r. r\<lparr>gSub := s\<rparr>)),
      (''email'', into_string (\<lambda>s r. r\<lparr>gEmail := s\<rparr>)),
      (''email_verified'', into_bool (\<lambda>b r. r\<lparr>gEmailVerified := b\<rparr>)),
      (''name'', into_string (\<lambda>s r. r\<lparr>gName := s\<rparr>)),
      (''picture'', into_string (\<lambda>s r. r\<lparr>gPicture := s\<rparr>))]"

text \<open>Why an exchange failed.\<close>

datatype oauth_error = ExchangeFailed | UserinfoFailed | DecodeFailed | NoSubject

definition Google_Exchange ::
  "(string \<Rightarrow> json option) \<Rightarrow> (string \<Rightarrow> string \<Rightarrow> 'tok option) \<Rightarrow> ('tok \<Rightarrow> string \<Rightarrow> http_outcome) \<Rightarrow>
   string \<Rightarrow> string \<Rightarrow> oauth_error + Profile" where
  "Google_Exchange J exch net code verifier =
     (case exch code verifier of
        None \<Rightarrow> Inl ExchangeFailed
      | Some tok \<Rightarrow>
          (case getJSON (net tok) ''https://openidconnect.googleapis.com/v1/userinfo'' of
             None \<Rightarrow> Inl UserinfoFailed
           | Some raw \<Rightarrow>
               (case Option.bind (J raw)
                       (\<lambda>v. into_struct False googleUser_fields v zero_googleUser) of
                  None \<Rightarrow> Inl DecodeFailed
                | Some u \<Rightarrow>
                    if gSub u = [] then Inl NoSubject
                    else Inr \<lparr>pSubject = gSub u, pEmail = gEmail u, pEmailVerified = gEmailVerified u,
                      pName = gName u, pAvatar = gPicture u, pRaw = Some raw\<rparr>)))"

section \<open>GitHub\<close>

record githubUser =
  ghID :: int
  ghLogin :: string
  ghName :: string
  ghAvatarURL :: string
  ghEmail :: string

record githubEmail =
  geEmail :: string
  gePrimary :: bool
  geVerified :: bool

definition zero_githubUser :: githubUser where
  "zero_githubUser = \<lparr>ghID = 0, ghLogin = [], ghName = [], ghAvatarURL = [], ghEmail = []\<rparr>"

definition githubUser_fields :: "githubUser fields" where
  "githubUser_fields =
     [(''id'', into_int64 (\<lambda>n r. r\<lparr>ghID := n\<rparr>)),
      (''login'', into_string (\<lambda>s r. r\<lparr>ghLogin := s\<rparr>)),
      (''name'', into_string (\<lambda>s r. r\<lparr>ghName := s\<rparr>)),
      (''avatar_url'', into_string (\<lambda>s r. r\<lparr>ghAvatarURL := s\<rparr>)),
      (''email'', into_string (\<lambda>s r. r\<lparr>ghEmail := s\<rparr>))]"

definition zero_githubEmail :: githubEmail where
  "zero_githubEmail = \<lparr>geEmail = [], gePrimary = False, geVerified = False\<rparr>"

definition githubEmail_fields :: "githubEmail fields" where
  "githubEmail_fields =
     [(''email'', into_string (\<lambda>s r. r\<lparr>geEmail := s\<rparr>)),
      (''primary'', into_bool (\<lambda>b r. r\<lparr>gePrimary := b\<rparr>)),
      (''verified'', into_bool (\<lambda>b r. r\<lparr>geVerified := b\<rparr>))]"

text \<open>The loop of \<open>pickEmail\<close>, with its two variables.\<close>

fun pick :: "githubEmail list \<Rightarrow> string \<Rightarrow> string \<Rightarrow> string \<times> bool" where
  "pick [] anyVerified primary =
     (if anyVerified \<noteq> [] then (anyVerified, True) else (primary, False))"
| "pick (e # es) anyVerified primary =
     (if gePrimary e \<and> geVerified e then (geEmail e, True)
      else pick es (if geVerified e \<and> anyVerified = [] then geEmail e else anyVerified)
             (if gePrimary e \<and> primary = [] then geEmail e else primary))"

definition pickEmail :: "githubEmail list \<Rightarrow> string \<times> bool" where
  "pickEmail es = pick es [] []"

fun firstNonEmpty :: "string list \<Rightarrow> string" where
  "firstNonEmpty [] = []"
| "firstNonEmpty (v # vs) = (if v \<noteq> [] then v else firstNonEmpty vs)"

text \<open>The address: from \<open>/user/emails\<close> when that answers, else the profile's, unverified.\<close>

definition github_email ::
  "(string \<Rightarrow> json option) \<Rightarrow> (string \<Rightarrow> http_outcome) \<Rightarrow> githubUser \<Rightarrow> string \<times> bool" where
  "github_email J net u =
     (let (email, verified) =
        (case getJSON net ''https://api.github.com/user/emails'' of
           None \<Rightarrow> ([], False)
         | Some raw \<Rightarrow>
             (case Option.bind (J raw)
                     (into_slice (into_struct False githubEmail_fields) zero_githubEmail) of
                None \<Rightarrow> ([], False)
              | Some es \<Rightarrow> pickEmail es))
      in if email = [] then (ghEmail u, False) else (email, verified))"

definition GitHub_Exchange ::
  "(string \<Rightarrow> json option) \<Rightarrow> (string \<Rightarrow> string \<Rightarrow> 'tok option) \<Rightarrow> ('tok \<Rightarrow> string \<Rightarrow> http_outcome) \<Rightarrow>
   string \<Rightarrow> string \<Rightarrow> oauth_error + Profile" where
  "GitHub_Exchange J exch net code verifier =
     (case exch code verifier of
        None \<Rightarrow> Inl ExchangeFailed
      | Some tok \<Rightarrow>
          (case getJSON (net tok) ''https://api.github.com/user'' of
             None \<Rightarrow> Inl UserinfoFailed
           | Some raw \<Rightarrow>
               (case Option.bind (J raw)
                       (\<lambda>v. into_struct False githubUser_fields v zero_githubUser) of
                  None \<Rightarrow> Inl DecodeFailed
                | Some u \<Rightarrow>
                    if ghID u = 0 then Inl NoSubject
                    else
                      let (email, verified) = github_email J (net tok) u
                      in Inr \<lparr>pSubject = FormatInt (ghID u), pEmail = email,
                           pEmailVerified = verified, pName = firstNonEmpty [ghName u, ghLogin u],
                           pAvatar = ghAvatarURL u, pRaw = Some raw\<rparr>)))"

section \<open>What they do\<close>

text \<open>The entries \<open>pickEmail\<close> chooses between, each the first of its kind.\<close>

definition first_email :: "(githubEmail \<Rightarrow> bool) \<Rightarrow> githubEmail list \<Rightarrow> string" where
  "first_email P es = (case find P es of None \<Rightarrow> [] | Some e \<Rightarrow> geEmail e)"

definition pick_spec :: "githubEmail list \<Rightarrow> string \<times> bool" where
  "pick_spec es =
     (case find (\<lambda>e. gePrimary e \<and> geVerified e) es of
        Some e \<Rightarrow> (geEmail e, True)
      | None \<Rightarrow>
          let v = first_email (\<lambda>e. geVerified e \<and> geEmail e \<noteq> []) es
          in if v \<noteq> [] then (v, True)
             else (first_email (\<lambda>e. gePrimary e \<and> geEmail e \<noteq> []) es, False))"

lemma pick_unfold:
  "pick es a b =
     (case find (\<lambda>e. gePrimary e \<and> geVerified e) es of
        Some e \<Rightarrow> (geEmail e, True)
      | None \<Rightarrow>
          let v = (if a \<noteq> [] then a else first_email (\<lambda>e. geVerified e \<and> geEmail e \<noteq> []) es)
          in if v \<noteq> [] then (v, True)
             else (if b \<noteq> [] then b
                   else first_email (\<lambda>e. gePrimary e \<and> geEmail e \<noteq> []) es, False))"
  by (induction es a b rule: pick.induct)
    (auto simp: first_email_def Let_def split: option.splits)

lemma pickEmail_spec: "pickEmail es = pick_spec es"
  by (simp add: pickEmail_def pick_spec_def pick_unfold)

lemma pickEmail_verified:
  assumes "pickEmail es = (m, True)"
  shows "\<exists>e \<in> set es. geVerified e \<and> geEmail e = m"
  using assms unfolding pickEmail_spec pick_spec_def first_email_def
  by (fastforce simp: Let_def find_Some_iff split: option.splits if_splits)

lemma firstNonEmpty_eq:
  "firstNonEmpty vs = (case find (\<lambda>v. v \<noteq> []) vs of None \<Rightarrow> [] | Some v \<Rightarrow> v)"
  by (induction vs) auto

lemma Google_Exchange_subject: "Google_Exchange J exch net c v = Inr p \<Longrightarrow> pSubject p \<noteq> []"
  by (auto simp: Google_Exchange_def split: option.splits if_splits)

lemma FormatInt_not_Nil [simp]: "FormatInt v \<noteq> []"
  by (simp add: FormatInt_def)

lemma GitHub_Exchange_subject:
  assumes "GitHub_Exchange J exch net c v = Inr p"
  shows "pSubject p \<noteq> []"
  using assms by (auto simp: GitHub_Exchange_def split: option.splits if_splits prod.splits)

text \<open>A verified GitHub address comes from an entry of \<open>/user/emails\<close> that carries the flag.\<close>

lemma github_email_verified:
  assumes "github_email J net u = (m, True)"
  shows "m \<noteq> [] \<and> (\<exists>raw v es.
    getJSON net ''https://api.github.com/user/emails'' = Some raw \<and> J raw = Some v \<and>
    into_slice (into_struct False githubEmail_fields) zero_githubEmail v = Some es \<and>
    (\<exists>e \<in> set es. geVerified e \<and> geEmail e = m))"
  using assms pickEmail_verified [of _ m]
  by (fastforce simp: github_email_def bind_eq_Some_conv split: option.splits if_splits prod.splits)

end
