(* ===== verification/Linking.thy ===== *)
theory Linking
  imports OAuth Users
begin

text \<open>
  \<open>internal/linking\<close>: which account a provider profile belongs to. \<open>Store\<close>, the interface the
  package asks of persistence, is the record \<open>link_store\<close> of its operations on a state \<open>'s\<close>;
  \<open>identity_store\<close> states what those operations promise, the lemmas about \<open>Resolve\<close> and
  \<open>LinkToUser\<close> rest on that alone, and the interpretation shows that the store of
  \<open>internal/store\<close> keeps the promise.
\<close>

section \<open>The code\<close>

datatype link_error =
    ErrNoSubject
  | ErrManualLinkRequired
  | ErrAlreadyLinkedElsewhere
  | FromStore store_error

datatype Outcome = OutcomeExisting | OutcomeLinked | OutcomeCreated

record Result =
  resUser :: User
  resOutcome :: Outcome

record 's link_store =
  ls_IdentityBySubject :: "string \<Rightarrow> string \<Rightarrow> 's \<Rightarrow> store_error + Identity"
  ls_UserByEmail :: "string \<Rightarrow> 's \<Rightarrow> store_error + User"
  ls_UserByID :: "string \<Rightarrow> 's \<Rightarrow> store_error + User"
  ls_CreateIdentity :: "Identity \<Rightarrow> 's \<Rightarrow> (store_error + Identity) \<times> 's"
  ls_CreateUserWithIdentity ::
    "string \<Rightarrow> bool \<Rightarrow> Identity \<Rightarrow> 's \<Rightarrow> (store_error + User \<times> Identity) \<times> 's"

text \<open>The row built from a profile; the store fills in its id.\<close>

definition identity_of :: "string \<Rightarrow> string \<Rightarrow> Profile \<Rightarrow> Identity" where
  "identity_of userID provider p =
     \<lparr>iID = [], iUserID = userID, iProvider = provider, iSubject = pSubject p, iEmail = pEmail p,
      iEmailVerified = pEmailVerified p, iRawProfile = pRaw p\<rparr>"

text \<open>The holder of the profile's address, \<open>None\<close> when there is none or no address.\<close>

definition owner_of :: "'s link_store \<Rightarrow> Profile \<Rightarrow> 's \<Rightarrow> store_error + User option" where
  "owner_of S p s =
     (if pEmail p \<noteq> []
      then (case ls_UserByEmail S (pEmail p) s of
              Inr u \<Rightarrow> Inr (Some u)
            | Inl e \<Rightarrow> if e \<noteq> ErrNotFound then Inl e else Inr None)
      else Inr None)"

definition Resolve ::
  "'s link_store \<Rightarrow> string \<Rightarrow> Profile \<Rightarrow> 's \<Rightarrow> (link_error + Result) \<times> 's" where
  "Resolve S provider p s =
     (if pSubject p = [] then (Inl ErrNoSubject, s)
      else case ls_IdentityBySubject S provider (pSubject p) s of
        Inr existing \<Rightarrow>
          (case ls_UserByID S (iUserID existing) s of
             Inl e \<Rightarrow> (Inl (FromStore e), s)
           | Inr u \<Rightarrow> (Inr \<lparr>resUser = u, resOutcome = OutcomeExisting\<rparr>, s))
      | Inl e \<Rightarrow>
          if e \<noteq> ErrNotFound then (Inl (FromStore e), s)
          else
            (case owner_of S p s of
               Inl e \<Rightarrow> (Inl (FromStore e), s)
             | Inr None \<Rightarrow>
                 (case ls_CreateUserWithIdentity S (pEmail p) (pEmailVerified p)
                         (identity_of [] provider p) s of
                    (Inl e, s') \<Rightarrow> (Inl (FromStore e), s')
                  | (Inr (u, _), s') \<Rightarrow> (Inr \<lparr>resUser = u, resOutcome = OutcomeCreated\<rparr>, s'))
             | Inr (Some owner) \<Rightarrow>
                 if \<not> pEmailVerified p \<or> \<not> EmailVerified owner
                 then (Inl ErrManualLinkRequired, s)
                 else
                   (case ls_CreateIdentity S ((identity_of [] provider p)\<lparr>iUserID := uID owner\<rparr>) s of
                      (Inl e, s') \<Rightarrow> (Inl (FromStore e), s')
                    | (Inr _, s') \<Rightarrow> (Inr \<lparr>resUser = owner, resOutcome = OutcomeLinked\<rparr>, s'))))"

definition LinkToUser ::
  "'s link_store \<Rightarrow> string \<Rightarrow> string \<Rightarrow> Profile \<Rightarrow> 's \<Rightarrow> (link_error + Identity) \<times> 's" where
  "LinkToUser S userID provider p s =
     (if pSubject p = [] then (Inl ErrNoSubject, s)
      else case ls_IdentityBySubject S provider (pSubject p) s of
        Inr existing \<Rightarrow>
          if iUserID existing = userID then (Inr existing, s)
          else (Inl ErrAlreadyLinkedElsewhere, s)
      | Inl e \<Rightarrow>
          if e \<noteq> ErrNotFound then (Inl (FromStore e), s)
          else
            (case ls_CreateIdentity S (identity_of userID provider p) s of
               (Inl e, s') \<Rightarrow> (Inl (FromStore e), s')
             | (Inr i, s') \<Rightarrow> (Inr i, s')))"

text \<open>The store of \<open>internal/store\<close>; each method runs in a context of its own.\<close>

definition dbStore :: "lib \<Rightarrow> (string \<Rightarrow> opctx) \<Rightarrow> DB link_store" where
  "dbStore H e =
     \<lparr>ls_IdentityBySubject = IdentityBySubject (e ''IdentityBySubject''),
      ls_UserByEmail = UserByEmail H (e ''UserByEmail''),
      ls_UserByID = UserByID (e ''UserByID''),
      ls_CreateIdentity = CreateIdentity (e ''CreateIdentity''),
      ls_CreateUserWithIdentity = CreateUserWithIdentity H (e ''CreateUserWithIdentity'')\<rparr>"

section \<open>What the package asks of its store\<close>

text \<open>
  \<open>inv\<close> is what every state satisfies, \<open>accounts\<close> and \<open>bound\<close> are the users and the
  identities a state holds, \<open>fold\<close> decides when two addresses are the same.
\<close>

locale identity_store =
  fixes S :: "'s link_store"
    and inv :: "'s \<Rightarrow> bool"
    and accounts :: "'s \<Rightarrow> User set"
    and bound :: "'s \<Rightarrow> Identity set"
    and fold :: "string \<Rightarrow> string"
  assumes by_subject: "ls_IdentityBySubject S p sub s = Inr i \<Longrightarrow>
      i \<in> bound s \<and> iProvider i = p \<and> iSubject i = sub"
    and by_subject_none: "ls_IdentityBySubject S p sub s = Inl ErrNotFound \<Longrightarrow>
      i \<in> bound s \<Longrightarrow> (iProvider i, iSubject i) \<noteq> (p, sub)"
    and by_id: "ls_UserByID S k s = Inr u \<Longrightarrow> u \<in> accounts s \<and> uID u = k"
    and by_email: "ls_UserByEmail S m s = Inr u \<Longrightarrow> u \<in> accounts s \<and> fold (uEmail u) = fold m"
    and by_email_none: "ls_UserByEmail S m s = Inl ErrNotFound \<Longrightarrow>
      u \<in> accounts s \<Longrightarrow> fold (uEmail u) \<noteq> fold m"
    and bind: "ls_CreateIdentity S i s = (Inr j, s') \<Longrightarrow>
      iUserID j = iUserID i \<and> iProvider j = iProvider i \<and> iSubject j = iSubject i \<and>
      (\<exists>u \<in> accounts s. uID u = iUserID i) \<and> bound s' = insert j (bound s) \<and>
      accounts s' = accounts s \<and> (inv s \<longrightarrow> inv s')"
    and bind_fail: "ls_CreateIdentity S i s = (Inl e, s') \<Longrightarrow> s' = s"
    and sign_up: "ls_CreateUserWithIdentity S m v i s = (Inr (u, j), s') \<Longrightarrow>
      uEmail u = m \<and> EmailVerified u = v \<and> uPasswordHash u = None \<and>
      iUserID j = uID u \<and> iProvider j = iProvider i \<and> iSubject j = iSubject i \<and>
      (\<forall>w \<in> accounts s. uID w \<noteq> uID u \<and> fold (uEmail w) \<noteq> fold m) \<and>
      bound s' = insert j (bound s) \<and> accounts s' = insert u (accounts s) \<and> (inv s \<longrightarrow> inv s')"
    and sign_up_fail: "ls_CreateUserWithIdentity S m v i s = (Inl e, s') \<Longrightarrow> s' = s"
    and bound_unique: "inv s \<Longrightarrow> i \<in> bound s \<Longrightarrow> j \<in> bound s \<Longrightarrow>
      iProvider i = iProvider j \<Longrightarrow> iSubject i = iSubject j \<Longrightarrow> i = j"
begin

lemma owner_of_Some: "owner_of S p s = Inr (Some u) \<Longrightarrow>
   pEmail p \<noteq> [] \<and> u \<in> accounts s \<and> fold (uEmail u) = fold (pEmail p)"
  using by_email by (auto simp: owner_of_def split: if_splits sum.splits)

lemma Resolve_cases:
  assumes "Resolve S prov p s = (Inr r, s')"
  obtains (Existing) i where "resOutcome r = OutcomeExisting" "s' = s" "i \<in> bound s"
      "iProvider i = prov" "iSubject i = pSubject p" "iUserID i = uID (resUser r)"
      "resUser r \<in> accounts s" "pSubject p \<noteq> []"
  | (Linked) i where "resOutcome r = OutcomeLinked" "pEmailVerified p" "EmailVerified (resUser r)"
      "pEmail p \<noteq> []" "resUser r \<in> accounts s" "fold (uEmail (resUser r)) = fold (pEmail p)"
      "iProvider i = prov" "iSubject i = pSubject p" "iUserID i = uID (resUser r)"
      "bound s' = insert i (bound s)" "accounts s' = accounts s" "inv s \<longrightarrow> inv s'" "pSubject p \<noteq> []"
      "\<forall>j \<in> bound s. (iProvider j, iSubject j) \<noteq> (prov, pSubject p)"
  | (Created) i where "resOutcome r = OutcomeCreated" "uEmail (resUser r) = pEmail p"
      "EmailVerified (resUser r) = pEmailVerified p" "uPasswordHash (resUser r) = None"
      "\<forall>w \<in> accounts s. uID w \<noteq> uID (resUser r) \<and> fold (uEmail w) \<noteq> fold (pEmail p)"
      "iProvider i = prov" "iSubject i = pSubject p" "iUserID i = uID (resUser r)"
      "bound s' = insert i (bound s)" "accounts s' = insert (resUser r) (accounts s)"
      "inv s \<longrightarrow> inv s'" "pSubject p \<noteq> []"
      "\<forall>j \<in> bound s. (iProvider j, iSubject j) \<noteq> (prov, pSubject p)"
proof (cases "ls_IdentityBySubject S prov (pSubject p) s")
  case (Inr i)
  with assms obtain u where "ls_UserByID S (iUserID i) s = Inr u"
    and "r = \<lparr>resUser = u, resOutcome = OutcomeExisting\<rparr>" "s' = s" "pSubject p \<noteq> []"
    by (auto simp: Resolve_def split: if_splits sum.splits)
  with Inr show ?thesis
    using by_subject [OF Inr] by_id by (intro Existing [of i]) auto
next
  case (Inl e)
  with assms have e: "e = ErrNotFound" and sub: "pSubject p \<noteq> []"
    by (auto simp: Resolve_def split: if_splits)
  have fresh: "\<forall>j \<in> bound s. (iProvider j, iSubject j) \<noteq> (prov, pSubject p)"
    using by_subject_none Inl e by blast
  obtain ow where ow: "owner_of S p s = Inr ow"
    using assms Inl e sub by (cases "owner_of S p s") (auto simp: Resolve_def)
  show ?thesis
  proof (cases ow)
    case None
    obtain u j where c: "ls_CreateUserWithIdentity S (pEmail p) (pEmailVerified p)
        (identity_of [] prov p) s = (Inr (u, j), s')"
      and r: "r = \<lparr>resUser = u, resOutcome = OutcomeCreated\<rparr>"
      using assms Inl e sub ow None by (auto simp: Resolve_def split: prod.splits sum.splits)
    show ?thesis
      using sign_up [OF c] r sub fresh by (intro Created [of j]) (auto simp: identity_of_def)
  next
    case (Some u)
    obtain j where c: "ls_CreateIdentity S ((identity_of [] prov p)\<lparr>iUserID := uID u\<rparr>) s = (Inr j, s')"
      and r: "r = \<lparr>resUser = u, resOutcome = OutcomeLinked\<rparr>"
      and v: "pEmailVerified p" "EmailVerified u"
      using assms Inl e sub ow Some
      by (auto simp: Resolve_def split: prod.splits sum.splits if_splits)
    show ?thesis
      using bind [OF c] r v sub fresh owner_of_Some [of p s u] ow Some
      by (intro Linked [of j]) (auto simp: identity_of_def)
  qed
qed

lemma Resolve_fail: "Resolve S prov p s = (Inl e, s') \<Longrightarrow> s' = s"
  by (auto simp: Resolve_def split: if_splits sum.splits option.splits prod.splits
      dest: bind_fail sign_up_fail)

lemma Resolve_inv:
  assumes "inv s" "Resolve S prov p s = (r, s')"
  shows "inv s'"
proof (cases r)
  case (Inl e)
  with assms Resolve_fail show ?thesis by blast
next
  case (Inr q)
  with assms(2) have "Resolve S prov p s = (Inr q, s')" by simp
  then show ?thesis using assms(1) by (cases rule: Resolve_cases) simp_all
qed

text \<open>No identity is dropped or moved, no account is dropped or changed.\<close>

lemma Resolve_frame:
  assumes "Resolve S prov p s = (r, s')"
  shows "bound s \<subseteq> bound s' \<and> accounts s \<subseteq> accounts s'"
proof (cases r)
  case (Inl e)
  with assms Resolve_fail show ?thesis by blast
next
  case (Inr q)
  with assms have "Resolve S prov p s = (Inr q, s')" by simp
  then show ?thesis by (cases rule: Resolve_cases) auto
qed

text \<open>Whoever a profile resolves to holds its identity afterwards.\<close>

lemma Resolve_holds:
  assumes "Resolve S prov p s = (Inr r, s')"
  shows "\<exists>i \<in> bound s'. iProvider i = prov \<and> iSubject i = pSubject p \<and> iUserID i = uID (resUser r) \<and>
    resUser r \<in> accounts s'"
  using assms by (cases rule: Resolve_cases) auto

text \<open>A bound subject resolves to its holder, whatever else the profile says.\<close>

lemma Resolve_bound:
  assumes "inv s" "i \<in> bound s" "Resolve S (iProvider i) p s = (Inr r, s')" "pSubject p = iSubject i"
  shows "resOutcome r = OutcomeExisting \<and> uID (resUser r) = iUserID i \<and> s' = s"
  using assms(3)
proof (cases rule: Resolve_cases)
  case (Existing j)
  with bound_unique [OF assms(1,2), of j] assms(4) show ?thesis by simp
next
  case (Linked j)
  then have "(iProvider i, iSubject i) \<noteq> (iProvider i, pSubject p)" using assms(2) by blast
  with assms(4) show ?thesis by simp
next
  case (Created j)
  then have "(iProvider i, iSubject i) \<noteq> (iProvider i, pSubject p)" using assms(2) by blast
  with assms(4) show ?thesis by simp
qed

lemma LinkToUser_cases:
  assumes "LinkToUser S userID prov p s = (Inr i, s')"
  obtains (Already) "s' = s" "i \<in> bound s" "iUserID i = userID" "iProvider i = prov"
      "iSubject i = pSubject p"
  | (New) "bound s' = insert i (bound s)" "accounts s' = accounts s" "inv s \<longrightarrow> inv s'"
      "iUserID i = userID" "iProvider i = prov" "iSubject i = pSubject p"
      "\<exists>u \<in> accounts s. uID u = userID"
      "\<forall>j \<in> bound s. (iProvider j, iSubject j) \<noteq> (prov, pSubject p)"
proof (cases "ls_IdentityBySubject S prov (pSubject p) s")
  case (Inr j)
  with assms have "j = i" "s' = s" "iUserID i = userID"
    by (simp_all add: LinkToUser_def split: if_splits)
  with by_subject [OF Inr] show ?thesis by (intro Already) simp_all
next
  case (Inl e)
  with assms have e: "e = ErrNotFound" by (auto simp: LinkToUser_def split: if_splits)
  have c: "ls_CreateIdentity S (identity_of userID prov p) s = (Inr i, s')"
    using assms Inl e by (auto simp: LinkToUser_def split: if_splits prod.splits sum.splits)
  have "\<forall>j \<in> bound s. (iProvider j, iSubject j) \<noteq> (prov, pSubject p)"
    using by_subject_none Inl e by blast
  then show ?thesis using bind [OF c] by (intro New) (auto simp: identity_of_def)
qed

lemma LinkToUser_fail: "LinkToUser S userID prov p s = (Inl e, s') \<Longrightarrow> s' = s"
  by (auto simp: LinkToUser_def split: if_splits sum.splits prod.splits dest: bind_fail)

lemma LinkToUser_inv:
  assumes "inv s" "LinkToUser S userID prov p s = (r, s')"
  shows "inv s'"
proof (cases r)
  case (Inl e)
  with assms LinkToUser_fail show ?thesis by blast
next
  case (Inr q)
  with assms(2) have "LinkToUser S userID prov p s = (Inr q, s')" by simp
  then show ?thesis using assms(1) by (cases rule: LinkToUser_cases) simp_all
qed

lemma LinkToUser_frame:
  assumes "LinkToUser S userID prov p s = (r, s')"
  shows "bound s \<subseteq> bound s' \<and> accounts s' = accounts s"
proof (cases r)
  case (Inl e)
  with assms LinkToUser_fail show ?thesis by blast
next
  case (Inr q)
  with assms have "LinkToUser S userID prov p s = (Inr q, s')" by simp
  then show ?thesis by (cases rule: LinkToUser_cases) auto
qed

text \<open>An identity another user holds is refused.\<close>

lemma LinkToUser_held:
  assumes "inv s" "i \<in> bound s" "iUserID i \<noteq> userID" "pSubject p = iSubject i"
    "LinkToUser S userID (iProvider i) p s = (r, s')"
  shows "(\<exists>e. r = Inl e) \<and> s' = s"
proof (cases r)
  case (Inl e)
  with assms LinkToUser_fail show ?thesis by blast
next
  case (Inr q)
  with assms(5) have "LinkToUser S userID (iProvider i) p s = (Inr q, s')" by simp
  then show ?thesis
  proof (cases rule: LinkToUser_cases)
    case Already
    with bound_unique [OF assms(1,2), of q] assms(3,4) show ?thesis by simp
  next
    case New
    with assms(2,4) show ?thesis by metis
  qed
qed

end

section \<open>The store keeps the promise\<close>

interpretation links: identity_store "dbStore H e" "db_ok H" "\<lambda>db. set (users db)"
  "\<lambda>db. set (identities db)" "citext H" for H e
proof (unfold_locales, goal_cases)
  case (1 p sub s i)
  then show ?case by (simp add: dbStore_def IdentityBySubject_Inr)
next
  case (2 p sub s i)
  then show ?case using IdentityBySubject_NotFound by (auto simp: dbStore_def)
next
  case (3 k s u)
  then show ?case by (simp add: dbStore_def UserByID_Inr)
next
  case (4 m s u)
  then show ?case by (simp add: dbStore_def UserByEmail_Inr)
next
  case (5 m s u)
  then show ?case using UserByEmail_NotFound by (auto simp: dbStore_def)
next
  case (6 i s j s')
  then have c: "CreateIdentity (e ''CreateIdentity'') i s = (Inr j, s')" by (simp add: dbStore_def)
  have "user_exists s (iUserID j)" using CreateIdentity_Inr(2) [OF c] by (simp add: identity_ok_def)
  with CreateIdentity_Inr [OF c] show ?case
    by (simp add: db_ok_add_identity user_exists_def)
next
  case (7 i s e s')
  then show ?case by (simp add: dbStore_def CreateIdentity_Inl)
next
  case (8 m v i s u j s')
  then have c: "CreateUserWithIdentity H (e ''CreateUserWithIdentity'') m v i s = (Inr (u, j), s')"
    by (simp add: dbStore_def)
  note r = CreateUserWithIdentity_Inr [OF c]
  have "\<forall>w \<in> set (users s). uID w \<noteq> uID u \<and> citext H (uEmail w) \<noteq> citext H m"
    using r(6) r(2) unfolding user_ok_def comp_def set_map by (metis image_eqI)
  moreover have "db_ok H s \<Longrightarrow> db_ok H s'"
    using db_ok_add_identity [OF db_ok_add_user [OF _ r(6)] r(8)] r(9) by simp
  moreover have "set (users s') = insert u (set (users s))" "set (identities s') = insert j (set (identities s))"
    using r(9) by simp_all
  moreover have "iUserID j = uID u" "iProvider j = iProvider i" "iSubject j = iSubject i"
    using r(7) by simp_all
  ultimately show ?case using r(2,3,4) by blast
next
  case (9 m v i s e s')
  then show ?case by (simp add: dbStore_def CreateUserWithIdentity_Inl)
next
  case (10 s i j)
  then show ?case by (rule db_ok_identityD)
qed

section \<open>Which branch is taken\<close>

text \<open>What a profile resolves to when no statement fails: the outcome and the account.\<close>

definition verdict ::
  "lib \<Rightarrow> string \<Rightarrow> string \<Rightarrow> Profile \<Rightarrow> DB \<Rightarrow> link_error + Outcome \<times> string" where
  "verdict H new_id provider p db =
     (case select_one (\<lambda>i. (iProvider i, iSubject i) = (provider, pSubject p)) (identities db) of
        Some i \<Rightarrow> Inr (OutcomeExisting, iUserID i)
      | None \<Rightarrow>
          (case select_one (\<lambda>u. pEmail p \<noteq> [] \<and> citext H (uEmail u) = citext H (pEmail p)) (users db) of
             None \<Rightarrow> Inr (OutcomeCreated, new_id)
           | Some u \<Rightarrow>
               if pEmailVerified p \<and> EmailVerified u then Inr (OutcomeLinked, uID u)
               else Inl ErrManualLinkRequired))"

definition outcome :: "link_error + Result \<Rightarrow> link_error + Outcome \<times> string" where
  "outcome r = map_sum id (\<lambda>q. (resOutcome q, uID (resUser q))) r"

text \<open>Nothing fails and the generated ids are new.\<close>

definition smooth :: "(string \<Rightarrow> opctx) \<Rightarrow> DB \<Rightarrow> bool" where
  "smooth e db \<longleftrightarrow>
     (\<forall>m \<in> set [''IdentityBySubject'', ''UserByEmail'', ''UserByID'', ''CreateIdentity'',
        ''CreateUserWithIdentity'']. \<forall>k < 4. \<not> flt (e m) k) \<and>
     uid (e ''CreateIdentity'') 0 \<notin> set (map iID (identities db)) \<and>
     uid (e ''CreateUserWithIdentity'') 0 \<notin> set (map uID (users db)) \<and>
     uid (e ''CreateUserWithIdentity'') 1 \<notin> set (map iID (identities db))"

lemma smoothD:
  assumes "smooth e db"
  shows "\<not> flt (e ''IdentityBySubject'') 0" "\<not> flt (e ''UserByEmail'') 0" "\<not> flt (e ''UserByID'') 0"
    "\<not> flt (e ''CreateIdentity'') 0" "\<And>k. k < 4 \<Longrightarrow> \<not> flt (e ''CreateUserWithIdentity'') k"
    "uid (e ''CreateIdentity'') 0 \<notin> set (map iID (identities db))"
    "uid (e ''CreateUserWithIdentity'') 0 \<notin> set (map uID (users db))"
    "uid (e ''CreateUserWithIdentity'') 1 \<notin> set (map iID (identities db))"
  using assms by (simp_all add: smooth_def)

lemma IdentityBySubject_calm:
  "\<not> flt x 0 \<Longrightarrow> IdentityBySubject x p s db =
     (case select_one (\<lambda>i. (iProvider i, iSubject i) = (p, s)) (identities db) of
        None \<Rightarrow> Inl ErrNotFound | Some i \<Rightarrow> Inr i)"
  by (simp add: IdentityBySubject_def norows_def)

lemma UserByID_calm: "\<not> flt x 0 \<Longrightarrow> db_ok H db \<Longrightarrow> user_exists db k \<Longrightarrow> \<exists>u. UserByID x k db = Inr u \<and> uID u = k"
  using select_one_None [of "\<lambda>u. uID u = k" "users db"]
  by (cases "select_one (\<lambda>u. uID u = k) (users db)")
    (auto simp: UserByID_def scanUser_def norows_def user_exists_def dest: select_one_Some)

lemma owner_of_calm:
  "\<not> flt (e ''UserByEmail'') 0 \<Longrightarrow> owner_of (dbStore H e) p db =
     Inr (select_one (\<lambda>u. pEmail p \<noteq> [] \<and> citext H (uEmail u) = citext H (pEmail p)) (users db))"
proof (cases "pEmail p = []")
  case True
  then have "select_one (\<lambda>u. pEmail p \<noteq> [] \<and> citext H (uEmail u) = citext H (pEmail p)) (users db) = None"
    by (simp add: select_one_None)
  with True show ?thesis by (simp add: owner_of_def)
next
  case False
  then show "\<not> flt (e ''UserByEmail'') 0 \<Longrightarrow> ?thesis"
    by (cases "select_one (\<lambda>u. citext H (uEmail u) = citext H (pEmail p)) (users db)")
      (simp_all add: owner_of_def dbStore_def UserByEmail_def scanUser_def norows_def)
qed

lemma CreateIdentity_calm:
  "\<not> flt x 0 \<Longrightarrow> identity_ok db (with_profile (i\<lparr>iID := uid x 0\<rparr>)) \<Longrightarrow>
   \<exists>j db'. CreateIdentity x i db = (Inr j, db')"
  by (simp add: CreateIdentity_def Let_def)

lemma CreateUserWithIdentity_calm:
  assumes "\<And>k. k < 4 \<Longrightarrow> \<not> flt x k"
    and "uid x 0 \<notin> set (map uID (users db))" "citext H m \<notin> set (map (citext H \<circ> uEmail) (users db))"
    and "uid x 1 \<notin> set (map iID (identities db))"
    and "(iProvider i, iSubject i) \<notin> set (map (\<lambda>j. (iProvider j, iSubject j)) (identities db))"
  shows "\<exists>u j db'. CreateUserWithIdentity H x m v i db = (Inr (u, j), db') \<and> uID u = uid x 0"
  using assms by (simp add: CreateUserWithIdentity_def Let_def user_ok_def identity_ok_def)

lemma Resolve_known:
  assumes "db_ok H db" "smooth e db" "pSubject p \<noteq> []"
    and "select_one (\<lambda>i. (iProvider i, iSubject i) = (prov, pSubject p)) (identities db) = Some i"
  shows "outcome (fst (Resolve (dbStore H e) prov p db)) = Inr (OutcomeExisting, iUserID i)"
proof -
  have "user_exists db (iUserID i)"
    using select_one_Some [OF assms(4)] assms(1) by (simp add: db_ok_def)
  then obtain u where "UserByID (e ''UserByID'') (iUserID i) db = Inr u" "uID u = iUserID i"
    using UserByID_calm smoothD [OF assms(2)] assms(1) by blast
  then show ?thesis
    using assms(3,4) smoothD(1) [OF assms(2)]
    by (simp add: Resolve_def dbStore_def IdentityBySubject_calm outcome_def)
qed

lemma Resolve_unknown:
  assumes ok: "db_ok H db" and sm: "smooth e db" and sub: "pSubject p \<noteq> []"
    and new: "select_one (\<lambda>i. (iProvider i, iSubject i) = (prov, pSubject p)) (identities db) = None"
    and ow: "select_one (\<lambda>u. pEmail p \<noteq> [] \<and> citext H (uEmail u) = citext H (pEmail p)) (users db) = ow"
    and free: "ow = None \<Longrightarrow> citext H (pEmail p) \<notin> set (map (citext H \<circ> uEmail) (users db))"
  shows "outcome (fst (Resolve (dbStore H e) prov p db)) =
    (case ow of
       None \<Rightarrow> Inr (OutcomeCreated, uid (e ''CreateUserWithIdentity'') 0)
     | Some u \<Rightarrow>
         if pEmailVerified p \<and> EmailVerified u then Inr (OutcomeLinked, uID u)
         else Inl ErrManualLinkRequired)"
proof -
  note sm' = smoothD [OF sm]
  have find: "ls_IdentityBySubject (dbStore H e) prov (pSubject p) db = Inl ErrNotFound"
    using new sm'(1) by (simp add: dbStore_def IdentityBySubject_calm)
  have fresh: "(prov, pSubject p) \<notin> set (map (\<lambda>j. (iProvider j, iSubject j)) (identities db))"
    using new by (auto simp: select_one_None)
  have own: "owner_of (dbStore H e) p db = Inr ow"
    using owner_of_calm [of e H p db] sm'(2) ow by simp
  show ?thesis
  proof (cases ow)
    case None
    obtain u j db' where "CreateUserWithIdentity H (e ''CreateUserWithIdentity'') (pEmail p)
        (pEmailVerified p) (identity_of [] prov p) db = (Inr (u, j), db')"
      and "uID u = uid (e ''CreateUserWithIdentity'') 0"
      using CreateUserWithIdentity_calm [OF sm'(5,7) free [OF None] sm'(8),
          of "identity_of [] prov p" "pEmailVerified p"] fresh
      unfolding identity_of_def by auto
    then show ?thesis
      using None find own sub by (simp add: Resolve_def dbStore_def outcome_def)
  next
    case (Some u)
    have "u \<in> set (users db)" using ow Some select_one_Some by metis
    then have "identity_ok db (with_profile ((identity_of [] prov p)\<lparr>iUserID := uID u,
        iID := uid (e ''CreateIdentity'') 0\<rparr>))"
      using fresh sm'(6) by (auto simp: identity_ok_def identity_of_def user_exists_def)
    then obtain j db' where "CreateIdentity (e ''CreateIdentity'')
        ((identity_of [] prov p)\<lparr>iUserID := uID u\<rparr>) db = (Inr j, db')"
      using CreateIdentity_calm [OF sm'(4)] by fastforce
    then show ?thesis
      using Some find own sub by (simp add: Resolve_def dbStore_def outcome_def)
  qed
qed

section \<open>Rows and runs\<close>

lemma Resolve_rows:
  assumes "Resolve (dbStore H e) prov p db = (r, db')"
  shows "\<exists>us ids. db' = db\<lparr>users := users db @ us, identities := identities db @ ids\<rparr> \<and>
    ((\<forall>q. r = Inr q \<longrightarrow> resOutcome q \<noteq> OutcomeCreated) \<longrightarrow> us = [])"
proof (cases "db' = db")
  case True
  then show ?thesis by (intro exI [of _ "[]"]) simp
next
  case False
  then consider i j where "CreateIdentity (e ''CreateIdentity'') i db = (Inr j, db')"
    | i m v u j where "CreateUserWithIdentity H (e ''CreateUserWithIdentity'') m v i db = (Inr (u, j), db')"
      "r = Inr \<lparr>resUser = u, resOutcome = OutcomeCreated\<rparr>"
    using assms
    by (auto simp: Resolve_def dbStore_def dest: CreateIdentity_Inl CreateUserWithIdentity_Inl
        split: if_splits sum.splits prod.splits option.splits)
  then show ?thesis
  proof cases
    case 1
    then show ?thesis using CreateIdentity_Inr(3) [OF 1]
      by (intro exI [of _ "[]"] exI [of _ "[j]"]) simp
  next
    case 2
    then show ?thesis using CreateUserWithIdentity_Inr(9) [OF 2(1)]
      by (intro exI [of _ "[u]"] exI [of _ "[j]"]) simp
  qed
qed

lemma LinkToUser_rows:
  assumes "LinkToUser (dbStore H e) userID prov p db = (r, db')"
  shows "\<exists>ids. db' = db\<lparr>identities := identities db @ ids\<rparr>"
proof (cases "db' = db")
  case True
  then show ?thesis by (intro exI [of _ "[]"]) simp
next
  case False
  then obtain i j where "CreateIdentity (e ''CreateIdentity'') i db = (Inr j, db')"
    using assms
    by (auto simp: LinkToUser_def dbStore_def dest: CreateIdentity_Inl
        split: if_splits sum.splits prod.splits)
  then show ?thesis using CreateIdentity_Inr(3) by fastforce
qed

lemma LinkToUser_users: "LinkToUser (dbStore H e) userID prov p db = (r, db') \<Longrightarrow> users db' = users db"
  using LinkToUser_rows by fastforce

text \<open>A run of logins and links by anyone.\<close>

datatype link_call =
    CallResolve "string \<Rightarrow> opctx" string Profile
  | CallLink "string \<Rightarrow> opctx" string string Profile

fun apply_call :: "lib \<Rightarrow> link_call \<Rightarrow> DB \<Rightarrow> DB" where
  "apply_call H (CallResolve e provider p) db = snd (Resolve (dbStore H e) provider p db)"
| "apply_call H (CallLink e userID provider p) db = snd (LinkToUser (dbStore H e) userID provider p db)"

definition run_calls :: "lib \<Rightarrow> link_call list \<Rightarrow> DB \<Rightarrow> DB" where
  "run_calls H cs db = fold (apply_call H) cs db"

lemma apply_call_keep:
  assumes "db_ok H db"
  shows "db_ok H (apply_call H c db) \<and> set (identities db) \<subseteq> set (identities (apply_call H c db)) \<and>
    set (users db) \<subseteq> set (users (apply_call H c db))"
proof (cases c)
  case (CallResolve e prov p)
  then show ?thesis
    using links.Resolve_inv [OF assms prod.collapse [symmetric]]
      links.Resolve_frame [OF prod.collapse [symmetric]] by simp
next
  case (CallLink e k prov p)
  then show ?thesis
    using links.LinkToUser_inv [OF assms prod.collapse [symmetric]]
      links.LinkToUser_frame [OF prod.collapse [symmetric]] LinkToUser_users [OF prod.collapse [symmetric]] by simp
qed

lemma run_calls_keep:
  "db_ok H db \<Longrightarrow> db_ok H (run_calls H cs db) \<and> set (identities db) \<subseteq> set (identities (run_calls H cs db)) \<and>
   set (users db) \<subseteq> set (users (run_calls H cs db))"
proof (induction cs arbitrary: db)
  case (Cons c cs)
  note one = apply_call_keep [OF Cons.prems, of c]
  with Cons.IH [of "apply_call H c db"] show ?case by (simp add: run_calls_def) (meson subset_trans)
qed (simp add: run_calls_def)

text \<open>A bound subject resolves to the account it is bound to, whatever the profile says beside it, when
  neither of the two queries fails.\<close>

lemma Resolve_binding:
  assumes ok: "db_ok H db" and i: "i \<in> set (identities db)" "pSubject p = iSubject i" "pSubject p \<noteq> []"
    and u: "u \<in> set (users db)" "uID u = iUserID i"
    and calm: "\<not> flt (e ''IdentityBySubject'') 0" "\<not> flt (e ''UserByID'') 0"
  shows "Resolve (dbStore H e) (iProvider i) p db = (Inr \<lparr>resUser = u, resOutcome = OutcomeExisting\<rparr>, db)"
proof -
  have "select_one (\<lambda>j. (iProvider j, iSubject j) = (iProvider i, iSubject i)) (identities db) = Some i"
    using select_one_unique [of "\<lambda>j. (iProvider j, iSubject j)" "identities db" i] ok i(1) by (simp add: db_ok_def)
  moreover have "select_one (\<lambda>v. uID v = iUserID i) (users db) = Some u"
    using select_one_unique [of uID "users db" u] ok u by (simp add: db_ok_def)
  ultimately show ?thesis
    using i(2,3) calm
    by (simp add: Resolve_def dbStore_def IdentityBySubject_calm UserByID_def scanUser_def norows_def)
qed

section \<open>Properties\<close>

text \<open>Accounts and profiles for the witnesses.\<close>

definition ann :: User where
  "ann = \<lparr>uID = ''A'', uEmail = ''ann@x.io'', uEmailVerifiedAt = Some 1, uPasswordHash = None,
     uCreatedAt = 1, uUpdatedAt = 1, uDisabledAt = None\<rparr>"

definition ann_google :: Profile where
  "ann_google = \<lparr>pSubject = ''g1'', pEmail = ''ann@x.io'', pEmailVerified = True, pName = [],
     pAvatar = [], pRaw = None\<rparr>"

definition ann_link :: Identity where
  "ann_link = \<lparr>iID = ''I'', iUserID = ''A'', iProvider = ''google'', iSubject = ''g1'',
     iEmail = ''ann@x.io'', iEmailVerified = True, iRawProfile = Some ''{}''\<rparr>"

definition ann_db :: DB where
  "ann_db = empty_db\<lparr>users := [ann]\<rparr>"

definition linked_db :: DB where
  "linked_db = ann_db\<lparr>identities := [ann_link]\<rparr>"

definition quiet :: "string \<Rightarrow> opctx" where
  "quiet _ = calm 5 ''I'' CHR ''r''"

lemmas linking_examples =
  ann_def ann_google_def ann_link_def ann_db_def linked_db_def empty_db_def quiet_def EmailVerified_def
  dbStore_def Resolve_def LinkToUser_def owner_of_def identity_of_def IdentityBySubject_def
  UserByEmail_def UserByID_def scanUser_def norows_def CreateIdentity_def identity_ok_def
  user_exists_def with_profile_def Let_def

lemma ann_links:
  "Resolve (dbStore plain quiet) ''google'' ann_google ann_db =
     (Inr \<lparr>resUser = ann, resOutcome = OutcomeLinked\<rparr>, linked_db)"
  by (simp add: linking_examples)

lemma ann_known:
  "Resolve (dbStore plain quiet) ''google'' ann_google linked_db =
     (Inr \<lparr>resUser = ann, resOutcome = OutcomeExisting\<rparr>, linked_db)"
  by (simp add: linking_examples)

lemma db_ok_linked: "db_ok plain linked_db"
  by (simp add: linking_examples db_ok_def)

text \<open>C1: an OAuth login is attached to an existing account only when the provider vouches for
  the address and the account has verified that same address; the account is one the store already
  held, and the only row that appears is the identity that binds the provider's subject to it.\<close>

theorem link_requires_both_verified:
  assumes "Resolve (dbStore H e) provider p db = (Inr r, db')" and "resOutcome r = OutcomeLinked"
  shows "pEmailVerified p \<and> EmailVerified (resUser r) \<and> resUser r \<in> set (users db) \<and>
    pEmail p \<noteq> [] \<and> citext H (uEmail (resUser r)) = citext H (pEmail p) \<and>
    users db' = users db \<and>
    (\<exists>i. set (identities db') = insert i (set (identities db)) \<and> iProvider i = provider \<and>
       iSubject i = pSubject p \<and> iUserID i = uID (resUser r))"
proof -
  from assms(1) have "users db' = users db"
    using assms(2) Resolve_rows [OF assms(1)] by auto
  with assms show ?thesis by (cases rule: links.Resolve_cases) auto
qed

theorem link_requires_both_verified_witness:
  "pEmailVerified ann_google \<and> EmailVerified ann \<and> ann \<in> set (users ann_db)"
  using link_requires_both_verified [OF ann_links] by simp

text \<open>C6: when no statement fails, \<open>Resolve\<close> takes exactly the branch of the decision table: a
  known subject gives its account, an unclaimed address a new account, a claimed one the link when
  both sides verified it and the refusal otherwise.\<close>

theorem resolve_decision_table:
  assumes "db_ok H db" and "smooth e db" and "pSubject p \<noteq> []"
    and "pEmail p = [] \<longrightarrow> (\<forall>u \<in> set (users db). citext H (uEmail u) \<noteq> citext H [])"
  shows "outcome (fst (Resolve (dbStore H e) provider p db)) =
    verdict H (uid (e ''CreateUserWithIdentity'') 0) provider p db"
proof (cases "select_one (\<lambda>i. (iProvider i, iSubject i) = (provider, pSubject p)) (identities db)")
  case (Some i)
  then show ?thesis using Resolve_known assms(1,2,3) by (simp add: verdict_def)
next
  case None
  let ?P = "\<lambda>u. pEmail p \<noteq> [] \<and> citext H (uEmail u) = citext H (pEmail p)"
  have "select_one ?P (users db) = None \<Longrightarrow>
      citext H (pEmail p) \<notin> set (map (citext H \<circ> uEmail) (users db))"
    using assms(4) by (cases "pEmail p = []") (auto simp: select_one_None)
  then show ?thesis
    using Resolve_unknown [OF assms(1,2,3) None refl] None by (simp add: verdict_def)
qed

theorem resolve_decision_table_witness:
  "outcome (fst (Resolve (dbStore plain quiet) ''google'' ann_google ann_db)) = Inr (OutcomeLinked, ''A'') \<and>
   outcome (fst (Resolve (dbStore plain quiet) ''google'' (ann_google\<lparr>pEmailVerified := False\<rparr>) ann_db))
     = Inl ErrManualLinkRequired"
proof -
  have ok: "db_ok plain ann_db" "smooth quiet ann_db"
    by (simp_all add: linking_examples db_ok_def smooth_def)
  show ?thesis
    using resolve_decision_table [OF ok, of ann_google "''google''"]
      resolve_decision_table [OF ok, of "ann_google\<lparr>pEmailVerified := False\<rparr>" "''google''"]
    by (simp add: linking_examples verdict_def)
qed

text \<open>\<open>Resolve\<close> only ever adds rows to \<open>users\<close> and \<open>identities\<close>: no account is changed, no
  identity is moved or dropped, no other table is touched, the integrity constraints hold
  afterwards, and a refusal or an error leaves the database as it was.\<close>

theorem resolve_only_adds:
  assumes "Resolve (dbStore H e) provider p db = (r, db')"
  shows "(\<exists>us ids. db' = db\<lparr>users := users db @ us, identities := identities db @ ids\<rparr>) \<and>
    (db_ok H db \<longrightarrow> db_ok H db') \<and> ((\<exists>x. r = Inl x) \<longrightarrow> db' = db)"
  using assms Resolve_rows [OF assms] links.Resolve_inv links.Resolve_fail by blast

theorem resolve_only_adds_witness:
  "\<exists>us ids. linked_db = ann_db\<lparr>users := users ann_db @ us, identities := identities ann_db @ ids\<rparr>"
  using resolve_only_adds [OF ann_links] by blast

text \<open>C17: a provider subject that is bound to an account keeps resolving to that account: after any run
  of logins and links, with whatever profiles and whatever failures, a login with it, whatever address
  the provider shows and whether or not it vouches for it, is answered with the account's row when
  neither query fails; and when one fails it is an error and never another account.\<close>

theorem binding_is_stable:
  assumes "db_ok H db" and "i \<in> set (identities db)" and "pSubject p = iSubject i"
  shows "(pSubject p \<noteq> [] \<and> \<not> flt (e ''IdentityBySubject'') 0 \<and> \<not> flt (e ''UserByID'') 0 \<longrightarrow>
      (\<exists>u \<in> set (users db). uID u = iUserID i \<and> Resolve (dbStore H e) (iProvider i) p (run_calls H cs db) =
        (Inr \<lparr>resUser = u, resOutcome = OutcomeExisting\<rparr>, run_calls H cs db))) \<and>
    (\<forall>r db'. Resolve (dbStore H e) (iProvider i) p (run_calls H cs db) = (Inr r, db') \<longrightarrow>
      resOutcome r = OutcomeExisting \<and> uID (resUser r) = iUserID i \<and> db' = run_calls H cs db)"
proof (intro conjI impI allI)
  have kept: "db_ok H (run_calls H cs db)" "i \<in> set (identities (run_calls H cs db))"
    "set (users db) \<subseteq> set (users (run_calls H cs db))"
    using run_calls_keep [OF assms(1), of cs] assms(2) by auto
  show "\<exists>u \<in> set (users db). uID u = iUserID i \<and> Resolve (dbStore H e) (iProvider i) p (run_calls H cs db) =
      (Inr \<lparr>resUser = u, resOutcome = OutcomeExisting\<rparr>, run_calls H cs db)"
    if calm: "pSubject p \<noteq> [] \<and> \<not> flt (e ''IdentityBySubject'') 0 \<and> \<not> flt (e ''UserByID'') 0"
  proof -
    obtain u where "u \<in> set (users db)" "uID u = iUserID i"
      using assms(1,2) by (auto simp: db_ok_def user_exists_def)
    with Resolve_binding [OF kept(1,2) assms(3)] kept(3) calm show ?thesis by blast
  qed
  fix r db'
  assume "Resolve (dbStore H e) (iProvider i) p (run_calls H cs db) = (Inr r, db')"
  from links.Resolve_bound [OF kept(1,2) this assms(3)]
  show "resOutcome r = OutcomeExisting" "uID (resUser r) = iUserID i" "db' = run_calls H cs db" by simp_all
qed

text \<open>Ann's account at the provider later shows another address, for which it does not vouch.\<close>

theorem binding_is_stable_witness:
  "Resolve (dbStore plain quiet) ''google'' (ann_google\<lparr>pEmail := ''eve@x.io'', pEmailVerified := False\<rparr>)
     (run_calls plain [CallResolve quiet ''google'' ann_google, CallLink quiet ''B'' ''google'' ann_google] linked_db) =
   (Inr \<lparr>resUser = ann, resOutcome = OutcomeExisting\<rparr>, linked_db)"
proof -
  let ?cs = "[CallResolve quiet ''google'' ann_google, CallLink quiet ''B'' ''google'' ann_google]"
  let ?p = "ann_google\<lparr>pEmail := ''eve@x.io'', pEmailVerified := False\<rparr>"
  have run: "run_calls plain ?cs linked_db = linked_db"
    by (simp add: run_calls_def linking_examples)
  have "\<exists>u \<in> set (users linked_db). uID u = iUserID ann_link \<and>
      Resolve (dbStore plain quiet) (iProvider ann_link) ?p (run_calls plain ?cs linked_db) =
        (Inr \<lparr>resUser = u, resOutcome = OutcomeExisting\<rparr>, run_calls plain ?cs linked_db)"
    by (rule binding_is_stable [OF db_ok_linked, THEN conjunct1, rule_format])
      (simp_all add: linked_db_def ann_link_def ann_google_def quiet_def)
  then show ?thesis unfolding run by (simp add: linked_db_def ann_db_def ann_link_def)
qed

text \<open>A new account carries the profile's address, starts verified only if the provider vouched
  for it, has no password, and no other account held its id or its address.\<close>

theorem created_account_is_new:
  assumes "Resolve (dbStore H e) provider p db = (Inr r, db')" and "resOutcome r = OutcomeCreated"
  shows "uEmail (resUser r) = pEmail p \<and> EmailVerified (resUser r) = pEmailVerified p \<and>
    uPasswordHash (resUser r) = None \<and> resUser r \<in> set (users db') \<and>
    (\<forall>w \<in> set (users db). uID w \<noteq> uID (resUser r) \<and> citext H (uEmail w) \<noteq> citext H (pEmail p))"
  using assms by (cases rule: links.Resolve_cases) auto

theorem created_account_is_new_witness:
  "\<exists>r db'. Resolve (dbStore plain quiet) ''google'' ann_google empty_db = (Inr r, db') \<and>
     EmailVerified (resUser r) \<and> resUser r \<in> set (users db')"
proof -
  let ?u = "\<lparr>uID = ''I'', uEmail = ''ann@x.io'', uEmailVerifiedAt = Some 5, uPasswordHash = None,
     uCreatedAt = 5, uUpdatedAt = 5, uDisabledAt = None\<rparr>"
  have run: "fst (Resolve (dbStore plain quiet) ''google'' ann_google empty_db) =
      Inr \<lparr>resUser = ?u, resOutcome = OutcomeCreated\<rparr>"
    by (simp add: linking_examples CreateUserWithIdentity_def user_ok_def)
  then obtain db' where eq: "Resolve (dbStore plain quiet) ''google'' ann_google empty_db =
      (Inr \<lparr>resUser = ?u, resOutcome = OutcomeCreated\<rparr>, db')"
    by (metis prod.collapse)
  then show ?thesis using created_account_is_new [OF eq] by (auto simp: ann_google_def)
qed

text \<open>Linking from settings never takes an identity from its holder: if another account holds
  the provider's subject the call is refused and nothing changes; if it succeeds the identity is the
  caller's and every binding that existed is still there.\<close>

theorem link_never_steals:
  assumes "db_ok H db" and "LinkToUser (dbStore H e) userID provider p db = (r, db')"
  shows "(\<forall>i \<in> set (identities db). iProvider i = provider \<and> iSubject i = pSubject p \<and>
      iUserID i \<noteq> userID \<longrightarrow> (\<exists>x. r = Inl x) \<and> db' = db) \<and>
    (\<forall>j. r = Inr j \<longrightarrow> j \<in> set (identities db') \<and> iUserID j = userID \<and> iProvider j = provider \<and>
      iSubject j = pSubject p) \<and>
    set (identities db) \<subseteq> set (identities db') \<and> users db' = users db \<and> db_ok H db'"
proof (intro conjI ballI impI allI)
  fix i assume "i \<in> set (identities db)" "iProvider i = provider \<and> iSubject i = pSubject p \<and> iUserID i \<noteq> userID"
  then show "\<exists>x. r = Inl x" "db' = db"
    using links.LinkToUser_held [OF assms(1), of i userID p e r db'] assms(2) by auto
next
  fix j assume "r = Inr j"
  with assms(2) have "LinkToUser (dbStore H e) userID provider p db = (Inr j, db')" by simp
  then show "j \<in> set (identities db')" "iUserID j = userID" "iProvider j = provider"
    "iSubject j = pSubject p"
    by (cases rule: links.LinkToUser_cases; simp)+
next
  show "set (identities db) \<subseteq> set (identities db')" using links.LinkToUser_frame [OF assms(2)] by blast
next
  show "users db' = users db" using LinkToUser_users [OF assms(2)] .
next
  show "db_ok H db'" using links.LinkToUser_inv [OF assms] .
qed

theorem link_never_steals_witness:
  "fst (LinkToUser (dbStore plain quiet) ''B'' ''google'' ann_google linked_db) = Inl ErrAlreadyLinkedElsewhere \<and>
   snd (LinkToUser (dbStore plain quiet) ''B'' ''google'' ann_google linked_db) = linked_db"
proof -
  let ?c = "LinkToUser (dbStore plain quiet) ''B'' ''google'' ann_google linked_db"
  have "fst ?c = Inl ErrAlreadyLinkedElsewhere" by (simp add: linking_examples)
  moreover have "snd ?c = linked_db"
    using link_never_steals [OF db_ok_linked, of quiet "''B''" "''google''" ann_google "fst ?c" "snd ?c"]
    by (simp add: linked_db_def ann_link_def ann_google_def)
  ultimately show ?thesis by simp
qed

end
