(* ===== verification/Password.thy ===== *)
theory Password
  imports Store GoStrings
begin

text \<open>
  \<open>internal/password\<close>: argon2id hashes in the PHC string format, the printing and the parsing of
  it. \<open>argon2.IDKey\<close> is the function \<open>argon2\<close> of \<open>lib\<close>.
\<close>

section \<open>The code\<close>

record Params =
  pmMemory :: nat
  pmTime :: nat
  pmParallelism :: nat
  pmSaltLen :: nat
  pmKeyLen :: nat

definition DefaultParams :: Params where
  "DefaultParams = \<lparr>pmMemory = 64 * 1024, pmTime = 3, pmParallelism = 2, pmSaltLen = 16, pmKeyLen = 32\<rparr>"

text \<open>\<open>argon2.Version\<close>.\<close>

definition Version :: nat where
  "Version = 19"

datatype password_error =
    RandFails
  | ErrInvalidHash
  | UnsupportedVersion int
  | Argon2Panics

definition encode :: "Params \<Rightarrow> string \<Rightarrow> string \<Rightarrow> string" where
  "encode p salt key =
     ''$argon2id$v='' @ digits Version @ ''$m='' @ digits (pmMemory p) @ '',t='' @ digits (pmTime p) @
     '',p='' @ digits (pmParallelism p) @ ''$'' @ EncodeToString std_alphabet salt @ ''$'' @
     EncodeToString std_alphabet key"

definition HashWithParams :: "lib \<Rightarrow> opctx \<Rightarrow> string \<Rightarrow> Params \<Rightarrow> password_error + string" where
  "HashWithParams H x plain_text p =
     (case rand_read x 0 (pmSaltLen p) of
        None \<Rightarrow> Inl RandFails
      | Some salt \<Rightarrow>
          (case argon2 H plain_text salt (pmTime p) (pmMemory p) (pmParallelism p) (pmKeyLen p) of
             None \<Rightarrow> Inl Argon2Panics
           | Some key \<Rightarrow> Inr (encode p salt key)))"

definition Hash :: "lib \<Rightarrow> opctx \<Rightarrow> string \<Rightarrow> password_error + string" where
  "Hash H x plain_text = HashWithParams H x plain_text DefaultParams"

definition version_format :: "verb list" where
  "version_format = [Lit CHR ''v'', Lit CHR ''='', DInt]"

definition params_format :: "verb list" where
  "params_format = [Lit CHR ''m'', Lit CHR ''='', DUint 32, Lit CHR '','', Lit CHR ''t'', Lit CHR ''='',
     DUint 32, Lit CHR '','', Lit CHR ''p'', Lit CHR ''='', DUint 8]"

definition Verify :: "lib \<Rightarrow> string \<Rightarrow> string \<Rightarrow> password_error + bool" where
  "Verify H encoded plain_text =
     (let parts = Split encoded CHR ''$'' in
      if length parts \<noteq> 6 \<or> parts ! 0 \<noteq> [] \<or> parts ! 1 \<noteq> ''argon2id'' then Inl ErrInvalidHash
      else case Sscanf version_format (parts ! 2) of
        None \<Rightarrow> Inl ErrInvalidHash
      | Some vs \<Rightarrow>
          if vs ! 0 \<noteq> int Version then Inl (UnsupportedVersion (vs ! 0))
          else case Sscanf params_format (parts ! 3) of
            None \<Rightarrow> Inl ErrInvalidHash
          | Some ps \<Rightarrow>
              (case DecodeStrict std_alphabet (parts ! 4) of
                 None \<Rightarrow> Inl ErrInvalidHash
               | Some salt \<Rightarrow>
                   (case DecodeStrict std_alphabet (parts ! 5) of
                      None \<Rightarrow> Inl ErrInvalidHash
                    | Some want \<Rightarrow>
                        (case argon2 H plain_text salt (nat (ps ! 1)) (nat (ps ! 0)) (nat (ps ! 2))
                                (length want mod 2 ^ 32) of
                           None \<Rightarrow> Inl Argon2Panics
                         | Some got \<Rightarrow> Inr (got = want)))))"

section \<open>Reading back what was printed\<close>

lemma dollar_EncodeToString: "CHR ''$'' \<notin> set (EncodeToString std_alphabet bs)"
proof
  assume "CHR ''$'' \<in> set (EncodeToString std_alphabet bs)"
  with set_EncodeToString [OF std_alphabet, of bs] have "CHR ''$'' \<in> set std_alphabet" by (rule subsetD)
  then show False by (simp add: std_alphabet_def)
qed

lemma dollar_digits: "CHR ''$'' \<notin> set (digits v)"
proof
  assume "CHR ''$'' \<in> set (digits v)"
  with digits_chars [of v] have "is_digit CHR ''$''" by (simp add: list_all_iff)
  then show False by (simp add: is_digit_def)
qed

lemma Split_encode:
  "Split (encode p salt key) CHR ''$'' =
     [[], ''argon2id'', ''v='' @ digits Version,
      ''m='' @ digits (pmMemory p) @ '',t='' @ digits (pmTime p) @ '',p='' @ digits (pmParallelism p),
      EncodeToString std_alphabet salt, EncodeToString std_alphabet key]"
proof -
  have d: "CHR ''$'' \<notin> set (''v='' @ digits Version)" "CHR ''$'' \<notin> set (''m='' @ digits (pmMemory p) @
      '',t='' @ digits (pmTime p) @ '',p='' @ digits (pmParallelism p))"
    using dollar_digits by simp_all
  have e: "CHR ''$'' \<notin> set []" "CHR ''$'' \<notin> set ''argon2id''" by simp_all
  have "encode p salt key = [] @ CHR ''$'' # ''argon2id'' @ CHR ''$'' # (''v='' @ digits Version) @ CHR ''$'' #
      (''m='' @ digits (pmMemory p) @ '',t='' @ digits (pmTime p) @ '',p='' @ digits (pmParallelism p)) @
      CHR ''$'' # EncodeToString std_alphabet salt @ CHR ''$'' # EncodeToString std_alphabet key"
    by (simp add: encode_def)
  then show ?thesis
    by (simp only: Split_append [OF d(1)] Split_append [OF d(2)] Split_append [OF dollar_EncodeToString]
      Split_single [OF dollar_EncodeToString] Split_append [OF e(1)] Split_append [OF e(2)])
qed

lemma scan_version: "Sscanf version_format (''v='' @ digits Version) = Some [int Version]"
  using scan_int_digits [of "[]" Version] by (simp add: version_format_def Version_def)

lemma scan_params:
  assumes "pmMemory p < 2 ^ 32" "pmTime p < 2 ^ 32" "pmParallelism p < 2 ^ 8"
  shows "Sscanf params_format
      (''m='' @ digits (pmMemory p) @ '',t='' @ digits (pmTime p) @ '',p='' @ digits (pmParallelism p)) =
    Some [int (pmMemory p), int (pmTime p), int (pmParallelism p)]"
proof -
  have c: "\<not> is_digit CHR '',''" by (simp add: is_digit_def)
  show ?thesis
    using scan_uint_digits [of "'',t='' @ digits (pmTime p) @ '',p='' @ digits (pmParallelism p)", OF _ assms(1)]
      scan_uint_digits [of "'',p='' @ digits (pmParallelism p)", OF _ assms(2)]
      scan_uint_digits [of "[]", OF _ assms(3)] c
    by (simp add: params_format_def)
qed

lemma Verify_encode:
  assumes "pmMemory p < 2 ^ 32" "pmTime p < 2 ^ 32" "pmParallelism p < 2 ^ 8"
  shows "Verify H (encode p salt key) pw =
    (case argon2 H pw salt (pmTime p) (pmMemory p) (pmParallelism p) (length key mod 2 ^ 32) of
       None \<Rightarrow> Inl Argon2Panics
     | Some got \<Rightarrow> Inr (got = key))"
  using scan_params [OF assms] scan_version
  by (simp add: Verify_def Split_encode DecodeStrict_EncodeToString)

section \<open>Properties\<close>

text \<open>C22: a hash made with any parameters in the range of their types verifies with those parameters,
  whatever the current defaults: \<open>Verify\<close> is never an error about the format, accepts the password
  that was hashed, and accepts another one exactly when it derives the same key. Of argon2 only
  the documented length of its result is used.\<close>

theorem hash_verify_round_trip:
  assumes "HashWithParams H x pw p = Inr enc"
    and "pmMemory p < 2 ^ 32" and "pmTime p < 2 ^ 32" and "pmParallelism p < 2 ^ 8" and "pmKeyLen p < 2 ^ 32"
    and "\<And>w s t m n k key. argon2 H w s t m n k = Some key \<Longrightarrow> length key = k"
  shows "Verify H enc pw = Inr True \<and>
    (\<exists>salt. rand_read x 0 (pmSaltLen p) = Some salt \<and>
      (let kdf = (\<lambda>q. argon2 H q salt (pmTime p) (pmMemory p) (pmParallelism p) (pmKeyLen p))
       in \<forall>q. Verify H enc q = (if kdf q = None then Inl Argon2Panics else Inr (kdf q = kdf pw))))"
proof -
  obtain salt key where r: "rand_read x 0 (pmSaltLen p) = Some salt" "enc = encode p salt key"
    "argon2 H pw salt (pmTime p) (pmMemory p) (pmParallelism p) (pmKeyLen p) = Some key"
    using assms(1) by (auto simp: HashWithParams_def split: option.splits)
  have "length key = pmKeyLen p" using assms(6) r(3) .
  then have v: "Verify H enc q = (case argon2 H q salt (pmTime p) (pmMemory p) (pmParallelism p) (pmKeyLen p) of
      None \<Rightarrow> Inl Argon2Panics | Some got \<Rightarrow> Inr (got = key))" for q
    using Verify_encode [OF assms(2-4), of H salt key q] assms(5) r(2) by simp
  then show ?thesis using r(1,3) by (auto simp: Let_def split: option.split)
qed

theorem hash_verify_round_trip_witness:
  "\<exists>enc. Hash plain (calm 0 [] CHR ''s'') ''pw'' = Inr enc \<and> Verify plain enc ''pw'' = Inr True"
proof -
  let ?x = "calm 0 [] CHR ''s''"
  obtain enc where run: "HashWithParams plain ?x ''pw'' DefaultParams = Inr enc"
    by (simp add: HashWithParams_def rand_read_def)
  have "Verify plain enc ''pw'' = Inr True"
    using hash_verify_round_trip [OF run] by (auto simp: DefaultParams_def)
  with run show ?thesis by (simp add: Hash_def)
qed

text \<open>A string that is not six fields separated by dollars, the first empty and the second
  \<open>argon2id\<close>, is refused as malformed, whatever the password: an empty or a foreign hash never verifies.\<close>

theorem foreign_hash_refused:
  assumes "\<not> (\<exists>v ps s k. Split enc CHR ''$'' = [[], ''argon2id'', v, ps, s, k])"
  shows "Verify H enc pw = Inl ErrInvalidHash"
proof -
  let ?parts = "Split enc CHR ''$''"
  have "length ?parts \<noteq> 6 \<or> ?parts ! 0 \<noteq> [] \<or> ?parts ! 1 \<noteq> ''argon2id''"
  proof (rule ccontr)
    assume a: "\<not> ?thesis"
    then have "length ?parts = Suc (Suc (Suc (Suc (Suc (Suc 0)))))" by simp
    then obtain a b c d e f where "?parts = [a, b, c, d, e, f]"
      by (auto simp: length_Suc_conv)
    with a assms show False by simp
  qed
  then show ?thesis by (simp add: Verify_def Let_def)
qed

theorem foreign_hash_refused_witness: "Verify plain [] [] = Inl ErrInvalidHash"
  by (rule foreign_hash_refused) simp

end
