(* ===== verification/Token.thy ===== *)
theory Token
  imports Store Json
begin

text \<open>
  \<open>internal/token\<close>: signing keys and access tokens. (\<open>NewRefreshToken\<close> and \<open>HashRefresh\<close> are in
  \<open>Store\<close>.) The JWT library \<open>lestrrat-go/jwx\<close> and Ed25519 are outside the program: the record
  \<open>jwx\<close> holds what the code calls of them, and a theorem that needs one of their documented laws
  names it as a hypothesis.
\<close>

section \<open>What the code calls of its libraries\<close>

text \<open>A key set member; \<open>kPrivate\<close> is \<open>None\<close> for a public half.\<close>

record Key =
  kID :: string
  kAlg :: string
  kUse :: string
  kPublic :: string
  kPrivate :: "string option"

text \<open>The content of a token.\<close>

record jwt =
  jIssuer :: string
  jSubject :: string
  jAudience :: "string list"
  jID :: string
  jIssuedAt :: instant
  jExpiration :: instant
  jPrivate :: "(string \<times> json) list"

text \<open>
  \<open>ed_public\<close>: the public key of a seed; \<open>jwk_ok\<close>: \<open>jwk.FromRaw\<close>, \<open>Set\<close> and \<open>PublicKey\<close> succeed
  on a private key; \<open>add_key\<close>: \<open>jwk.Set.AddKey\<close>; \<open>jwt_sign\<close>: \<open>Build\<close> and \<open>jwt.Sign\<close>;
  \<open>jwt_parse\<close> (key set, issuer, audience, clock): \<open>jwt.Parse\<close> with its options; \<open>jwt_insecure\<close>:
  \<open>jwt.ParseInsecure\<close>.
\<close>

record jwx =
  ed_public :: "string \<Rightarrow> string"
  jwk_ok :: "string \<Rightarrow> bool"
  add_key :: "Key list \<Rightarrow> Key \<Rightarrow> Key list option"
  jwt_sign :: "jwt \<Rightarrow> Key \<Rightarrow> string option"
  jwt_parse :: "Key list \<Rightarrow> string \<Rightarrow> string \<Rightarrow> instant \<Rightarrow> string \<Rightarrow> jwt option"
  jwt_insecure :: "string \<Rightarrow> jwt option"

section \<open>Keys and the signer\<close>

record Config =
  cfIssuer :: string
  cfAccessTTL :: duration
  cfPrivateKey :: string
  cfNextKey :: string

record Claims =
  clSubject :: string
  clAudience :: string
  clSessionID :: string
  clJTI :: string
  clEmail :: string
  clEmailVerified :: bool
  clRoles :: "string list"
  clIssuedAt :: instant
  clExpiresAt :: instant

record Signer =
  sgIssuer :: string
  sgTTL :: duration
  sgSignKey :: Key
  sgPubSet :: "Key list"

datatype token_error =
    KeyRequired
  | NotBase64
  | BadLength nat
  | LibraryFails
  | PrivateKeyInvalid token_error
  | NextKeyInvalid token_error

definition key_bytes :: "string \<Rightarrow> string option" where
  "key_bytes s =
     (case DecodePadded std_alphabet s of
        Some raw \<Rightarrow> Some raw
      | None \<Rightarrow> DecodeRaw url_alphabet s)"

text \<open>A seed is expanded, a full private key carries its public half in its last 32 bytes.\<close>

definition parseKey :: "lib \<Rightarrow> jwx \<Rightarrow> string \<Rightarrow> token_error + Key" where
  "parseKey H W s =
     (case key_bytes s of
        None \<Rightarrow> Inl NotBase64
      | Some raw \<Rightarrow>
          if length raw \<noteq> 32 \<and> length raw \<noteq> 64 then Inl (BadLength (length raw))
          else
            let priv = (if length raw = 32 then raw @ ed_public W raw else raw);
                pub = drop 32 priv
            in if \<not> jwk_ok W priv then Inl LibraryFails
               else Inr \<lparr>kID = EncodeToString url_alphabet (take 8 (sha256 H pub)), kAlg = ''EdDSA'',
                      kUse = [], kPublic = pub, kPrivate = Some priv\<rparr>)"

definition public_half :: "Key \<Rightarrow> Key" where
  "public_half k = k\<lparr>kPrivate := None, kUse := ''sig''\<rparr>"

definition addPublic :: "jwx \<Rightarrow> Key list \<Rightarrow> Key \<Rightarrow> token_error + Key list" where
  "addPublic W ks k =
     (case add_key W ks (public_half k) of None \<Rightarrow> Inl LibraryFails | Some ks' \<Rightarrow> Inr ks')"

definition NewSigner :: "lib \<Rightarrow> jwx \<Rightarrow> Config \<Rightarrow> token_error + Signer" where
  "NewSigner H W c =
     (if cfPrivateKey c = [] then Inl KeyRequired
      else
        let ttl = (if cfAccessTTL c \<le> 0 then hour else cfAccessTTL c) in
        case parseKey H W (cfPrivateKey c) of
          Inl e \<Rightarrow> Inl (PrivateKeyInvalid e)
        | Inr signKey \<Rightarrow>
            (case addPublic W [] signKey of
               Inl e \<Rightarrow> Inl e
             | Inr ks \<Rightarrow>
                 if cfNextKey c = [] then
                   Inr \<lparr>sgIssuer = cfIssuer c, sgTTL = ttl, sgSignKey = signKey, sgPubSet = ks\<rparr>
                 else
                   (case parseKey H W (cfNextKey c) of
                      Inl e \<Rightarrow> Inl (NextKeyInvalid e)
                    | Inr nextKey \<Rightarrow>
                        (case addPublic W ks nextKey of
                           Inl e \<Rightarrow> Inl e
                         | Inr ks' \<Rightarrow>
                             Inr \<lparr>sgIssuer = cfIssuer c, sgTTL = ttl, sgSignKey = signKey,
                               sgPubSet = ks'\<rparr>))))"

definition AccessTTL :: "Signer \<Rightarrow> duration" where
  "AccessTTL S = sgTTL S"

definition JWKS :: "Signer \<Rightarrow> Key list" where
  "JWKS S = sgPubSet S"

section \<open>Access tokens\<close>

definition access_jwt :: "Signer \<Rightarrow> opctx \<Rightarrow> Claims \<Rightarrow> jwt" where
  "access_jwt S x c =
     (let now = clk x 0;
          jti = (if clJTI c = [] then uid x 0 else clJTI c)
      in \<lparr>jIssuer = sgIssuer S, jSubject = clSubject c, jAudience = [clAudience c], jID = jti,
          jIssuedAt = now, jExpiration = now + sgTTL S,
          jPrivate = [(''sid'', JStr (clSessionID c)), (''email'', JStr (clEmail c)),
            (''email_verified'', JBool (clEmailVerified c)),
            (''roles'', JArr (map JStr (clRoles c)))]\<rparr>)"

definition SignAccess :: "jwx \<Rightarrow> Signer \<Rightarrow> opctx \<Rightarrow> Claims \<Rightarrow> token_error + string" where
  "SignAccess W S x c =
     (case jwt_sign W (access_jwt S x c) (sgSignKey S) of
        None \<Rightarrow> Inl LibraryFails
      | Some raw \<Rightarrow> Inr raw)"

text \<open>Reading a claim: absent or of another type is the zero value.\<close>

definition str_claim :: "jwt \<Rightarrow> string \<Rightarrow> string" where
  "str_claim t n = (case map_of (jPrivate t) n of Some (JStr s) \<Rightarrow> s | _ \<Rightarrow> [])"

definition bool_claim :: "jwt \<Rightarrow> string \<Rightarrow> bool" where
  "bool_claim t n = (case map_of (jPrivate t) n of Some (JBool b) \<Rightarrow> b | _ \<Rightarrow> False)"

definition roles_claim :: "jwt \<Rightarrow> string list" where
  "roles_claim t =
     (case map_of (jPrivate t) ''roles'' of
        Some (JArr vs) \<Rightarrow> concat (map (\<lambda>v. case v of JStr s \<Rightarrow> [s] | _ \<Rightarrow> []) vs)
      | _ \<Rightarrow> [])"

definition claims_of :: "jwt \<Rightarrow> Claims" where
  "claims_of t =
     \<lparr>clSubject = jSubject t, clAudience = (case jAudience t of [] \<Rightarrow> [] | a # _ \<Rightarrow> a),
      clSessionID = str_claim t ''sid'', clJTI = jID t, clEmail = str_claim t ''email'',
      clEmailVerified = bool_claim t ''email_verified'', clRoles = roles_claim t,
      clIssuedAt = jIssuedAt t, clExpiresAt = jExpiration t\<rparr>"

definition VerifyAccess :: "jwx \<Rightarrow> Signer \<Rightarrow> instant \<Rightarrow> string \<Rightarrow> string \<Rightarrow> Claims option" where
  "VerifyAccess W S now raw audience =
     map_option claims_of (jwt_parse W (sgPubSet S) (sgIssuer S) audience now raw)"

definition PeekAudience :: "jwx \<Rightarrow> string \<Rightarrow> string option" where
  "PeekAudience W raw =
     (case jwt_insecure W raw of
        None \<Rightarrow> None
      | Some t \<Rightarrow> (case jAudience t of [] \<Rightarrow> None | a # _ \<Rightarrow> Some a))"

section \<open>Facts\<close>

lemma claims_of_access:
  "claims_of (access_jwt S x c) =
     c\<lparr>clJTI := (if clJTI c = [] then uid x 0 else clJTI c), clIssuedAt := clk x 0,
       clExpiresAt := clk x 0 + sgTTL S\<rparr>"
  by (cases c) (simp add: claims_of_def access_jwt_def str_claim_def bool_claim_def roles_claim_def
      Let_def comp_def)

lemma parseKey_Inr:
  assumes "parseKey H W s = Inr k"
  shows "kID k = EncodeToString url_alphabet (take 8 (sha256 H (kPublic k)))"
    and "\<exists>priv. kPrivate k = Some priv \<and> kPublic k = drop 32 priv"
  using assms by (auto simp: parseKey_def Let_def split: option.splits if_splits)

lemma NewSigner_Inr:
  assumes "NewSigner H W c = Inr S"
  shows "cfPrivateKey c \<noteq> []" "sgIssuer S = cfIssuer c" "0 < sgTTL S"
    "parseKey H W (cfPrivateKey c) = Inr (sgSignKey S)"
    "\<exists>ks. add_key W [] (public_half (sgSignKey S)) = Some ks \<and>
      (if cfNextKey c = [] then sgPubSet S = ks
       else \<exists>n. parseKey H W (cfNextKey c) = Inr n \<and> add_key W ks (public_half n) = Some (sgPubSet S))"
  using assms
  by (auto simp: NewSigner_def addPublic_def Let_def split: if_splits sum.splits option.splits)

section \<open>Documented laws of the JWT library\<close>

text \<open>A token the library signed verifies under any set that holds the public half of the key, for
  its issuer and each of its audiences, while it is in force; dates travel in whole seconds.\<close>

definition in_force :: "jwt \<Rightarrow> instant \<Rightarrow> bool" where
  "in_force t now \<longleftrightarrow> Truncate (jIssuedAt t) second \<le> now \<and> now < Truncate (jExpiration t) second"

definition on_the_wire :: "jwt \<Rightarrow> jwt" where
  "on_the_wire t = t\<lparr>jIssuedAt := Truncate (jIssuedAt t) second,
     jExpiration := Truncate (jExpiration t) second\<rparr>"

definition signatures_verify :: "jwx \<Rightarrow> bool" where
  "signatures_verify W \<longleftrightarrow> (\<forall>t k ks raw now aud. jwt_sign W t k = Some raw \<longrightarrow>
     public_half k \<in> set ks \<longrightarrow> in_force t now \<longrightarrow> aud \<in> set (jAudience t) \<longrightarrow>
     jwt_parse W ks (jIssuer t) aud now raw = Some (on_the_wire t))"

definition keys_collect :: "jwx \<Rightarrow> bool" where
  "keys_collect W \<longleftrightarrow> (\<forall>ks k ks'. add_key W ks k = Some ks' \<longrightarrow> set ks' = insert k (set ks))"

lemma NewSigner_publishes:
  assumes "NewSigner H W c = Inr S" and "keys_collect W"
  shows "public_half (sgSignKey S) \<in> set (sgPubSet S)"
    and "cfNextKey c \<noteq> [] \<Longrightarrow> parseKey H W (cfNextKey c) = Inr n \<Longrightarrow> public_half n \<in> set (sgPubSet S)"
  using NewSigner_Inr(5) [OF assms(1)] assms(2) unfolding keys_collect_def
  by (auto split: if_splits)

section \<open>Properties\<close>

text \<open>C23: rotation is seamless: a token minted by a signer verifies at every server that publishes the
  signer's key, as current or as next key, and yields the claims that were signed, with the
  token id filled in and the dates the signer chose, in whole seconds.\<close>

theorem token_verifies_across_rotation:
  assumes "signatures_verify W" and "keys_collect W"
    and "NewSigner H W c1 = Inr S1" and "NewSigner H W c2 = Inr S2"
    and "cfIssuer c1 = cfIssuer c2"
    and "cfPrivateKey c1 = cfPrivateKey c2 \<or> cfPrivateKey c1 = cfNextKey c2"
    and "SignAccess W S1 x c = Inr raw" and "in_force (access_jwt S1 x c) now"
  shows "VerifyAccess W S2 now raw (clAudience c) =
    Some (c\<lparr>clJTI := (if clJTI c = [] then uid x 0 else clJTI c),
      clIssuedAt := Truncate (clk x 0) second, clExpiresAt := Truncate (clk x 0 + sgTTL S1) second\<rparr>)"
proof -
  let ?t = "access_jwt S1 x c"
  note s1 = NewSigner_Inr [OF assms(3)] and s2 = NewSigner_Inr [OF assms(4)]
  have "sgSignKey S1 = sgSignKey S2" if "cfPrivateKey c1 = cfPrivateKey c2"
    using s1(4) s2(4) that by simp
  then have "public_half (sgSignKey S1) \<in> set (sgPubSet S2)"
    using NewSigner_publishes [OF assms(4,2)] s1(1,4) assms(6) by metis
  moreover have "jwt_sign W ?t (sgSignKey S1) = Some raw"
    using assms(7) by (simp add: SignAccess_def split: option.splits)
  moreover have "jIssuer ?t = sgIssuer S2" "clAudience c \<in> set (jAudience ?t)"
    using s1(2) s2(2) assms(5) by (simp_all add: access_jwt_def Let_def)
  ultimately have "jwt_parse W (sgPubSet S2) (sgIssuer S2) (clAudience c) now raw = Some (on_the_wire ?t)"
    using assms(1,8) unfolding signatures_verify_def by metis
  moreover have "claims_of (on_the_wire ?t) = (claims_of ?t)\<lparr>clIssuedAt := Truncate (clk x 0) second,
      clExpiresAt := Truncate (clk x 0 + sgTTL S1) second\<rparr>"
    by (simp add: claims_of_def on_the_wire_def str_claim_def bool_claim_def roles_claim_def
        access_jwt_def Let_def)
  ultimately show ?thesis by (simp add: VerifyAccess_def claims_of_access)
qed

text \<open>A library for the witness: it signs one token, and knows it again.\<close>

definition seed_text :: string where
  "seed_text = EncodeToString url_alphabet (replicate 32 CHR ''k'')"

definition demo_key :: Key where
  "demo_key = \<lparr>kID = EncodeToString url_alphabet (replicate 8 CHR ''k''), kAlg = ''EdDSA'', kUse = [],
     kPublic = replicate 32 CHR ''k'', kPrivate = Some (replicate 64 CHR ''k'')\<rparr>"

definition demo_config :: Config where
  "demo_config = \<lparr>cfIssuer = ''iss'', cfAccessTTL = hour, cfPrivateKey = seed_text, cfNextKey = []\<rparr>"

definition demo_signer :: Signer where
  "demo_signer = \<lparr>sgIssuer = ''iss'', sgTTL = hour, sgSignKey = demo_key, sgPubSet = [public_half demo_key]\<rparr>"

definition demo_claims :: Claims where
  "demo_claims = \<lparr>clSubject = ''A'', clAudience = ''app'', clSessionID = ''S1'', clJTI = [],
     clEmail = ''ann@x.io'', clEmailVerified = True, clRoles = [], clIssuedAt = 0, clExpiresAt = 0\<rparr>"

definition demo_jwx :: jwx where
  "demo_jwx = \<lparr>ed_public = (\<lambda>s. s), jwk_ok = (\<lambda>_. True), add_key = (\<lambda>ks k. Some (ks @ [k])),
     jwt_sign = (\<lambda>t k. if t = access_jwt demo_signer (calm 10 ''J'' CHR ''a'') demo_claims
       then Some ''raw'' else None),
     jwt_parse = (\<lambda>ks i a t raw. Some (on_the_wire (access_jwt demo_signer (calm 10 ''J'' CHR ''a'') demo_claims))),
     jwt_insecure = (\<lambda>raw. Some (access_jwt demo_signer (calm 10 ''J'' CHR ''a'') demo_claims))\<rparr>"

lemma demo_NewSigner: "NewSigner plain demo_jwx demo_config = Inr demo_signer"
proof -
  have len: "length seed_text = 43" by (simp add: seed_text_def length_EncodeToString)
  then have "DecodePadded std_alphabet seed_text = None"
    by (simp add: DecodePadded_def Let_def seed_text_def filter_EncodeToString)
  moreover have "DecodeRaw url_alphabet seed_text = Some (replicate 32 CHR ''k'')"
    using DecodeStrict_EncodeToString [OF url_alphabet, of "replicate 32 CHR ''k''"] unsextets_lax
    by (auto simp: seed_text_def DecodeRaw_def DecodeStrict_def bind_eq_Some_conv)
  ultimately have "parseKey plain demo_jwx seed_text = Inr demo_key"
    by (simp add: parseKey_def key_bytes_def demo_jwx_def demo_key_def replicate_add [symmetric])
  moreover have "seed_text \<noteq> []" using len by auto
  ultimately show ?thesis
    by (simp add: NewSigner_def demo_config_def demo_signer_def addPublic_def demo_jwx_def)
qed

theorem token_verifies_across_rotation_witness:
  "VerifyAccess demo_jwx demo_signer 20 ''raw'' ''app'' =
     Some (demo_claims\<lparr>clJTI := ''J'', clIssuedAt := 0, clExpiresAt := hour\<rparr>)"
proof -
  have "signatures_verify demo_jwx" "keys_collect demo_jwx"
    by (simp_all add: signatures_verify_def keys_collect_def demo_jwx_def)
  moreover have "SignAccess demo_jwx demo_signer (calm 10 ''J'' CHR ''a'') demo_claims = Inr ''raw''"
    by (simp add: SignAccess_def demo_jwx_def)
  moreover have "in_force (access_jwt demo_signer (calm 10 ''J'' CHR ''a'') demo_claims) 20"
    by (simp add: in_force_def access_jwt_def demo_signer_def Let_def Truncate_def)
  ultimately show ?thesis
    using token_verifies_across_rotation [OF _ _ demo_NewSigner demo_NewSigner, of "calm 10 ''J'' CHR ''a''"
        demo_claims "''raw''" 20]
    by (simp add: demo_claims_def demo_signer_def Truncate_def)
qed

end
