(* ===== verification/Http.thy ===== *)
theory Http
  imports Sessions Users RateLimit Token OAuth
begin

text \<open>
  \<open>internal/httpapi\<close>: requests, responses, the middleware and the issuing of sessions
  (\<open>respond.go\<close>, \<open>middleware.go\<close>, \<open>api.go\<close>). A handler is an action on the world: the database,
  the mail sent, the background deliveries started, and what was written to the response's
  header. It ends with a reply, early or at its end. Each call a handler makes of the store runs in
  a context of its own, \<open>ctx e site\<close>, where \<open>site\<close> names the call.
\<close>

section \<open>Requests, replies, the world\<close>

text \<open>\<open>Header.Get\<close>, \<open>URL.Query().Get\<close> and \<open>PathValue\<close> yield the empty string for what is absent.\<close>

record request =
  rqHeader :: "string \<Rightarrow> string"
  rqRemoteAddr :: string
  rqBody :: string
  rqCookie :: "string \<Rightarrow> string option"
  rqQuery :: "string \<Rightarrow> string"
  rqPathValue :: "string \<Rightarrow> string"

record userView =
  uvID :: string
  uvEmail :: string
  uvEmailVerified :: bool

record tokenResponse =
  trAccessToken :: string
  trRefreshToken :: string
  trTokenType :: string
  trExpiresIn :: int
  trUser :: userView

record sessionView =
  svID :: string
  svClientID :: string
  svIssuedAt :: instant
  svExpiresAt :: instant
  svUserAgent :: string
  svIP :: string
  svCurrent :: bool

record clientView =
  cvID :: string
  cvName :: string
  cvAudience :: string
  cvRedirectURIs :: "string list"

text \<open>The values handlers encode, one constructor per Go type.\<close>

datatype payload =
    ErrBody string string
  | StrMap "(string \<times> string) list"
  | BoolMap "(string \<times> bool) list"
  | Tokens tokenResponse
  | UserBody userView
  | SessionsBody "sessionView list"
  | ClientsBody "clientView list"
  | ClientCreated clientView string

datatype reply = Reply int payload | Found string | Status int

record cookie =
  ckName :: string
  ckValue :: string
  ckPath :: string
  ckExpires :: "instant option"
  ckMaxAge :: int
  ckHttpOnly :: bool
  ckSecure :: bool

record mail =
  mlTo :: string
  mlPurpose :: Purpose
  mlCode :: string

record world =
  wDB :: DB
  wOutbox :: "mail list"
  wJobs :: "User list"
  wCookies :: "cookie list"
  wHeader :: "(string \<times> string) list"

text \<open>
  What \<open>Server\<close> and \<open>Options\<close> hold, and the library functions the handlers reach: \<open>srvNext\<close> reads the
  next JSON value of a stream, \<open>srvURL\<close> is \<open>url.Parse\<close>, \<open>srvSetQuery\<close> parses a URL, sets query
  parameters and prints it. A provider is its \<open>Provider\<close> interface.
\<close>

record provider =
  pvName :: string
  pvAuthURL :: "string \<Rightarrow> string \<Rightarrow> string"
  pvExchange :: "string \<Rightarrow> string \<Rightarrow> oauth_error + Profile"

record URL =
  urlScheme :: string
  urlHost :: string
  urlHostname :: string
  urlFragment :: string

record server =
  srvLib :: lib
  srvJwx :: jwx
  srvSigner :: Signer
  srvProviders :: "(string \<times> provider) list"
  srvNext :: "string \<Rightarrow> json_next"
  srvURL :: "string \<Rightarrow> URL option"
  srvSetQuery :: "string \<Rightarrow> (string \<times> string) list \<Rightarrow> string option"
  srvAdminKey :: string
  srvSecure :: bool
  srvDummyHash :: string

text \<open>What a request meets: the context of each call, and whether each delivery succeeds.\<close>

record env =
  ctx :: "string \<Rightarrow> opctx"
  delivers :: "string \<Rightarrow> bool"

type_synonym 'a handler = "(world, reply, 'a) action"

section \<open>\<open>respond.go\<close>\<close>

text \<open>A \<open>Reply\<close> stands for what \<open>writeJSON\<close> writes: the status, the headers \<open>Content-Type: application/json\<close>
  and \<open>Cache-Control: no-store\<close>, which are the same for every \<open>Reply\<close> and so are not in \<open>wHeader\<close>, and the body.\<close>

definition writeErr :: "int \<Rightarrow> string \<Rightarrow> string \<Rightarrow> 'a handler" where
  "writeErr status code msg = stop (Reply status (ErrBody code msg))"

definition writeJSON :: "int \<Rightarrow> payload \<Rightarrow> 'a handler" where
  "writeJSON status v = stop (Reply status v)"

definition internal :: "'a handler" where
  "internal = writeErr 500 ''internal'' ''something went wrong''"

definition read_db :: "(DB \<Rightarrow> 'r) \<Rightarrow> 'r handler" where
  "read_db f w = (Inr (f (wDB w)), w)"

definition run_db :: "(DB \<Rightarrow> 'r \<times> DB) \<Rightarrow> 'r handler" where
  "run_db m = zoom wDB wDB_update m"

definition set_header :: "string \<Rightarrow> string \<Rightarrow> unit handler" where
  "set_header k v w = (Inr (), w\<lparr>wHeader := (k, v) # filter (\<lambda>h. fst h \<noteq> k) (wHeader w)\<rparr>)"

definition set_cookie :: "cookie \<Rightarrow> unit handler" where
  "set_cookie c w = (Inr (), w\<lparr>wCookies := wCookies w @ [c]\<rparr>)"

definition maxBody :: nat where
  "maxBody = 64 * 1024"

text \<open>\<open>decode\<close>: the first value of the body into the struct, unknown fields refused, then nothing but
  the end of the body, which must lie within \<open>maxBody\<close> bytes.\<close>

definition decode :: "server \<Rightarrow> request \<Rightarrow> 'r fields \<Rightarrow> 'r \<Rightarrow> 'r handler" where
  "decode S r fs zero =
     (let malformed = writeErr 400 ''invalid_request'' ''malformed JSON body'';
          trailing = writeErr 400 ''invalid_request'' ''body must contain a single JSON object''
      in case srvNext S (take maxBody (rqBody r)) of
           JValue v rest \<Rightarrow>
             (case into_struct True fs v zero of
                None \<Rightarrow> malformed
              | Some q \<Rightarrow>
                  (case srvNext S rest of
                     JEnd \<Rightarrow> if maxBody < length (rqBody r) then trailing else give q
                   | _ \<Rightarrow> trailing))
         | _ \<Rightarrow> malformed)"

text \<open>\<open>decodeQuiet\<close> behind a \<open>MaxBytesReader\<close>: one value, unknown fields allowed, errors dropped; the
  fields set before an error keep their values.\<close>

fun set_members_quiet :: "'r fields \<Rightarrow> (string \<times> json) list \<Rightarrow> 'r \<Rightarrow> 'r" where
  "set_members_quiet fs [] q = q"
| "set_members_quiet fs ((k, v) # ms) q =
     set_members_quiet fs ms
       (case field_for fs k of
          None \<Rightarrow> q
        | Some f \<Rightarrow> (case f v q of None \<Rightarrow> q | Some q' \<Rightarrow> q'))"

definition decodeQuiet :: "server \<Rightarrow> request \<Rightarrow> 'r fields \<Rightarrow> 'r \<Rightarrow> 'r" where
  "decodeQuiet S r fs zero =
     (case srvNext S (take maxBody (rqBody r)) of
        JValue (JObj ms) rest \<Rightarrow> set_members_quiet fs ms zero
      | _ \<Rightarrow> zero)"

definition normalizeEmail :: "lib \<Rightarrow> string \<Rightarrow> string" where
  "normalizeEmail H s = ToLower (unicode_lower H) (TrimSpace s)"

definition validEmail :: "string \<Rightarrow> bool" where
  "validEmail s =
     (let at = IndexByte s CHR ''@'' in
      if at \<le> 0 \<or> at = int (length s) - 1 then False
      else if ContainsAny s [CHR '' '', CHR 0x0D, CHR 0x0A, CHR 0x09] then False
      else CHR ''.'' \<in> set (drop (nat at + 1) s))"

definition MinPasswordLen :: nat where
  "MinPasswordLen = 10"

definition clientIP :: "request \<Rightarrow> string" where
  "clientIP r =
     (let f = rqHeader r ''X-Forwarded-For'' in
      if f \<noteq> [] then
        (let i = IndexByte f CHR '','' in
         if 0 < i then TrimSpace (take (nat i) f) else TrimSpace f)
      else
        (let host = rqRemoteAddr r; i = LastIndexByte host CHR '':'' in
         if 0 < i then take (nat i) host else host))"

section \<open>\<open>middleware.go\<close>\<close>

definition bearer :: "request \<Rightarrow> string" where
  "bearer r =
     (let h = rqHeader r ''Authorization'' in
      if 7 < length h \<and> EqualFold (take 7 h) ''bearer '' then TrimSpace (drop 7 h) else [])"

definition verifyAnyAudience :: "server \<Rightarrow> instant \<Rightarrow> string \<Rightarrow> Claims option" where
  "verifyAnyAudience S now raw =
     (case PeekAudience (srvJwx S) raw of
        None \<Rightarrow> None
      | Some unverified \<Rightarrow> VerifyAccess (srvJwx S) (srvSigner S) now raw unverified)"

text \<open>\<open>requireUser(next)\<close>; the claims are handed to \<open>next\<close>, as its context carries them.\<close>

definition requireUser :: "server \<Rightarrow> env \<Rightarrow> request \<Rightarrow> (Claims \<Rightarrow> 'a handler) \<Rightarrow> 'a handler" where
  "requireUser S e r next =
     (let raw = bearer r in
      if raw = [] then writeErr 401 ''unauthorized'' ''missing bearer token''
      else case verifyAnyAudience S (clk (ctx e ''VerifyAccess'') 0) raw of
        None \<Rightarrow> writeErr 401 ''unauthorized'' ''invalid or expired token''
      | Some claims \<Rightarrow>
          if clSessionID claims \<noteq> [] then
            seq (read_db (SessionByID (ctx e ''SessionByID guard'') (clSessionID claims))) (\<lambda>res.
              case res of
                Inl err \<Rightarrow>
                  if err = ErrNotFound then writeErr 401 ''unauthorized'' ''session no longer exists''
                  else internal
              | Inr sess \<Rightarrow>
                  if sRevokedAt sess \<noteq> None
                  then writeErr 401 ''session_revoked'' ''session has been revoked''
                  else next claims)
          else next claims)"

definition requireAdmin :: "server \<Rightarrow> request \<Rightarrow> 'a handler \<Rightarrow> 'a handler" where
  "requireAdmin S r next =
     (let key = (if bearer r = [] then rqHeader r ''X-Admin-Key'' else bearer r) in
      if key \<noteq> srvAdminKey S then writeErr 401 ''unauthorized'' ''invalid admin key'' else next)"

text \<open>The limiter's answer decides: an error is a 500, a no a 429; only a yes goes on.\<close>

definition limit :: "env \<Rightarrow> string \<Rightarrow> string \<Rightarrow> int \<Rightarrow> duration \<Rightarrow> unit handler" where
  "limit e site bucket n window =
     seq (run_db (Allow (ctx e site) bucket n window)) (\<lambda>res.
       case res of
         Inl _ \<Rightarrow> internal
       | Inr ok \<Rightarrow>
           if \<not> ok then
             seq (set_header ''Retry-After'' ''60'') (\<lambda>_.
               writeErr 429 ''rate_limited'' ''too many attempts, try again later'')
           else give ())"

text \<open>\<open>securityHeaders\<close> and \<open>recoverer\<close> around a handler: a panic in a handler is the value
  \<open>internal\<close> already, so what is left is to read the reply off.\<close>

definition securityHeaders :: "unit handler" where
  "securityHeaders =
     seq (set_header ''X-Content-Type-Options'' ''nosniff'') (\<lambda>_.
     seq (set_header ''X-Frame-Options'' ''DENY'') (\<lambda>_.
     set_header ''Referrer-Policy'' ''no-referrer''))"

definition serve :: "reply handler \<Rightarrow> world \<Rightarrow> reply \<times> world" where
  "serve h w =
     (case seq securityHeaders (\<lambda>_. h) w of
        (Inl rep, w') \<Rightarrow> (rep, w')
      | (Inr rep, w') \<Rightarrow> (rep, w'))"

section \<open>\<open>api.go\<close>\<close>

definition RefreshCookie :: string where
  "RefreshCookie = ''authsvc_refresh''"

definition RefreshPath :: string where
  "RefreshPath = ''/v1/token''"

definition OTPTTL :: duration where
  "OTPTTL = 10 * minute"

definition EmailVerifyTTL :: duration where
  "EmailVerifyTTL = 24 * hour"

definition PasswordResetTTL :: duration where
  "PasswordResetTTL = hour"

definition userJSON :: "User \<Rightarrow> userView" where
  "userJSON u = \<lparr>uvID = uID u, uvEmail = uEmail u, uvEmailVerified = EmailVerified u\<rparr>"

definition setRefreshCookie :: "server \<Rightarrow> string \<Rightarrow> instant \<Rightarrow> unit handler" where
  "setRefreshCookie S tok exp =
     set_cookie \<lparr>ckName = RefreshCookie, ckValue = tok, ckPath = RefreshPath, ckExpires = Some exp,
       ckMaxAge = 0, ckHttpOnly = True, ckSecure = srvSecure S\<rparr>"

definition clearRefreshCookie :: "server \<Rightarrow> unit handler" where
  "clearRefreshCookie S =
     set_cookie \<lparr>ckName = RefreshCookie, ckValue = [], ckPath = RefreshPath, ckExpires = None,
       ckMaxAge = -1, ckHttpOnly = True, ckSecure = srvSecure S\<rparr>"

text \<open>\<open>respondWithTokens\<close> hands back the response, or \<open>None\<close> when signing fails.\<close>

definition access_claims :: "User \<Rightarrow> string \<Rightarrow> Session \<Rightarrow> Claims" where
  "access_claims u audience s =
     \<lparr>clSubject = uID u, clAudience = audience, clSessionID = sID s, clJTI = [], clEmail = uEmail u,
      clEmailVerified = EmailVerified u, clRoles = [], clIssuedAt = 0, clExpiresAt = 0\<rparr>"

definition respondWithTokens ::
  "server \<Rightarrow> env \<Rightarrow> User \<Rightarrow> string \<Rightarrow> IssuedSession \<Rightarrow> tokenResponse option handler" where
  "respondWithTokens S e u audience iss =
     (case SignAccess (srvJwx S) (srvSigner S) (ctx e ''SignAccess'')
             (access_claims u audience (isSession iss)) of
        Inl _ \<Rightarrow> give None
      | Inr access \<Rightarrow>
          seq (setRefreshCookie S (RefreshToken iss) (sExpiresAt (isSession iss))) (\<lambda>_.
            give (Some \<lparr>trAccessToken = access, trRefreshToken = RefreshToken iss, trTokenType = ''Bearer'',
              trExpiresIn = AccessTTL (srvSigner S) div second, trUser = userJSON u\<rparr>)))"

definition session_meta :: "request \<Rightarrow> SessionMeta" where
  "session_meta r = \<lparr>UserAgent = rqHeader r ''User-Agent'', IP = clientIP r\<rparr>"

definition issueSession ::
  "server \<Rightarrow> env \<Rightarrow> request \<Rightarrow> User \<Rightarrow> Client \<Rightarrow> tokenResponse option handler" where
  "issueSession S e r u c =
     seq (run_db (CreateSession (srvLib S) (ctx e ''CreateSession'') (uID u) (cID c) (session_meta r)))
       (\<lambda>res. case res of
          Inl _ \<Rightarrow> give None
        | Inr iss \<Rightarrow> respondWithTokens S e u (cAudience c) iss)"

text \<open>What every caller of \<open>issueSession\<close> does with its result.\<close>

definition answer_tokens :: "int \<Rightarrow> tokenResponse option \<Rightarrow> reply handler" where
  "answer_tokens status resp =
     (case resp of None \<Rightarrow> internal | Some t \<Rightarrow> writeJSON status (Tokens t))"

text \<open>\<open>lookupClient\<close> of \<open>auth.go\<close>, used by every handler that names a client.\<close>

definition lookupClient :: "env \<Rightarrow> string \<Rightarrow> Client handler" where
  "lookupClient e clientID =
     (if clientID = [] then writeErr 400 ''invalid_request'' ''client_id is required''
      else seq (read_db (ClientByID (ctx e ''ClientByID'') clientID)) (\<lambda>res.
        case res of
          Inl err \<Rightarrow>
            if err = ErrNotFound then writeErr 400 ''unknown_client'' ''unknown client_id'' else internal
        | Inr c \<Rightarrow> give c))"

section \<open>Reasoning about handlers\<close>

text \<open>A handler that got past a step that can only refuse got its value. \<open>refuses m\<close>: every reply \<open>m\<close>
  ends with is an error body.\<close>

definition error_reply :: "reply \<Rightarrow> bool" where
  "error_reply rep \<longleftrightarrow> (\<exists>st c m. rep = Reply st (ErrBody c m))"

definition refuses :: "'a handler \<Rightarrow> bool" where
  "refuses m \<longleftrightarrow> (\<forall>w rep w'. m w = (Inl rep, w') \<longrightarrow> error_reply rep)"

named_theorems refusal \<open>steps that end with an error body, if they end the handler\<close>

lemma error_reply_simps [simp]:
  "error_reply (Reply st (ErrBody c m))" "\<not> error_reply (Found u)" "\<not> error_reply (Status n)"
  "\<not> error_reply (Reply st (Tokens t))" "\<not> error_reply (Reply st (StrMap ss))"
  "\<not> error_reply (Reply st (BoolMap bs))" "\<not> error_reply (Reply st (UserBody uv))"
  "\<not> error_reply (Reply st (SessionsBody vs))" "\<not> error_reply (Reply st (ClientsBody cs))"
  "\<not> error_reply (Reply st (ClientCreated cv k))"
  by (simp_all add: error_reply_def)

lemma refuses_writeErr [refusal]: "refuses (writeErr st c m)"
  by (simp add: refuses_def writeErr_def)

lemma refuses_internal [refusal]: "refuses internal"
  unfolding internal_def by (rule refuses_writeErr)

lemma refuses_give [refusal]: "refuses (give a)"
  by (simp add: refuses_def)

lemma refuses_seq [refusal]: "refuses m \<Longrightarrow> (\<And>a. refuses (f a)) \<Longrightarrow> refuses (seq m f)"
  unfolding refuses_def seq_def by (fastforce split: prod.splits sum.splits)

lemma refuses_read [refusal]: "refuses (read_db f)"
  by (simp add: refuses_def read_db_def)

lemma refuses_run [refusal]: "refuses (run_db m)"
  by (auto simp: refuses_def run_db_def zoom_def split: prod.splits)

lemma refuses_header [refusal]: "refuses (set_header k v)"
  by (simp add: refuses_def set_header_def)

lemma refuses_cookie [refusal]: "refuses (set_cookie c)"
  by (simp add: refuses_def set_cookie_def)

lemma refuses_if [refusal]: "refuses m \<Longrightarrow> refuses n \<Longrightarrow> refuses (if b then m else n)"
  by simp

lemma refuses_sum [refusal]:
  "(\<And>e. refuses (g e)) \<Longrightarrow> (\<And>a. refuses (f a)) \<Longrightarrow> refuses (case v of Inl e \<Rightarrow> g e | Inr a \<Rightarrow> f a)"
  by (simp split: sum.split)

lemma refuses_option [refusal]:
  "refuses m \<Longrightarrow> (\<And>a. refuses (f a)) \<Longrightarrow> refuses (case v of None \<Rightarrow> m | Some a \<Rightarrow> f a)"
  by (simp split: option.split)

lemma refuses_next [refusal]:
  "refuses a \<Longrightarrow> refuses b \<Longrightarrow> (\<And>v s. refuses (f v s)) \<Longrightarrow>
   refuses (case n of JEnd \<Rightarrow> a | JBad \<Rightarrow> b | JValue v s \<Rightarrow> f v s)"
  by (simp split: json_next.split)

lemma refuses_decode [refusal]: "refuses (decode S r fs z)"
  unfolding decode_def Let_def by (intro refusal)

lemma refuses_limit [refusal]: "refuses (limit e site b n win)"
  unfolding limit_def by (intro refusal)

lemma refuses_lookupClient [refusal]: "refuses (lookupClient e k)"
  unfolding lookupClient_def by (intro refusal)

lemma seq_okE:
  assumes "seq m f w = (Inl rep, w'')" and "\<not> error_reply rep" and "refuses m"
  obtains a w' where "m w = (Inr a, w')" "f a w' = (Inl rep, w'')"
  using assms unfolding seq_def refuses_def by (auto split: prod.splits sum.splits)

lemma read_db_Inr: "read_db f w = (Inr a, w') \<longleftrightarrow> w' = w \<and> a = f (wDB w)"
  by (auto simp: read_db_def)

lemma run_db_Inr: "run_db m w = (Inr a, w') \<longleftrightarrow> w' = w\<lparr>wDB := snd (m (wDB w))\<rparr> \<and> a = fst (m (wDB w))"
  by (auto simp: run_db_def zoom_def split: prod.splits)

lemma decode_Inr: "decode S r fs z w = (Inr q, w') \<Longrightarrow> w' = w"
  by (auto simp: decode_def writeErr_def Let_def split: json_next.splits option.splits if_splits)

lemma Allow_rows: "\<exists>t. snd (Allow x b n win db) = db\<lparr>rate_limits := t\<rparr>"
proof (cases "snd (Allow x b n win db) = db")
  case True
  then show ?thesis by (intro exI [of _ "rate_limits db"]) simp
next
  case False
  then show ?thesis by (auto simp: Allow_def Let_def split: option.splits if_splits)
qed

lemma limit_Inr:
  assumes "limit e site b n win w = (Inr u, w')"
  obtains t where "w' = w\<lparr>wDB := wDB w\<lparr>rate_limits := t\<rparr>\<rparr>"
    and "fst (Allow (ctx e site) b n win (wDB w)) = Inr True"
proof -
  obtain t where t: "snd (Allow (ctx e site) b n win (wDB w)) = wDB w\<lparr>rate_limits := t\<rparr>"
    using Allow_rows by blast
  from assms have "w' = w\<lparr>wDB := wDB w\<lparr>rate_limits := t\<rparr>\<rparr>" "fst (Allow (ctx e site) b n win (wDB w)) = Inr True"
    unfolding limit_def
    by (auto elim!: seq_InrE simp: run_db_Inr t internal_def writeErr_def split: sum.splits if_splits)
  then show thesis by (rule that)
qed

lemma lookupClient_Inr:
  assumes "lookupClient e k w = (Inr c, w')"
  shows "w' = w" "c \<in> set (app_clients (wDB w))" "cID c = k" "k \<noteq> []"
  using assms unfolding lookupClient_def
  by (auto elim!: seq_InrE simp: read_db_Inr internal_def writeErr_def dest: ClientByID_Inr
      split: sum.splits if_splits)

lemma answer_tokens_ok:
  assumes "answer_tokens st v w = (Inl rep, w')" and "\<not> error_reply rep"
  obtains t where "v = Some t" "rep = Reply st (Tokens t)" "w' = w"
  using assms by (cases v) (auto simp: answer_tokens_def internal_def writeErr_def writeJSON_def)

lemma respondWithTokens_Some:
  assumes "respondWithTokens S e u aud iss w = (Inr (Some t), w')"
  shows "SignAccess (srvJwx S) (srvSigner S) (ctx e ''SignAccess'') (access_claims u aud (isSession iss)) =
      Inr (trAccessToken t)"
    and "trRefreshToken t = RefreshToken iss" "trUser t = userJSON u" "wDB w' = wDB w"
  using assms unfolding respondWithTokens_def setRefreshCookie_def
  by (auto elim!: seq_InrE simp: set_cookie_def split: sum.splits)

lemma refuses_respondWithTokens [refusal]: "refuses (respondWithTokens S e u aud iss)"
  unfolding respondWithTokens_def setRefreshCookie_def by (intro refusal)

lemma refuses_issueSession [refusal]: "refuses (issueSession S e r u c)"
  unfolding issueSession_def by (intro refusal)

text \<open>What a session issued to a user for a client is.\<close>

lemma issueSession_Some:
  assumes "issueSession S e r u c w = (Inr (Some t), w')"
  obtains iss where
    "CreateSession (srvLib S) (ctx e ''CreateSession'') (uID u) (cID c) (session_meta r) (wDB w) = (Inr iss, wDB w')"
    "SignAccess (srvJwx S) (srvSigner S) (ctx e ''SignAccess'') (access_claims u (cAudience c) (isSession iss)) =
      Inr (trAccessToken t)"
    "trRefreshToken t = RefreshToken iss" "trUser t = userJSON u"
proof -
  obtain res w1 where r: "run_db (CreateSession (srvLib S) (ctx e ''CreateSession'') (uID u) (cID c)
      (session_meta r)) w = (Inr res, w1)"
    "(case res of Inl _ \<Rightarrow> give None | Inr iss \<Rightarrow> respondWithTokens S e u (cAudience c) iss) w1 = (Inr (Some t), w')"
    using assms unfolding issueSession_def by (rule seq_InrE)
  then obtain iss where iss: "res = Inr iss" "respondWithTokens S e u (cAudience c) iss w1 = (Inr (Some t), w')"
    by (cases res) auto
  have "w1 = w\<lparr>wDB := snd (CreateSession (srvLib S) (ctx e ''CreateSession'') (uID u) (cID c) (session_meta r) (wDB w))\<rparr>"
    "Inr iss = fst (CreateSession (srvLib S) (ctx e ''CreateSession'') (uID u) (cID c) (session_meta r) (wDB w))"
    using r(1) iss(1) by (simp_all add: run_db_Inr)
  with respondWithTokens_Some [OF iss(2)] show thesis
    by (intro that [of iss]) (simp_all add: prod_eq_iff)
qed

end
