(* ===== verification/AuthHandlers.thy ===== *)
theory AuthHandlers
  imports Http Codes Password
begin

text \<open>
  \<open>internal/httpapi/auth.go\<close> and \<open>otp.go\<close>: registration, password login, email verification,
  password reset, and login by emailed code. A mail is delivered or not, as the environment says;
  the verification mail of a registration is a job that runs later, as a step of its own.
\<close>

section \<open>Registration and password login\<close>

record registerReq =
  rrClientID :: string
  rrEmail :: string
  rrPassword :: string

definition zero_registerReq :: registerReq where
  "zero_registerReq = \<lparr>rrClientID = [], rrEmail = [], rrPassword = []\<rparr>"

definition registerReq_fields :: "registerReq fields" where
  "registerReq_fields =
     [(''client_id'', into_string (\<lambda>s q. q\<lparr>rrClientID := s\<rparr>)),
      (''email'', into_string (\<lambda>s q. q\<lparr>rrEmail := s\<rparr>)),
      (''password'', into_string (\<lambda>s q. q\<lparr>rrPassword := s\<rparr>))]"

definition send_mail :: "env \<Rightarrow> string \<Rightarrow> mail \<Rightarrow> bool handler" where
  "send_mail e site m w =
     (if delivers e site then (Inr True, w\<lparr>wOutbox := wOutbox w @ [m]\<rparr>) else (Inr False, w))"

text \<open>Starting the background delivery, and the delivery itself.\<close>

definition sendEmailVerification :: "User \<Rightarrow> unit handler" where
  "sendEmailVerification u w =
     (if EmailVerified u then (Inr (), w) else (Inr (), w\<lparr>wJobs := wJobs w @ [u]\<rparr>))"

definition deliverEmailVerification :: "lib \<Rightarrow> env \<Rightarrow> User \<Rightarrow> unit handler" where
  "deliverEmailVerification H e u =
     (case NewOpaqueToken (ctx e ''NewOpaqueToken'') 0 of
        Inl _ \<Rightarrow> give ()
      | Inr tok \<Rightarrow>
          seq (run_db (IssueCode H (ctx e ''IssueCode'') (uID u) PurposeEmailVerify tok EmailVerifyTTL))
            (\<lambda>res. case res of
               Inl _ \<Rightarrow> give ()
             | Inr _ \<Rightarrow>
                 seq (send_mail e ''SendCode'' \<lparr>mlTo = uEmail u, mlPurpose = PurposeEmailVerify, mlCode = tok\<rparr>)
                   (\<lambda>_. give ())))"

definition handleRegister :: "server \<Rightarrow> env \<Rightarrow> request \<Rightarrow> reply handler" where
  "handleRegister S e r =
     seq (decode S r registerReq_fields zero_registerReq) (\<lambda>req.
     let email = normalizeEmail (srvLib S) (rrEmail req) in
     if \<not> validEmail email
     then writeErr 400 ''invalid_email'' ''that does not look like an email address''
     else if length (rrPassword req) < MinPasswordLen
     then writeErr 400 ''weak_password'' ''password must be at least 10 characters''
     else
       seq (limit e ''limit ip'' (''register:ip:'' @ clientIP r) 10 hour) (\<lambda>_.
       seq (lookupClient e (rrClientID req)) (\<lambda>client.
       case Hash (srvLib S) (ctx e ''Hash'') (rrPassword req) of
         Inl _ \<Rightarrow> internal
       | Inr hash \<Rightarrow>
           seq (run_db (CreateUser (srvLib S) (ctx e ''CreateUser'') email (Some hash))) (\<lambda>res.
             case res of
               Inl _ \<Rightarrow>
                 seq (read_db (UserByEmail (srvLib S) (ctx e ''UserByEmail'') email)) (\<lambda>found.
                   case found of
                     Inr existing \<Rightarrow>
                       seq (sendEmailVerification existing) (\<lambda>_.
                         writeJSON 202 (StrMap [(''status'', ''verification_sent'')]))
                   | Inl _ \<Rightarrow> internal)
             | Inr u \<Rightarrow>
                 seq (sendEmailVerification u) (\<lambda>_.
                 seq (issueSession S e r u client) (answer_tokens 201))))))"

text \<open>\<open>loginReq\<close> has the fields of \<open>registerReq\<close>.\<close>

definition handleLogin :: "server \<Rightarrow> env \<Rightarrow> request \<Rightarrow> reply handler" where
  "handleLogin S e r =
     seq (decode S r registerReq_fields zero_registerReq) (\<lambda>req.
     let email = normalizeEmail (srvLib S) (rrEmail req) in
     seq (limit e ''limit ip'' (''login:ip:'' @ clientIP r) 30 (15 * minute)) (\<lambda>_.
     seq (limit e ''limit id'' (''login:id:'' @ email) 10 (15 * minute)) (\<lambda>_.
     seq (lookupClient e (rrClientID req)) (\<lambda>client.
     seq (read_db (UserByEmail (srvLib S) (ctx e ''UserByEmail'') email)) (\<lambda>found.
     if found \<noteq> Inl ErrNotFound \<and> isl found then internal
     else
       let u = (case found of Inl _ \<Rightarrow> None | Inr u \<Rightarrow> Some u);
           password_hash = Option.bind u uPasswordHash;
           stored = (case password_hash of None \<Rightarrow> srvDummyHash S | Some h \<Rightarrow> h)
       in case Verify (srvLib S) stored (rrPassword req) of
            Inl _ \<Rightarrow> internal
          | Inr matches \<Rightarrow>
              (case u of
                 None \<Rightarrow> writeErr 401 ''invalid_credentials'' ''email or password is incorrect''
               | Some u \<Rightarrow>
                   if uPasswordHash u = None \<or> \<not> matches
                   then writeErr 401 ''invalid_credentials'' ''email or password is incorrect''
                   else if uDisabledAt u \<noteq> None
                   then writeErr 403 ''account_disabled'' ''this account is disabled''
                   else seq (issueSession S e r u client) (answer_tokens 200)))))))"

section \<open>Email verification and password reset\<close>

record tokenOnlyReq =
  toToken :: string

definition tokenOnlyReq_fields :: "tokenOnlyReq fields" where
  "tokenOnlyReq_fields = [(''token'', into_string (\<lambda>s q. q\<lparr>toToken := s\<rparr>))]"

definition handleEmailVerify :: "server \<Rightarrow> env \<Rightarrow> request \<Rightarrow> reply handler" where
  "handleEmailVerify S e r =
     seq (decode S r tokenOnlyReq_fields \<lparr>toToken = []\<rparr>) (\<lambda>req.
     seq (limit e ''limit ip'' (''verify:ip:'' @ clientIP r) 30 hour) (\<lambda>_.
     seq (run_db (ConsumeToken (srvLib S) (ctx e ''ConsumeToken'') PurposeEmailVerify (toToken req))) (\<lambda>res.
     case res of
       Inl err \<Rightarrow>
         if err = ErrCodeInvalid then writeErr 400 ''invalid_token'' ''this link is invalid or has expired''
         else internal
     | Inr userID \<Rightarrow>
         seq (run_db (MarkEmailVerified (ctx e ''MarkEmailVerified'') userID)) (\<lambda>done'.
           case done' of
             Inl _ \<Rightarrow> internal
           | Inr _ \<Rightarrow> writeJSON 200 (BoolMap [(''email_verified'', True)])))))"

record forgotReq =
  foEmail :: string

definition forgotReq_fields :: "forgotReq fields" where
  "forgotReq_fields = [(''email'', into_string (\<lambda>s q. q\<lparr>foEmail := s\<rparr>))]"

text \<open>What runs before the deferred answer of \<open>handlePasswordForgot\<close>.\<close>

definition send_reset :: "server \<Rightarrow> env \<Rightarrow> string \<Rightarrow> unit handler" where
  "send_reset S e email =
     seq (read_db (UserByEmail (srvLib S) (ctx e ''UserByEmail'') email)) (\<lambda>found.
     case found of
       Inl _ \<Rightarrow> give ()
     | Inr u \<Rightarrow>
         (case NewOpaqueToken (ctx e ''NewOpaqueToken'') 0 of
            Inl _ \<Rightarrow> give ()
          | Inr tok \<Rightarrow>
              seq (run_db (IssueCode (srvLib S) (ctx e ''IssueCode'') (uID u) PurposePasswordReset tok
                    PasswordResetTTL)) (\<lambda>res.
                case res of
                  Inl _ \<Rightarrow> give ()
                | Inr _ \<Rightarrow>
                    seq (send_mail e ''SendCode''
                          \<lparr>mlTo = uEmail u, mlPurpose = PurposePasswordReset, mlCode = tok\<rparr>)
                      (\<lambda>_. give ()))))"

definition handlePasswordForgot :: "server \<Rightarrow> env \<Rightarrow> request \<Rightarrow> reply handler" where
  "handlePasswordForgot S e r =
     seq (decode S r forgotReq_fields \<lparr>foEmail = []\<rparr>) (\<lambda>req.
     let email = normalizeEmail (srvLib S) (foEmail req) in
     seq (limit e ''limit ip'' (''forgot:ip:'' @ clientIP r) 10 hour) (\<lambda>_.
     seq (limit e ''limit id'' (''forgot:id:'' @ email) 3 hour) (\<lambda>_.
     seq (send_reset S e email) (\<lambda>_.
       writeJSON 202 (StrMap [(''status'', ''sent_if_registered'')])))))"

record resetReq =
  reToken :: string
  reNewPassword :: string

definition resetReq_fields :: "resetReq fields" where
  "resetReq_fields =
     [(''token'', into_string (\<lambda>s q. q\<lparr>reToken := s\<rparr>)),
      (''new_password'', into_string (\<lambda>s q. q\<lparr>reNewPassword := s\<rparr>))]"

definition handlePasswordReset :: "server \<Rightarrow> env \<Rightarrow> request \<Rightarrow> reply handler" where
  "handlePasswordReset S e r =
     seq (decode S r resetReq_fields \<lparr>reToken = [], reNewPassword = []\<rparr>) (\<lambda>req.
     if length (reNewPassword req) < MinPasswordLen
     then writeErr 400 ''weak_password'' ''password must be at least 10 characters''
     else
       seq (limit e ''limit ip'' (''reset:ip:'' @ clientIP r) 20 hour) (\<lambda>_.
       seq (run_db (ConsumeToken (srvLib S) (ctx e ''ConsumeToken'') PurposePasswordReset (reToken req))) (\<lambda>res.
       case res of
         Inl err \<Rightarrow>
           if err = ErrCodeInvalid then writeErr 400 ''invalid_token'' ''this link is invalid or has expired''
           else internal
       | Inr userID \<Rightarrow>
           (case Hash (srvLib S) (ctx e ''Hash'') (reNewPassword req) of
              Inl _ \<Rightarrow> internal
            | Inr hash \<Rightarrow>
                seq (run_db (SetPasswordHash (ctx e ''SetPasswordHash'') userID hash)) (\<lambda>set'.
                case set' of
                  Inl _ \<Rightarrow> internal
                | Inr _ \<Rightarrow>
                    seq (run_db (RevokeAllForUser (ctx e ''RevokeAllForUser'') userID)) (\<lambda>gone.
                    case gone of
                      Inl _ \<Rightarrow> internal
                    | Inr _ \<Rightarrow>
                        seq (clearRefreshCookie S) (\<lambda>_.
                          writeJSON 200 (BoolMap [(''password_reset'', True)]))))))))"

section \<open>Login by emailed code\<close>

definition otpIdentifier :: "string \<Rightarrow> string \<Rightarrow> string" where
  "otpIdentifier clientID email = clientID @ ''|'' @ email"

record otpReq =
  oqClientID :: string
  oqEmail :: string
  oqCode :: string

definition zero_otpReq :: otpReq where
  "zero_otpReq = \<lparr>oqClientID = [], oqEmail = [], oqCode = []\<rparr>"

definition otpRequestReq_fields :: "otpReq fields" where
  "otpRequestReq_fields =
     [(''client_id'', into_string (\<lambda>s q. q\<lparr>oqClientID := s\<rparr>)),
      (''email'', into_string (\<lambda>s q. q\<lparr>oqEmail := s\<rparr>))]"

definition otpVerifyReq_fields :: "otpReq fields" where
  "otpVerifyReq_fields = otpRequestReq_fields @ [(''code'', into_string (\<lambda>s q. q\<lparr>oqCode := s\<rparr>))]"

definition handleOTPRequest :: "server \<Rightarrow> env \<Rightarrow> request \<Rightarrow> reply handler" where
  "handleOTPRequest S e r =
     seq (decode S r otpRequestReq_fields zero_otpReq) (\<lambda>req.
     let email = normalizeEmail (srvLib S) (oqEmail req) in
     if \<not> validEmail email
     then writeErr 400 ''invalid_email'' ''that does not look like an email address''
     else
       seq (limit e ''limit ip'' (''otp:ip:'' @ clientIP r) 20 hour) (\<lambda>_.
       seq (limit e ''limit id'' (''otp:id:'' @ email) 5 hour) (\<lambda>_.
       seq (lookupClient e (oqClientID req)) (\<lambda>client.
       case NewNumericCode (ctx e ''NewNumericCode'') 6 of
         Inl _ \<Rightarrow> internal
       | Inr code \<Rightarrow>
           seq (run_db (IssueCode (srvLib S) (ctx e ''IssueCode'') (otpIdentifier (cID client) email)
                 PurposeLoginOTP code OTPTTL)) (\<lambda>res.
           case res of
             Inl _ \<Rightarrow> internal
           | Inr _ \<Rightarrow>
               seq (send_mail e ''SendCode'' \<lparr>mlTo = email, mlPurpose = PurposeLoginOTP, mlCode = code\<rparr>)
                 (\<lambda>sent.
                   if \<not> sent then writeErr 502 ''delivery_failed'' ''could not send the code, try again''
                   else writeJSON 202 (StrMap [(''status'', ''sent'')])))))))"

text \<open>The account behind an address whose inbox was proved: found, or created without a password;
  marked verified and read again if it was not.\<close>

definition otp_user :: "server \<Rightarrow> env \<Rightarrow> string \<Rightarrow> User handler" where
  "otp_user S e email =
     seq (read_db (UserByEmail (srvLib S) (ctx e ''UserByEmail'') email)) (\<lambda>found.
     seq (if found = Inl ErrNotFound
          then run_db (CreateUser (srvLib S) (ctx e ''CreateUser'') email None) else give found) (\<lambda>res.
     case res of
       Inl _ \<Rightarrow> internal
     | Inr u \<Rightarrow>
         if \<not> EmailVerified u then
           seq (run_db (MarkEmailVerified (ctx e ''MarkEmailVerified'') (uID u))) (\<lambda>marked.
           case marked of
             Inl _ \<Rightarrow> internal
           | Inr _ \<Rightarrow>
               seq (read_db (UserByID (ctx e ''UserByID'') (uID u))) (\<lambda>again.
                 case again of Inl _ \<Rightarrow> internal | Inr u' \<Rightarrow> give u'))
         else give u))"

definition handleOTPVerify :: "server \<Rightarrow> env \<Rightarrow> request \<Rightarrow> reply handler" where
  "handleOTPVerify S e r =
     seq (decode S r otpVerifyReq_fields zero_otpReq) (\<lambda>req.
     let email = normalizeEmail (srvLib S) (oqEmail req) in
     seq (limit e ''limit ip'' (''otpv:ip:'' @ clientIP r) 30 hour) (\<lambda>_.
     seq (lookupClient e (oqClientID req)) (\<lambda>client.
     seq (run_db (ConsumeCode (srvLib S) (ctx e ''ConsumeCode'') (clk (ctx e ''ConsumeCode now'') 0)
           (otpIdentifier (cID client) email) PurposeLoginOTP (oqCode req))) (\<lambda>res.
     case res of
       Inl err \<Rightarrow>
         if err = ErrCodeAttempts
         then writeErr 429 ''too_many_attempts'' ''too many attempts, request a new code''
         else if err = ErrCodeInvalid
         then writeErr 401 ''invalid_code'' ''that code is invalid or has expired''
         else internal
     | Inr _ \<Rightarrow>
         seq (otp_user S e email) (\<lambda>u.
         if uDisabledAt u \<noteq> None then writeErr 403 ''account_disabled'' ''this account is disabled''
         else seq (issueSession S e r u client) (answer_tokens 200))))))"

end
