(* ===== verification/SessionHandlers.thy ===== *)
theory SessionHandlers
  imports Http
begin

text \<open>
  \<open>internal/httpapi/sessions.go\<close>: refreshing, logging out, and the listing and ending of a user's
  sessions. The handlers behind \<open>requireUser\<close> take the claims it verified.
\<close>

record refreshBody =
  rbRefreshToken :: string

definition refreshBody_fields :: "refreshBody fields" where
  "refreshBody_fields = [(''refresh_token'', into_string (\<lambda>s q. q\<lparr>rbRefreshToken := s\<rparr>))]"

definition refreshTokenFrom :: "server \<Rightarrow> request \<Rightarrow> string" where
  "refreshTokenFrom S r =
     (case rqCookie r RefreshCookie of
        Some v \<Rightarrow>
          if v \<noteq> [] then v
          else rbRefreshToken (decodeQuiet S r refreshBody_fields \<lparr>rbRefreshToken = []\<rparr>)
      | None \<Rightarrow> rbRefreshToken (decodeQuiet S r refreshBody_fields \<lparr>rbRefreshToken = []\<rparr>))"

text \<open>What follows a successful rotation.\<close>

definition refreshed :: "server \<Rightarrow> env \<Rightarrow> IssuedSession \<Rightarrow> reply handler" where
  "refreshed S e iss =
     seq (read_db (UserByID (ctx e ''UserByID'') (sUserID (isSession iss)))) (\<lambda>found.
     case found of
       Inl _ \<Rightarrow> internal
     | Inr u \<Rightarrow>
         if uDisabledAt u \<noteq> None then
           seq (run_db (RevokeAllForUser (ctx e ''RevokeAllForUser'') (uID u))) (\<lambda>_.
           seq (clearRefreshCookie S) (\<lambda>_.
             writeErr 403 ''account_disabled'' ''this account is disabled''))
         else
           seq (read_db (ClientByID (ctx e ''ClientByID'') (sClientID (isSession iss)))) (\<lambda>cl.
           case cl of
             Inl _ \<Rightarrow> internal
           | Inr client \<Rightarrow>
               seq (respondWithTokens S e u (cAudience client) iss) (answer_tokens 200)))"

definition handleRefresh :: "server \<Rightarrow> env \<Rightarrow> request \<Rightarrow> reply handler" where
  "handleRefresh S e r =
     (let tok = refreshTokenFrom S r in
      if tok = [] then writeErr 401 ''unauthorized'' ''no refresh token''
      else
        seq (limit e ''limit ip'' (''refresh:ip:'' @ clientIP r) 120 hour) (\<lambda>_.
        seq (run_db (Rotate (srvLib S) (ctx e ''Rotate'') tok (session_meta r))) (\<lambda>res.
        case res of
          Inl err \<Rightarrow>
            if err = ErrTokenReuse then
              seq (clearRefreshCookie S) (\<lambda>_.
                writeErr 401 ''token_reuse'' ''this session has been revoked; sign in again'')
            else if err = ErrNotFound then
              seq (clearRefreshCookie S) (\<lambda>_.
                writeErr 401 ''unauthorized'' ''refresh token is invalid or expired'')
            else internal
        | Inr iss \<Rightarrow> refreshed S e iss)))"

definition end_session :: "server \<Rightarrow> reply handler" where
  "end_session S = seq (clearRefreshCookie S) (\<lambda>_. stop (Status 204))"

definition handleLogout :: "server \<Rightarrow> env \<Rightarrow> Claims \<Rightarrow> reply handler" where
  "handleLogout S e claims =
     (if clSessionID claims \<noteq> [] then
        seq (read_db (SessionByID (ctx e ''SessionByID'') (clSessionID claims))) (\<lambda>found.
        case found of
          Inl _ \<Rightarrow> end_session S
        | Inr sess \<Rightarrow>
            seq (run_db (RevokeFamily (ctx e ''RevokeFamily'') (sFamilyID sess))) (\<lambda>res.
              case res of Inl _ \<Rightarrow> internal | Inr _ \<Rightarrow> end_session S))
      else end_session S)"

definition handleLogoutAll :: "server \<Rightarrow> env \<Rightarrow> Claims \<Rightarrow> reply handler" where
  "handleLogoutAll S e claims =
     seq (run_db (RevokeAllForUser (ctx e ''RevokeAllForUser'') (clSubject claims))) (\<lambda>res.
       case res of Inl _ \<Rightarrow> internal | Inr _ \<Rightarrow> end_session S)"

definition handleMe :: "env \<Rightarrow> Claims \<Rightarrow> reply handler" where
  "handleMe e claims =
     seq (read_db (UserByID (ctx e ''UserByID'') (clSubject claims))) (\<lambda>found.
       case found of
         Inl err \<Rightarrow> if err = ErrNotFound then writeErr 404 ''not_found'' ''user not found'' else internal
       | Inr u \<Rightarrow> writeJSON 200 (UserBody (userJSON u)))"

definition view_session :: "Claims \<Rightarrow> Session \<Rightarrow> sessionView" where
  "view_session claims s =
     \<lparr>svID = sID s, svClientID = sClientID s, svIssuedAt = sIssuedAt s, svExpiresAt = sExpiresAt s,
      svUserAgent = sUserAgent s, svIP = sIP s, svCurrent = (sID s = clSessionID claims)\<rparr>"

definition handleListSessions :: "env \<Rightarrow> Claims \<Rightarrow> reply handler" where
  "handleListSessions e claims =
     seq (read_db (ActiveSessionsForUser (ctx e ''ActiveSessionsForUser'') (clSubject claims))) (\<lambda>rows.
       case rows of
         Inl _ \<Rightarrow> internal
       | Inr ss \<Rightarrow> writeJSON 200 (SessionsBody (map (view_session claims) ss)))"

definition handleDeleteSession :: "env \<Rightarrow> request \<Rightarrow> Claims \<Rightarrow> reply handler" where
  "handleDeleteSession e r claims =
     seq (read_db (SessionByID (ctx e ''SessionByID'') (rqPathValue r ''id''))) (\<lambda>found.
       case found of
         Inl err \<Rightarrow> if err = ErrNotFound then writeErr 404 ''not_found'' ''no such session'' else internal
       | Inr sess \<Rightarrow>
           if sUserID sess \<noteq> clSubject claims then writeErr 404 ''not_found'' ''no such session''
           else
             seq (run_db (RevokeFamily (ctx e ''RevokeFamily'') (sFamilyID sess))) (\<lambda>res.
               case res of Inl _ \<Rightarrow> internal | Inr _ \<Rightarrow> stop (Status 204)))"

end
