(* ===== verification/OAuthHandlers.thy ===== *)
theory OAuthHandlers
  imports Http Flows Linking Password
begin

text \<open>
  \<open>internal/httpapi/oauth.go\<close> and \<open>admin.go\<close>: the OAuth round trip, the exchange of its code for a
  session, and the registration of client applications.
\<close>

section \<open>Starting a flow\<close>

definition find_provider :: "server \<Rightarrow> request \<Rightarrow> provider handler" where
  "find_provider S r =
     (let name = ToLower (unicode_lower (srvLib S)) (rqPathValue r ''provider'') in
      case map_of (srvProviders S) name of
        None \<Rightarrow> writeErr 404 ''unknown_provider'' ''no such provider''
      | Some p \<Rightarrow> give p)"

text \<open>\<open>http.Redirect\<close> to a URL with query parameters added; empty ones are left out, and a URL that
  does not parse is used as it is.\<close>

definition appendQuery :: "server \<Rightarrow> string \<Rightarrow> (string \<times> string) list \<Rightarrow> string" where
  "appendQuery S raw params =
     (case srvSetQuery S raw (filter (\<lambda>(k, v). v \<noteq> []) params) of None \<Rightarrow> raw | Some u \<Rightarrow> u)"

definition beginFlow ::
  "server \<Rightarrow> env \<Rightarrow> provider \<Rightarrow> Client \<Rightarrow> string \<Rightarrow> string \<Rightarrow> string option \<Rightarrow> reply handler" where
  "beginFlow S e p client redirectURI appState linkUserID =
     (case NewOpaqueToken (ctx e ''state'') 0 of
        Inl _ \<Rightarrow> internal
      | Inr state \<Rightarrow>
          (case NewVerifier (ctx e ''verifier'') 0 of
             Inl _ \<Rightarrow> internal
           | Inr verifier \<Rightarrow>
               seq (run_db (CreateOAuthFlow (srvLib S) (ctx e ''CreateOAuthFlow'') state
                     \<lparr>flProvider = pvName p, flClientID = cID client, flRedirectURI = redirectURI,
                      flAppState = appState, flCodeVerifier = verifier, flLinkUserID = linkUserID\<rparr>)) (\<lambda>res.
                 case res of
                   Inl _ \<Rightarrow> internal
                 | Inr _ \<Rightarrow> stop (Found (pvAuthURL p state (Challenge (srvLib S) verifier))))))"

text \<open>The part the two starts share: the client, its redirect, the check of it.\<close>

definition start_for ::
  "server \<Rightarrow> env \<Rightarrow> request \<Rightarrow> provider \<Rightarrow> string option \<Rightarrow> reply handler" where
  "start_for S e r p linkUserID =
     seq (lookupClient e (rqQuery r ''client_id'')) (\<lambda>client.
     let redirectURI = (if rqQuery r ''redirect_uri'' = [] \<and> length (cRedirectURIs client) = 1
                        then cRedirectURIs client ! 0 else rqQuery r ''redirect_uri'')
     in if \<not> AllowsRedirect client redirectURI
        then writeErr 400 ''invalid_redirect_uri'' ''redirect_uri is not registered for this client''
        else beginFlow S e p client redirectURI (rqQuery r ''state'') linkUserID)"

definition handleOAuthStart :: "server \<Rightarrow> env \<Rightarrow> request \<Rightarrow> reply handler" where
  "handleOAuthStart S e r =
     seq (find_provider S r) (\<lambda>p.
     seq (limit e ''limit ip'' (''oauth:ip:'' @ clientIP r) 60 hour) (\<lambda>_.
     start_for S e r p None))"

definition handleLinkStart :: "server \<Rightarrow> env \<Rightarrow> request \<Rightarrow> Claims \<Rightarrow> reply handler" where
  "handleLinkStart S e r claims =
     seq (find_provider S r) (\<lambda>p. start_for S e r p (Some (clSubject claims)))"

section \<open>The callback\<close>

definition redirectWithError :: "server \<Rightarrow> OAuthFlow \<Rightarrow> string \<Rightarrow> 'a handler" where
  "redirectWithError S flow code =
     stop (Found (appendQuery S (flRedirectURI flow) [(''error'', code), (''state'', flAppState flow)]))"

definition resolve_user :: "server \<Rightarrow> env \<Rightarrow> provider \<Rightarrow> OAuthFlow \<Rightarrow> Profile \<Rightarrow> string handler" where
  "resolve_user S e p flow profile =
     (case flLinkUserID flow of
        Some userID \<Rightarrow>
          seq (run_db (LinkToUser (dbStore (srvLib S) (ctx e)) userID (pvName p) profile)) (\<lambda>res.
            case res of
              Inl err \<Rightarrow>
                if err = ErrAlreadyLinkedElsewhere then redirectWithError S flow ''already_linked''
                else redirectWithError S flow ''link_failed''
            | Inr _ \<Rightarrow> give userID)
      | None \<Rightarrow>
          seq (run_db (Resolve (dbStore (srvLib S) (ctx e)) (pvName p) profile)) (\<lambda>res.
            case res of
              Inl err \<Rightarrow>
                if err = ErrManualLinkRequired then redirectWithError S flow ''manual_link_required''
                else redirectWithError S flow ''login_failed''
            | Inr q \<Rightarrow>
                if uDisabledAt (resUser q) \<noteq> None then redirectWithError S flow ''account_disabled''
                else give (uID (resUser q))))"

text \<open>The end of a successful callback: a code for the client's backend.\<close>

definition hand_off :: "server \<Rightarrow> env \<Rightarrow> OAuthFlow \<Rightarrow> string \<Rightarrow> reply handler" where
  "hand_off S e flow userID =
     (case NewOpaqueToken (ctx e ''NewOpaqueToken'') 0 of
        Inl _ \<Rightarrow> internal
      | Inr authCode \<Rightarrow>
          seq (run_db (CreateAuthCode (srvLib S) (ctx e ''CreateAuthCode'') authCode
                \<lparr>acUserID = userID, acClientID = flClientID flow, acRedirectURI = flRedirectURI flow\<rparr>))
            (\<lambda>made. case made of
              Inl _ \<Rightarrow> internal
            | Inr _ \<Rightarrow>
                stop (Found (appendQuery S (flRedirectURI flow)
                  [(''code'', authCode), (''state'', flAppState flow)]))))"

text \<open>A callback whose state was found, from there on.\<close>

definition callback_for :: "server \<Rightarrow> env \<Rightarrow> request \<Rightarrow> provider \<Rightarrow> OAuthFlow \<Rightarrow> reply handler" where
  "callback_for S e r p flow =
     (if flProvider flow \<noteq> pvName p
      then writeErr 400 ''invalid_state'' ''state does not match this provider''
      else if rqQuery r ''error'' \<noteq> [] then redirectWithError S flow (rqQuery r ''error'')
      else if rqQuery r ''code'' = [] then redirectWithError S flow ''missing_code''
      else
        (case pvExchange p (rqQuery r ''code'') (flCodeVerifier flow) of
           Inl _ \<Rightarrow> redirectWithError S flow ''exchange_failed''
         | Inr profile \<Rightarrow>
             seq (resolve_user S e p flow
                   (profile\<lparr>pEmail := normalizeEmail (srvLib S) (pEmail profile)\<rparr>))
               (hand_off S e flow)))"

definition handleOAuthCallback :: "server \<Rightarrow> env \<Rightarrow> request \<Rightarrow> reply handler" where
  "handleOAuthCallback S e r =
     seq (find_provider S r) (\<lambda>p.
     seq (run_db (ConsumeOAuthFlow (srvLib S) (ctx e ''ConsumeOAuthFlow'') (rqQuery r ''state''))) (\<lambda>res.
     case res of
       Inl _ \<Rightarrow> writeErr 400 ''invalid_state'' ''this sign-in link is invalid or has already been used''
     | Inr flow \<Rightarrow> callback_for S e r p flow))"

section \<open>The exchange\<close>

record exchangeReq =
  xqCode :: string
  xqClientID :: string
  xqClientSecret :: string

definition zero_exchangeReq :: exchangeReq where
  "zero_exchangeReq = \<lparr>xqCode = [], xqClientID = [], xqClientSecret = []\<rparr>"

definition exchangeReq_fields :: "exchangeReq fields" where
  "exchangeReq_fields =
     [(''code'', into_string (\<lambda>s q. q\<lparr>xqCode := s\<rparr>)),
      (''client_id'', into_string (\<lambda>s q. q\<lparr>xqClientID := s\<rparr>)),
      (''client_secret'', into_string (\<lambda>s q. q\<lparr>xqClientSecret := s\<rparr>))]"

text \<open>The client a secret proves; any failure is the same answer. A panic of argon2 is a 500.\<close>

definition authenticate_client :: "server \<Rightarrow> env \<Rightarrow> exchangeReq \<Rightarrow> Client handler" where
  "authenticate_client S e req =
     seq (read_db (ClientByID (ctx e ''ClientByID'') (xqClientID req))) (\<lambda>found.
     case found of
       Inl _ \<Rightarrow> writeErr 401 ''invalid_client'' ''unknown client or bad secret''
     | Inr client \<Rightarrow>
         (case Verify (srvLib S) (cSecretHash client) (xqClientSecret req) of
            Inl Argon2Panics \<Rightarrow> internal
          | Inl _ \<Rightarrow> writeErr 401 ''invalid_client'' ''unknown client or bad secret''
          | Inr ok \<Rightarrow>
              if \<not> ok then writeErr 401 ''invalid_client'' ''unknown client or bad secret''
              else give client))"

definition handleTokenExchange :: "server \<Rightarrow> env \<Rightarrow> request \<Rightarrow> reply handler" where
  "handleTokenExchange S e r =
     seq (decode S r exchangeReq_fields zero_exchangeReq) (\<lambda>req.
     seq (limit e ''limit ip'' (''exchange:ip:'' @ clientIP r) 120 hour) (\<lambda>_.
     seq (authenticate_client S e req) (\<lambda>client.
     seq (run_db (ConsumeAuthCode (srvLib S) (ctx e ''ConsumeAuthCode'') (xqCode req))) (\<lambda>res.
     case res of
       Inl _ \<Rightarrow> writeErr 400 ''invalid_code'' ''this code is invalid, expired, or already used''
     | Inr ac \<Rightarrow>
         if acClientID ac \<noteq> cID client
         then writeErr 400 ''invalid_code'' ''this code was not issued to this client''
         else
           seq (read_db (UserByID (ctx e ''UserByID'') (acUserID ac))) (\<lambda>found.
           case found of
             Inl _ \<Rightarrow> internal
           | Inr u \<Rightarrow>
               if uDisabledAt u \<noteq> None
               then writeErr 403 ''account_disabled'' ''this account is disabled''
               else
                 seq (run_db (CreateSession (srvLib S) (ctx e ''CreateSession'') (uID u) (cID client)
                       (session_meta r))) (\<lambda>made.
                 case made of
                   Inl _ \<Rightarrow> internal
                 | Inr iss \<Rightarrow>
                     seq (respondWithTokens S e u (cAudience client) iss) (answer_tokens 200)))))))"

section \<open>Registering clients: \<open>admin.go\<close>\<close>

record createClientReq =
  ccID :: string
  ccName :: string
  ccRedirectURIs :: "string list"
  ccAudience :: string

definition zero_createClientReq :: createClientReq where
  "zero_createClientReq = \<lparr>ccID = [], ccName = [], ccRedirectURIs = [], ccAudience = []\<rparr>"

definition into_strings :: "(string list \<Rightarrow> 'r \<Rightarrow> 'r) \<Rightarrow> json \<Rightarrow> 'r \<Rightarrow> 'r option" where
  "into_strings upd v q =
     (case into_slice (into_string (\<lambda>s _. s)) [] v of None \<Rightarrow> None | Some ss \<Rightarrow> Some (upd ss q))"

definition createClientReq_fields :: "createClientReq fields" where
  "createClientReq_fields =
     [(''id'', into_string (\<lambda>s q. q\<lparr>ccID := s\<rparr>)),
      (''name'', into_string (\<lambda>s q. q\<lparr>ccName := s\<rparr>)),
      (''redirect_uris'', into_strings (\<lambda>ss q. q\<lparr>ccRedirectURIs := ss\<rparr>)),
      (''audience'', into_string (\<lambda>s q. q\<lparr>ccAudience := s\<rparr>))]"

text \<open>\<open>validRedirect\<close>: \<open>None\<close> when the URL is acceptable, else the message.\<close>

definition validRedirect :: "server \<Rightarrow> string \<Rightarrow> string option" where
  "validRedirect S raw =
     (case srvURL S raw of
        None \<Rightarrow> Some ''redirect_uri is not a valid URL''
      | Some u \<Rightarrow>
          if urlScheme u = [] \<or> urlHost u = [] then Some ''redirect_uri must be absolute''
          else if urlFragment u \<noteq> [] then Some ''redirect_uri must not contain a fragment''
          else
            let isLocal = urlHostname u \<in> set [''localhost'', ''127.0.0.1'', ''::1''] in
            if urlScheme u \<noteq> ''https'' \<and> \<not> (urlScheme u = ''http'' \<and> isLocal)
            then Some ''redirect_uri must use https (http is allowed only for localhost)''
            else if CHR ''*'' \<in> set raw then Some ''wildcards are not allowed in redirect_uri''
            else None)"

fun check_redirects :: "server \<Rightarrow> string list \<Rightarrow> string option" where
  "check_redirects S [] = None"
| "check_redirects S (u # us) =
     (case validRedirect S u of Some m \<Rightarrow> Some m | None \<Rightarrow> check_redirects S us)"

definition handleCreateClient :: "server \<Rightarrow> env \<Rightarrow> request \<Rightarrow> reply handler" where
  "handleCreateClient S e r =
     seq (decode S r createClientReq_fields zero_createClientReq) (\<lambda>req.
     if ccID req = [] \<or> ccName req = []
     then writeErr 400 ''invalid_request'' ''id and name are required''
     else
       let audience = (if ccAudience req = [] then ccID req else ccAudience req) in
       case check_redirects S (ccRedirectURIs req) of
         Some m \<Rightarrow> writeErr 400 ''invalid_redirect_uri'' m
       | None \<Rightarrow>
           (case NewOpaqueToken (ctx e ''NewOpaqueToken'') 0 of
              Inl _ \<Rightarrow> internal
            | Inr secret \<Rightarrow>
                (case Hash (srvLib S) (ctx e ''Hash'') secret of
                   Inl _ \<Rightarrow> internal
                 | Inr hash \<Rightarrow>
                     let c = \<lparr>cID = ccID req, cName = ccName req, cSecretHash = hash,
                              cRedirectURIs = ccRedirectURIs req, cAudience = audience\<rparr>
                     in seq (run_db (CreateClient (ctx e ''CreateClient'') c)) (\<lambda>res.
                          case res of
                            Inl _ \<Rightarrow> writeErr 409 ''client_exists'' ''a client with that id already exists''
                          | Inr _ \<Rightarrow>
                              writeJSON 201 (ClientCreated
                                \<lparr>cvID = cID c, cvName = cName c, cvAudience = cAudience c,
                                 cvRedirectURIs = cRedirectURIs c\<rparr> secret)))))"

definition handleListClients :: "env \<Rightarrow> reply handler" where
  "handleListClients e =
     seq (read_db (ListClients (ctx e ''ListClients''))) (\<lambda>rows.
       case rows of
         Inl _ \<Rightarrow> internal
       | Inr cs \<Rightarrow> writeJSON 200 (ClientsBody (map (\<lambda>c.
           \<lparr>cvID = cID c, cvName = cName c, cvAudience = cAudience c,
            cvRedirectURIs = cRedirectURIs c\<rparr>) cs)))"

end
