(* ===== verification/Integrity.thy ===== *)
theory Integrity
  imports Sessions Users Codes RateLimit Flows Linking
begin

text \<open>
  Every operation of \<open>internal/store\<close>, and \<open>Resolve\<close> and \<open>LinkToUser\<close> on top of it, keeps the
  constraints the migrations declare, whatever its arguments, whatever statement fails: keys stay
  unique and references point to rows that are there. The collection \<open>integrity\<close> holds one fact per
  operation.
\<close>

named_theorems integrity \<open>operations that keep the constraints of the database\<close>

lemma ok_CreateUser [integrity]: "db_ok H db \<Longrightarrow> db_ok H (snd (CreateUser H x m p db))"
  by (simp add: CreateUser_def Let_def db_ok_add_user)

lemma ok_MarkEmailVerified [integrity]: "db_ok H db \<Longrightarrow> db_ok H (snd (MarkEmailVerified x u db))"
  by (simp add: MarkEmailVerified_def db_ok_set_users key_update_where)

lemma ok_SetPasswordHash [integrity]: "db_ok H db \<Longrightarrow> db_ok H (snd (SetPasswordHash x u h db))"
  by (simp add: SetPasswordHash_def db_ok_set_users key_update_where)

lemma ok_CreateClient [integrity]: "db_ok H db \<Longrightarrow> db_ok H (snd (CreateClient x c db))"
  by (simp add: CreateClient_def db_ok_add_client)

lemma ok_CreateIdentity [integrity]: "db_ok H db \<Longrightarrow> db_ok H (snd (CreateIdentity x i db))"
  by (simp add: CreateIdentity_def Let_def db_ok_add_identity)

lemma ok_CreateUserWithIdentity [integrity]:
  "db_ok H db \<Longrightarrow> db_ok H (snd (CreateUserWithIdentity H x m v i db))"
proof (cases "CreateUserWithIdentity H x m v i db")
  case (Pair r db')
  assume ok: "db_ok H db"
  show ?thesis
  proof (cases r)
    case (Inl err)
    then show ?thesis using Pair ok by (auto dest: CreateUserWithIdentity_Inl)
  next
    case (Inr q)
    obtain u j where q: "q = (u, j)" by (cases q)
    note run = CreateUserWithIdentity_Inr [OF Pair [unfolded Inr q]]
    show ?thesis
      using db_ok_add_identity [OF db_ok_add_user [OF ok run(6)] run(8)] run(9) Pair by simp
  qed
qed

text \<open>Sessions.\<close>

lemma ok_insertSession [integrity]:
  "db_ok H db \<Longrightarrow> db_ok H (snd (insertSession L x k n u c f p m db))"
  by (simp add: insertSession_def Let_def db_ok_add_session split: sum.split)

lemma ok_CreateSession [integrity]: "db_ok H db \<Longrightarrow> db_ok H (snd (CreateSession L x u c m db))"
  by (simp add: CreateSession_def Let_def ok_insertSession)

lemma ok_session_update:
  assumes "db_ok H db"
    and "\<And>s. sID (f s) = sID s \<and> sTokenHash (f s) = sTokenHash s \<and> sUserID (f s) = sUserID s \<and>
      sClientID (f s) = sClientID s"
  shows "db_ok H (db\<lparr>sessions := update_where P f (sessions db)\<rparr>)"
proof (rule db_ok_set_sessions [OF assms(1)])
  show "distinct (map sID (update_where P f (sessions db)))"
    "distinct (map sTokenHash (update_where P f (sessions db)))"
    using assms by (simp_all add: key_update_where db_ok_def)
  show "\<forall>s \<in> set (update_where P f (sessions db)).
      \<exists>q \<in> set (sessions db). sUserID s = sUserID q \<and> sClientID s = sClientID q"
    using assms(2) by (auto simp: ball_update_where)
qed

lemma ok_revoke_where [integrity]: "db_ok H db \<Longrightarrow> db_ok H (revoke_where P t db)"
  by (simp add: revoke_where_def ok_session_update)

lemma ok_Rotate [integrity]:
  assumes "db_ok H db"
  shows "db_ok H (snd (Rotate L x tok m db))"
proof (cases "Rotate L x tok m db")
  case (Pair r db')
  consider (iss) iss where "r = Inr iss" | (reuse) "r = Inl ErrTokenReuse"
    | (other) err where "r = Inl err" "err \<noteq> ErrTokenReuse" by (cases r) auto
  then show ?thesis
  proof cases
    case iss
    from Pair [unfolded iss] obtain row :: Session where row:
      "session_ok (db\<lparr>sessions := mark_used (sID row) (clk x 1) (sessions db)\<rparr>) (isSession iss)"
      "db' = db\<lparr>sessions := mark_used (sID row) (clk x 1) (sessions db) @ [isSession iss]\<rparr>"
      by (rule Rotate_Inr)
    have "db_ok H (db\<lparr>sessions := mark_used (sID row) (clk x 1) (sessions db)\<rparr>)"
      using assms by (simp add: mark_used_def ok_session_update)
    from db_ok_add_session [OF this row(1)] row(2) Pair show ?thesis by simp
  next
    case reuse
    from Pair [unfolded reuse] obtain row :: Session
      where "db' = revoke_where (\<lambda>s. sFamilyID s = sFamilyID row) (clk x 0) db" by (elim Rotate_reuse)
    with assms Pair show ?thesis by (simp add: ok_revoke_where)
  next
    case other
    with Pair assms show ?thesis by (auto dest: Rotate_other)
  qed
qed

lemma ok_RevokeFamily [integrity]: "db_ok H db \<Longrightarrow> db_ok H (snd (RevokeFamily x f db))"
  by (simp add: RevokeFamily_def ok_revoke_where)

lemma ok_RevokeAllForUser [integrity]: "db_ok H db \<Longrightarrow> db_ok H (snd (RevokeAllForUser x u db))"
  by (simp add: RevokeAllForUser_def ok_revoke_where)

lemma ok_RevokeByToken [integrity]: "db_ok H db \<Longrightarrow> db_ok H (snd (RevokeByToken L x y tok db))"
  by (simp add: RevokeByToken_def ok_RevokeFamily split: sum.split)

lemma ok_PruneSessions [integrity]: "db_ok H db \<Longrightarrow> db_ok H (snd (PruneSessions x d db))"
  by (auto simp: PruneSessions_def Let_def db_ok_def mem_delete_where
      intro!: db_ok_set_sessions distinct_delete_where)

text \<open>Codes, flows, counters.\<close>

lemma ok_IssueCode [integrity]:
  assumes "db_ok H db"
  shows "db_ok H (snd (IssueCode L x i p code ttl db))"
proof (cases "IssueCode L x i p code ttl db")
  case (Pair r db')
  then show ?thesis
  proof (cases rule: IssueCode_cases)
    case 2
    have d: "distinct (map oID (otp_codes db))" using assms by (simp add: db_ok_def)
    then have "distinct (map oID (burn i p (clk x 0) (otp_codes db) @ [issued_row L x i p code ttl]))"
      using 2(2) by (simp add: burn_def key_update_where otp_ok_def del: set_map)
    with db_ok_set_otp [OF assms] 2(3) Pair show ?thesis by simp
  qed (use assms Pair in simp)
qed

lemma ok_otp_update:
  "db_ok H db \<Longrightarrow> (\<And>r. oID (f r) = oID r) \<Longrightarrow> db_ok H (db\<lparr>otp_codes := update_where P f (otp_codes db)\<rparr>)"
  by (rule db_ok_set_otp) (simp_all add: key_update_where db_ok_def)

lemma ok_ConsumeCode [integrity]:
  assumes "db_ok H db"
  shows "db_ok H (snd (ConsumeCode L x t i p code db))"
proof (cases "ConsumeCode L x t i p code db")
  case (Pair r db')
  then show ?thesis
    by (cases rule: ConsumeCode_cases) (use assms Pair in \<open>simp_all add: ok_otp_update\<close>)
qed

lemma ok_ConsumeToken [integrity]:
  assumes "db_ok H db"
  shows "db_ok H (snd (ConsumeToken L x p tok db))"
proof (cases "ConsumeToken L x p tok db")
  case (Pair r db')
  then show ?thesis
    by (cases rule: ConsumeToken_cases) (use assms Pair in \<open>simp_all add: ok_otp_update\<close>)
qed

lemma ok_PruneCodes [integrity]: "db_ok H db \<Longrightarrow> db_ok H (snd (PruneCodes x d db))"
  by (auto simp: PruneCodes_def Let_def db_ok_def intro!: db_ok_set_otp distinct_delete_where)

lemma ok_CreateOAuthFlow [integrity]: "db_ok H db \<Longrightarrow> db_ok H (snd (CreateOAuthFlow L x st f db))"
  by (simp add: CreateOAuthFlow_def Let_def db_ok_add_flow)

lemma ok_ConsumeOAuthFlow [integrity]:
  assumes "db_ok H db"
  shows "db_ok H (snd (ConsumeOAuthFlow L x st db))"
proof -
  have "db_ok H (db\<lparr>oauth_flows := update_where P (\<lambda>r. r\<lparr>fConsumedAt := v\<rparr>) (oauth_flows db)\<rparr>)" for P v
    using assms by (intro db_ok_set_flows) (auto simp: key_update_where db_ok_def ball_update_where)
  then show ?thesis using assms
    by (auto simp: ConsumeOAuthFlow_def split: option.split)
qed

lemma ok_CreateAuthCode [integrity]: "db_ok H db \<Longrightarrow> db_ok H (snd (CreateAuthCode L x code c db))"
  by (simp add: CreateAuthCode_def Let_def db_ok_add_auth_code)

lemma ok_ConsumeAuthCode [integrity]:
  assumes "db_ok H db"
  shows "db_ok H (snd (ConsumeAuthCode L x code db))"
proof -
  have "db_ok H (db\<lparr>auth_codes := update_where P (\<lambda>r. r\<lparr>aConsumedAt := v\<rparr>) (auth_codes db)\<rparr>)" for P v
    using assms by (intro db_ok_set_auth_codes) (auto simp: key_update_where db_ok_def ball_update_where)
  then show ?thesis using assms
    by (auto simp: ConsumeAuthCode_def split: option.split)
qed

lemma ok_PruneOAuth [integrity]:
  assumes "db_ok H db"
  shows "db_ok H (snd (PruneOAuth x db))"
proof -
  have f: "db_ok H (d\<lparr>oauth_flows := delete_where P (oauth_flows d)\<rparr>)" if "db_ok H d" for P d
    using that by (intro db_ok_set_flows distinct_delete_where) (auto simp: db_ok_def mem_delete_where)
  have c: "db_ok H (d\<lparr>auth_codes := delete_where P (auth_codes d)\<rparr>)" if "db_ok H d" for P d
    using that by (intro db_ok_set_auth_codes distinct_delete_where) (auto simp: db_ok_def mem_delete_where)
  show ?thesis
    using assms f [OF assms] c [OF f [OF assms]] by (simp add: PruneOAuth_def Let_def)
qed

lemma ok_Allow [integrity]:
  assumes "db_ok H db"
  shows "db_ok H (snd (Allow x b n w db))"
proof -
  let ?key = "\<lambda>r. (rBucket r, rWindowStart r)"
  have d: "distinct (map ?key (rate_limits db))" using assms by (simp add: db_ok_def)
  have "distinct (map ?key (rate_limits db @ [\<lparr>rBucket = b, rWindowStart = s, rCount = 1\<rparr>]))"
    if "select_one (in_window b s) (rate_limits db) = None" for s
    using d that by (auto simp: select_one_None in_window_def)
  moreover have "map ?key (update_where P (\<lambda>q. q\<lparr>rCount := rCount q + 1\<rparr>) (rate_limits db)) =
      map ?key (rate_limits db)" for P
    by (simp add: key_update_where)
  ultimately show ?thesis
    using assms d db_ok_set_rates [OF assms] by (simp add: Allow_def Let_def split: option.split)
qed

lemma ok_PruneRateLimits [integrity]: "db_ok H db \<Longrightarrow> db_ok H (snd (PruneRateLimits x d db))"
  by (auto simp: PruneRateLimits_def Let_def db_ok_def intro!: db_ok_set_rates distinct_delete_where)

text \<open>Linking.\<close>

lemma ok_Resolve [integrity]: "db_ok H db \<Longrightarrow> db_ok H (snd (Resolve (dbStore H e) prov p db))"
  using links.Resolve_inv [OF _ prod.collapse [symmetric]] .

lemma ok_LinkToUser [integrity]: "db_ok H db \<Longrightarrow> db_ok H (snd (LinkToUser (dbStore H e) u prov p db))"
  using links.LinkToUser_inv [OF _ prod.collapse [symmetric]] .

end
