(* ===== verification/Service.thy ===== *)
theory Service
  imports AuthHandlers SessionHandlers OAuthHandlers Integrity
begin

text \<open>
  The service as a whole: the routing table of \<open>api.go\<close>, the nightly prune of
  \<open>cmd/authsvc/main.go\<close>, and the machine they make. A step of the machine serves one request,
  delivers one background mail, or prunes; its invariant, that the database keeps its constraints
  and that every redirect recorded in it is registered for its client, holds after any run.
\<close>

section \<open>Routes\<close>

text \<open>The endpoints that read or change state; the key set, the health check and the static pages
  are left out.\<close>

datatype endpoint =
    Register | Login | EmailVerify | PasswordForgot | PasswordReset | OTPRequest | OTPVerify
  | OAuthStart | OAuthCallback | LinkStart | TokenExchange | Refresh | Logout | LogoutAll | Me
  | ListSessions | DeleteSession | CreateClientEndpoint | ListClientsEndpoint

definition Routes :: "server \<Rightarrow> env \<Rightarrow> request \<Rightarrow> endpoint \<Rightarrow> reply handler" where
  "Routes S e r ep =
     (case ep of
        Register \<Rightarrow> handleRegister S e r
      | Login \<Rightarrow> handleLogin S e r
      | EmailVerify \<Rightarrow> handleEmailVerify S e r
      | PasswordForgot \<Rightarrow> handlePasswordForgot S e r
      | PasswordReset \<Rightarrow> handlePasswordReset S e r
      | OTPRequest \<Rightarrow> handleOTPRequest S e r
      | OTPVerify \<Rightarrow> handleOTPVerify S e r
      | OAuthStart \<Rightarrow> handleOAuthStart S e r
      | OAuthCallback \<Rightarrow> handleOAuthCallback S e r
      | LinkStart \<Rightarrow> requireUser S e r (handleLinkStart S e r)
      | TokenExchange \<Rightarrow> handleTokenExchange S e r
      | Refresh \<Rightarrow> handleRefresh S e r
      | Logout \<Rightarrow> requireUser S e r (handleLogout S e)
      | LogoutAll \<Rightarrow> requireUser S e r (handleLogoutAll S e)
      | Me \<Rightarrow> requireUser S e r (handleMe e)
      | ListSessions \<Rightarrow> requireUser S e r (handleListSessions e)
      | DeleteSession \<Rightarrow> requireUser S e r (handleDeleteSession e r)
      | CreateClientEndpoint \<Rightarrow> requireAdmin S r (handleCreateClient S e r)
      | ListClientsEndpoint \<Rightarrow> requireAdmin S r (handleListClients e))"

definition sessionGrace :: duration where
  "sessionGrace = 30 * 24 * hour"

text \<open>\<open>pruneOnce\<close>: each table in turn, errors logged and passed over.\<close>

definition pruneOnce :: "env \<Rightarrow> DB \<Rightarrow> DB" where
  "pruneOnce e db =
     (let db1 = snd (PruneSessions (ctx e ''PruneSessions'') sessionGrace db);
          db2 = snd (PruneCodes (ctx e ''PruneCodes'') (24 * hour) db1);
          db3 = snd (PruneRateLimits (ctx e ''PruneRateLimits'') (24 * hour) db2)
      in snd (PruneOAuth (ctx e ''PruneOAuth'') db3))"

text \<open>A request finds an empty response; a delivery takes its job off the list.\<close>

definition fresh_response :: "world \<Rightarrow> world" where
  "fresh_response w = w\<lparr>wCookies := [], wHeader := []\<rparr>"

inductive service_step :: "server \<Rightarrow> world \<Rightarrow> world \<Rightarrow> bool" for S where
  request: "serve (Routes S e r ep) (fresh_response w) = (rep, w') \<Longrightarrow> service_step S w w'"
| delivery: "u \<in> set (wJobs w) \<Longrightarrow>
     deliverEmailVerification (srvLib S) e u (w\<lparr>wJobs := remove1 u (wJobs w)\<rparr>) = (res, w') \<Longrightarrow>
     service_step S w w'"
| prune: "service_step S w (w\<lparr>wDB := pruneOnce e (wDB w)\<rparr>)"

section \<open>What every handler keeps\<close>

text \<open>A predicate of the database, kept step by step.\<close>

definition on_db :: "(DB \<Rightarrow> bool) \<Rightarrow> world \<Rightarrow> bool" where
  "on_db I w \<longleftrightarrow> I (wDB w)"

lemma kept_run_db [keeps]: "(\<And>db. I db \<Longrightarrow> I (snd (m db))) \<Longrightarrow> kept (on_db I) (run_db m)"
  by (auto simp: kept_def on_db_def run_db_def zoom_def split: prod.splits) (metis snd_conv)

lemma kept_read_db [keeps]: "kept (on_db I) (read_db f)"
  by (simp add: kept_def read_db_def)

lemma kept_set_header [keeps]: "kept (on_db I) (set_header k v)"
  by (simp add: kept_def on_db_def set_header_def)

lemma kept_set_cookie [keeps]: "kept (on_db I) (set_cookie c)"
  by (simp add: kept_def on_db_def set_cookie_def)

lemma kept_send_mail [keeps]: "kept (on_db I) (send_mail e site m)"
  by (simp add: kept_def on_db_def send_mail_def)

lemma kept_sendEmailVerification [keeps]: "kept (on_db I) (sendEmailVerification u)"
  by (simp add: kept_def on_db_def sendEmailVerification_def)

lemma kept_Let [keeps]: "kept I (f v) \<Longrightarrow> kept I (Let v f)"
  by (simp add: Let_def)

lemma kept_next [keeps]:
  "kept I a \<Longrightarrow> kept I b \<Longrightarrow> (\<And>v s. kept I (f v s)) \<Longrightarrow>
   kept I (case n of JEnd \<Rightarrow> a | JBad \<Rightarrow> b | JValue v s \<Rightarrow> f v s)"
  by (simp split: json_next.split)

lemma kept_password_error [keeps]:
  "kept I a \<Longrightarrow> kept I b \<Longrightarrow> (\<And>v. kept I (c v)) \<Longrightarrow> kept I d \<Longrightarrow>
   kept I (case n of RandFails \<Rightarrow> a | ErrInvalidHash \<Rightarrow> b | UnsupportedVersion v \<Rightarrow> c v | Argon2Panics \<Rightarrow> d)"
  by (simp split: password_error.split)

lemmas reply_defs = writeErr_def writeJSON_def internal_def redirectWithError_def

lemma kept_reply [keeps]:
  "kept I (writeErr st c m)" "kept I (writeJSON st v)" "kept I internal" "kept I (redirectWithError S f k)"
  by (simp_all add: reply_defs kept_def)

text \<open>
  The operations of the store that mint no secret. A predicate they all keep is kept by whatever a
  handler does with them.
\<close>

locale db_ops =
  fixes S :: server and I :: "DB \<Rightarrow> bool"
  assumes Allow: "I db \<Longrightarrow> I (snd (Allow x b n win db))"
    and CreateUser: "I db \<Longrightarrow> I (snd (CreateUser (srvLib S) x m p db))"
    and MarkEmailVerified: "I db \<Longrightarrow> I (snd (MarkEmailVerified x u db))"
    and SetPasswordHash: "I db \<Longrightarrow> I (snd (SetPasswordHash x u h db))"
    and CreateClient: "I db \<Longrightarrow> I (snd (CreateClient x c db))"
    and RevokeFamily: "I db \<Longrightarrow> I (snd (RevokeFamily x fam db))"
    and RevokeAllForUser: "I db \<Longrightarrow> I (snd (RevokeAllForUser x u db))"
    and ConsumeCode: "I db \<Longrightarrow> I (snd (ConsumeCode (srvLib S) x t i q code db))"
    and ConsumeToken: "I db \<Longrightarrow> I (snd (ConsumeToken (srvLib S) x q tok db))"
    and ConsumeOAuthFlow: "I db \<Longrightarrow> I (snd (ConsumeOAuthFlow (srvLib S) x st db))"
    and ConsumeAuthCode: "I db \<Longrightarrow> I (snd (ConsumeAuthCode (srvLib S) x code db))"
    and Resolve: "I db \<Longrightarrow> I (snd (Resolve (dbStore (srvLib S) ce) prov prof db))"
    and LinkToUser: "I db \<Longrightarrow> I (snd (LinkToUser (dbStore (srvLib S) ce) u prov prof db))"
    and prunes: "I db \<Longrightarrow> I (snd (PruneSessions x d db))" "I db \<Longrightarrow> I (snd (PruneCodes x d db))"
      "I db \<Longrightarrow> I (snd (PruneRateLimits x d db))" "I db \<Longrightarrow> I (snd (PruneOAuth x db))"
begin

lemmas ops = Allow CreateUser MarkEmailVerified SetPasswordHash CreateClient RevokeFamily
  RevokeAllForUser ConsumeCode ConsumeToken ConsumeOAuthFlow ConsumeAuthCode Resolve LinkToUser

lemma kept_decode: "kept (on_db I) (decode S r fs z)"
  unfolding decode_def by (intro keeps)

lemma kept_limit: "kept (on_db I) (limit e site b n win)"
  unfolding limit_def by (rule keeps Allow | assumption)+

lemma kept_lookupClient: "kept (on_db I) (lookupClient e k)"
  unfolding lookupClient_def by (intro keeps)

lemma kept_respondWithTokens: "kept (on_db I) (respondWithTokens S e u aud iss)"
  unfolding respondWithTokens_def setRefreshCookie_def by (intro keeps)

lemma kept_answer_tokens: "kept (on_db I) (answer_tokens st v)"
  unfolding answer_tokens_def by (intro keeps)

lemma kept_clearRefreshCookie: "kept (on_db I) (clearRefreshCookie S)"
  unfolding clearRefreshCookie_def by (intro keeps)

lemma kept_find_provider: "kept (on_db I) (find_provider S r)"
  unfolding find_provider_def by (rule keeps | assumption)+

lemma kept_requireUser: "(\<And>c. kept (on_db I) (n c)) \<Longrightarrow> kept (on_db I) (requireUser S e r n)"
  unfolding requireUser_def by (rule keeps | assumption)+

lemma kept_requireAdmin: "kept (on_db I) n \<Longrightarrow> kept (on_db I) (requireAdmin S r n)"
  unfolding requireAdmin_def by (rule keeps | assumption)+

lemma kept_securityHeaders: "kept (on_db I) securityHeaders"
  unfolding securityHeaders_def by (rule keeps | assumption)+

lemmas parts = kept_decode kept_limit kept_lookupClient kept_respondWithTokens
  kept_answer_tokens kept_clearRefreshCookie kept_find_provider kept_requireUser kept_requireAdmin

lemma kept_refreshed: "kept (on_db I) (refreshed S e iss)"
  unfolding refreshed_def by (rule keeps parts ops | assumption)+

lemma kept_otp_user: "kept (on_db I) (otp_user S e email)"
  unfolding otp_user_def by (rule keeps parts ops | assumption)+

lemma kept_authenticate_client: "kept (on_db I) (authenticate_client S e req)"
  unfolding authenticate_client_def by (rule keeps parts ops | assumption)+

lemmas stages = kept_refreshed kept_otp_user kept_authenticate_client

text \<open>The handlers that mint nothing.\<close>

lemma kept_handlers:
  "kept (on_db I) (handleEmailVerify S e r)" "kept (on_db I) (handlePasswordReset S e r)"
  "kept (on_db I) (handleLogout S e c)" "kept (on_db I) (handleLogoutAll S e c)"
  "kept (on_db I) (handleMe e c)" "kept (on_db I) (handleListSessions e c)"
  "kept (on_db I) (handleDeleteSession e r c)" "kept (on_db I) (handleCreateClient S e r)"
  "kept (on_db I) (handleListClients e)"
  unfolding handleEmailVerify_def handlePasswordReset_def handleLogout_def handleLogoutAll_def handleMe_def
    handleListSessions_def handleDeleteSession_def end_session_def handleCreateClient_def handleListClients_def
  by (rule keeps parts ops | assumption)+

lemma guarded: "db_ops S (\<lambda>db. P \<and> I db)"
  by unfold_locales (auto intro: ops prunes)

lemma kept_prune: "on_db I w \<Longrightarrow> on_db I (w\<lparr>wDB := pruneOnce e (wDB w)\<rparr>)"
  by (simp add: on_db_def pruneOnce_def Let_def prunes)

end

text \<open>Behind a consumed state stands its row; resolving the user leaves the row where it is.\<close>

lemma flows_Resolve: "oauth_flows (snd (Resolve (dbStore H e) prov prof db)) = oauth_flows db"
  using Resolve_rows [OF prod.collapse [symmetric], of H e prov prof db] by auto

lemma flows_LinkToUser: "oauth_flows (snd (LinkToUser (dbStore H e) u prov prof db)) = oauth_flows db"
  using LinkToUser_rows [OF prod.collapse [symmetric], of H e u prov prof db] by auto

definition recorded :: "(DB \<Rightarrow> bool) \<Rightarrow> OAuthFlow \<Rightarrow> DB \<Rightarrow> bool" where
  "recorded I fl db \<longleftrightarrow> I db \<and>
     (\<exists>row \<in> set (oauth_flows db). fRedirectURI row = flRedirectURI fl \<and> fClientID row = flClientID fl)"

context db_ops
begin

lemma kept_resolve_user: "kept (on_db (recorded I fl)) (resolve_user S e p fl prof)"
proof -
  have ops: "recorded I fl db \<Longrightarrow> recorded I fl (snd (Resolve (dbStore (srvLib S) e') prov pr db))"
    "recorded I fl db \<Longrightarrow> recorded I fl (snd (LinkToUser (dbStore (srvLib S) e') u prov pr db))" for db e' prov pr u
    by (auto simp: recorded_def flows_Resolve flows_LinkToUser Resolve LinkToUser)
  show ?thesis
    unfolding resolve_user_def by (rule keeps ops | assumption)+
qed

lemma ConsumeOAuthFlow_recorded:
  assumes "I db" and "ConsumeOAuthFlow (srvLib S) x st db = (Inr fl, db')"
  shows "recorded I fl db'"
proof -
  have "I db'" using ConsumeOAuthFlow [OF assms(1), of x st] assms(2) by simp
  moreover from assms(2) obtain row where row: "row \<in> set (oauth_flows db)"
    "flClientID fl = fClientID row" "flRedirectURI fl = fRedirectURI row"
    "db' = db\<lparr>oauth_flows := update_where (\<lambda>r. fStateHash r = fStateHash row)
         (\<lambda>r. r\<lparr>fConsumedAt := Some (clk x 1)\<rparr>) (oauth_flows db)\<rparr>"
    by (cases rule: ConsumeOAuthFlow_cases) auto
  moreover have "row\<lparr>fConsumedAt := Some (clk x 1)\<rparr> \<in> set (oauth_flows db')"
    using row(1,4) by (auto simp: mem_update_where)
  ultimately show ?thesis
    unfolding recorded_def by (intro conjI bexI [of _ "row\<lparr>fConsumedAt := Some (clk x 1)\<rparr>"]) simp_all
qed

end

section \<open>What a step does to two predicates\<close>

text \<open>
  The operations that mint a secret run once in a step of the service, in the contexts its
  environment \<open>e\<close> holds for them: they lead from \<open>A\<close>, which says that these contexts are
  unused, to \<open>B\<close>. A predicate that does not care is both (\<open>db_invariant\<close> below).
\<close>

locale db_phases = before: db_ops S A + after: db_ops S B
  for S :: server and A :: "DB \<Rightarrow> bool" and B :: "DB \<Rightarrow> bool" +
  fixes e :: env
  assumes weaken: "A db \<Longrightarrow> B db"
    and CreateSession: "A db \<Longrightarrow> B (snd (CreateSession (srvLib S) (ctx e ''CreateSession'') u k meta db))"
    and Rotate: "A db \<Longrightarrow> B (snd (Rotate (srvLib S) (ctx e ''Rotate'') tok meta db))"
    and IssueLoginCode: "A db \<Longrightarrow> B (snd (IssueCode (srvLib S) x i PurposeLoginOTP code ttl db))"
    and IssueToken: "A db \<Longrightarrow> NewOpaqueToken (ctx e ''NewOpaqueToken'') 0 = Inr code \<Longrightarrow>
      B (snd (IssueCode (srvLib S) x i q code ttl db))"
    and CreateOAuthFlow: "A db \<Longrightarrow> cl \<in> set (app_clients db) \<Longrightarrow>
      flRedirectURI fl \<in> set (cRedirectURIs cl) \<Longrightarrow> flClientID fl = cID cl \<Longrightarrow>
      NewOpaqueToken (ctx e ''state'') 0 = Inr st \<Longrightarrow> B (snd (CreateOAuthFlow (srvLib S) x st fl db))"
    and CreateAuthCode: "A db \<Longrightarrow> row \<in> set (oauth_flows db) \<Longrightarrow> acRedirectURI ac = fRedirectURI row \<Longrightarrow>
      acClientID ac = fClientID row \<Longrightarrow> NewOpaqueToken (ctx e ''NewOpaqueToken'') 0 = Inr code \<Longrightarrow>
      B (snd (CreateAuthCode (srvLib S) x code ac db))"
begin

lemma weaken_world: "on_db A w \<Longrightarrow> on_db B w"
  by (simp add: on_db_def weaken)

lemma moves_kept: "kept (on_db A) m \<Longrightarrow> moves (on_db A) (on_db B) m"
  by (rule moves_weaken [OF _ weaken_world])

lemma moves_seq: "kept (on_db A) m \<Longrightarrow> (\<And>a. moves (on_db A) (on_db B) (f a)) \<Longrightarrow>
    moves (on_db A) (on_db B) (seq m f)"
  by (rule moves_seq_before [OF _ weaken_world])

lemma moves_run: "(\<And>db. A db \<Longrightarrow> B (snd (m db))) \<Longrightarrow> moves (on_db A) (on_db B) (run_db m)"
  by (auto simp: moves_def on_db_def run_db_def zoom_def split: prod.splits) (metis snd_conv)

lemma mint:
  "moves (on_db A) (on_db B) (run_db (CreateSession (srvLib S) (ctx e ''CreateSession'') u k meta))"
  "moves (on_db A) (on_db B) (run_db (Rotate (srvLib S) (ctx e ''Rotate'') tok meta))"
  "moves (on_db A) (on_db B) (run_db (IssueCode (srvLib S) x i PurposeLoginOTP code ttl))"
  by (rule moves_run, erule CreateSession Rotate IssueLoginCode)+

lemma moves_IssueToken: "NewOpaqueToken (ctx e ''NewOpaqueToken'') 0 = Inr code \<Longrightarrow>
    moves (on_db A) (on_db B) (run_db (IssueCode (srvLib S) x i q code ttl))"
  by (rule moves_run) (rule IssueToken)

lemma moves_issueSession: "moves (on_db A) (on_db B) (issueSession S e r u c)"
  unfolding issueSession_def
  by (rule moves_seq_after [OF mint(1)]) (rule keeps after.parts after.ops | assumption)+

lemma moves_send_reset: "moves (on_db A) (on_db B) (send_reset S e email)"
  unfolding send_reset_def
  by (rule moves_IssueToken [THEN moves_seq_after] moves_seq moves_branches moves_kept [OF kept_give] keeps
      | assumption)+

lemmas minting = mint [THEN moves_seq_after] moves_issueSession [THEN moves_seq_after]
  moves_IssueToken [THEN moves_seq_after] moves_send_reset [THEN moves_seq_after]

lemmas moving = minting moves_seq moves_branches moves_kept [OF kept_reply(1)] moves_kept [OF kept_reply(2)]
  moves_kept [OF kept_reply(3)] moves_kept [OF kept_give] moves_kept [OF kept_stop] moves_kept [OF before.kept_refreshed]

lemmas keeping = keeps before.parts before.ops before.stages after.parts after.ops after.stages

lemma moves_auth_handlers:
  "moves (on_db A) (on_db B) (handleRegister S e r)" "moves (on_db A) (on_db B) (handleLogin S e r)"
  "moves (on_db A) (on_db B) (handlePasswordForgot S e r)" "moves (on_db A) (on_db B) (handleOTPRequest S e r)"
  "moves (on_db A) (on_db B) (handleOTPVerify S e r)"
  "moves (on_db A) (on_db B) (deliverEmailVerification (srvLib S) e u)"
  unfolding handleRegister_def handleLogin_def handlePasswordForgot_def handleOTPRequest_def
    handleOTPVerify_def deliverEmailVerification_def
  by (rule moving keeping | assumption)+

lemma moves_handleRefresh: "moves (on_db A) (on_db B) (handleRefresh S e r)"
  unfolding handleRefresh_def by (rule moving keeping | assumption)+

lemma moves_handleTokenExchange: "moves (on_db A) (on_db B) (handleTokenExchange S e r)"
  unfolding handleTokenExchange_def by (rule moving keeping | assumption)+

lemma moves_beginFlow:
  assumes "on_db A w" and "c \<in> set (app_clients (wDB w))" and "uri \<in> set (cRedirectURIs c)"
  shows "on_db B (snd (beginFlow S e p c uri st l w))"
proof (cases "NewOpaqueToken (ctx e ''state'') 0")
  case (Inl err)
  then show ?thesis using weaken_world [OF assms(1)] by (simp add: beginFlow_def internal_def writeErr_def)
next
  case (Inr state)
  let ?fl = "\<lambda>verifier. \<lparr>flProvider = pvName p, flClientID = cID c, flRedirectURI = uri, flAppState = st,
    flCodeVerifier = verifier, flLinkUserID = l\<rparr>"
  have "B (snd (CreateOAuthFlow (srvLib S) x state (?fl v) (wDB w)))" for x v
    using assms Inr by (intro CreateOAuthFlow [where cl = c]) (simp_all add: on_db_def)
  then show ?thesis
    using weaken_world [OF assms(1)] Inr
    by (auto simp: beginFlow_def on_db_def internal_def writeErr_def seq_def run_db_def zoom_def
        split: sum.splits prod.splits) (metis snd_conv)+
qed

lemma moves_start_for: "moves (on_db A) (on_db B) (start_for S e r p l)"
  unfolding start_for_def
proof (rule movesI, rule seq_post)
  fix w rep w' assume "on_db A w" and "lookupClient e (rqQuery r ''client_id'') w = (Inl rep, w')"
  then show "on_db B w'" using keptD [OF before.kept_lookupClient] weaken_world by blast
next
  fix w c w' assume i: "on_db A w" and "lookupClient e (rqQuery r ''client_id'') w = (Inr c, w')"
  note lc = lookupClient_Inr [OF this(2)]
  let ?uri = "if rqQuery r ''redirect_uri'' = [] \<and> length (cRedirectURIs c) = 1
    then cRedirectURIs c ! 0 else rqQuery r ''redirect_uri''"
  have w': "on_db A w'" "on_db B w'" using i lc(1) weaken_world by simp_all
  have "on_db B (snd (beginFlow S e p c ?uri st l w'))" if "AllowsRedirect c ?uri" for st
    by (rule moves_beginFlow [OF w'(1)]) (use that lc(1,2) in \<open>simp_all add: AllowsRedirect_iff\<close>)
  then show "on_db B (snd ((let redirectURI = ?uri
    in if \<not> AllowsRedirect c redirectURI
       then writeErr 400 ''invalid_redirect_uri'' ''redirect_uri is not registered for this client''
       else beginFlow S e p c redirectURI (rqQuery r ''state'') l) w'))"
    using w'(2) by (simp add: Let_def writeErr_def)
qed

lemma moves_requireUser: "(\<And>c. moves (on_db A) (on_db B) (n c)) \<Longrightarrow> moves (on_db A) (on_db B) (requireUser S e r n)"
  unfolding requireUser_def by (rule moving keeping | assumption)+

lemma moves_start_handlers:
  "moves (on_db A) (on_db B) (handleOAuthStart S e r)" "moves (on_db A) (on_db B) (handleLinkStart S e r c)"
  unfolding handleOAuthStart_def handleLinkStart_def
  by (rule moves_start_for moving keeping | assumption)+

lemma moves_hand_off: "moves (on_db (recorded A fl)) (on_db B) (hand_off S e fl u)"
  unfolding hand_off_def
proof (rule moves_branches)
  fix code
  assume new: "NewOpaqueToken (ctx e ''NewOpaqueToken'') 0 = Inr code"
  let ?ac = "\<lparr>acUserID = u, acClientID = flClientID fl, acRedirectURI = flRedirectURI fl\<rparr>"
  have "B (snd (CreateAuthCode (srvLib S) x code ?ac db))" if "recorded A fl db" for db x
  proof -
    obtain row where "row \<in> set (oauth_flows db)" "fRedirectURI row = flRedirectURI fl"
      "fClientID row = flClientID fl" "A db"
      using \<open>recorded A fl db\<close> by (auto simp: recorded_def)
    then show ?thesis using new by (intro CreateAuthCode [of db row]) simp_all
  qed
  then have "moves (on_db (recorded A fl)) (on_db B)
      (run_db (CreateAuthCode (srvLib S) (ctx e ''CreateAuthCode'') code ?ac))"
    by (auto simp: moves_def on_db_def run_db_def zoom_def split: prod.splits) (metis snd_conv)
  then show "moves (on_db (recorded A fl)) (on_db B)
    (seq (run_db (CreateAuthCode (srvLib S) (ctx e ''CreateAuthCode'') code ?ac)) (\<lambda>made. case made of
       Inl _ \<Rightarrow> internal
     | Inr _ \<Rightarrow> stop (Found (appendQuery S (flRedirectURI fl) [(''code'', code), (''state'', flAppState fl)]))))"
    by (rule moves_seq_after) (rule keeps | assumption)+
next
  show "moves (on_db (recorded A fl)) (on_db B) internal"
    using weaken by (auto simp: moves_def on_db_def recorded_def internal_def writeErr_def)
qed

lemma recorded_weaken: "on_db (recorded A fl) w \<Longrightarrow> on_db B w"
  by (simp add: on_db_def recorded_def weaken)

lemma moves_callback_for: "moves (on_db (recorded A fl)) (on_db B) (callback_for S e r p fl)"
  unfolding callback_for_def
  by (rule moves_branches moves_hand_off moves_weaken [OF kept_reply(1) recorded_weaken]
      moves_weaken [OF kept_reply(4) recorded_weaken]
      moves_seq_before [OF before.kept_resolve_user recorded_weaken] | assumption)+

lemma moves_callback: "moves (on_db A) (on_db B) (handleOAuthCallback S e r)"
  unfolding handleOAuthCallback_def
proof (rule moves_seq [OF before.kept_find_provider], rule movesI, rule seq_post)
  fix p w res w'
  assume "on_db A w" and "run_db (ConsumeOAuthFlow (srvLib S) (ctx e ''ConsumeOAuthFlow'') (rqQuery r ''state'')) w
      = (Inl res, w')"
  then show "on_db B w'" by (simp add: run_db_def zoom_def split: prod.splits)
next
  fix p w res w'
  assume i: "on_db A w"
    and m: "run_db (ConsumeOAuthFlow (srvLib S) (ctx e ''ConsumeOAuthFlow'') (rqQuery r ''state'')) w
      = (Inr res, w')"
  show "on_db B (snd ((case res of
      Inl _ \<Rightarrow> writeErr 400 ''invalid_state'' ''this sign-in link is invalid or has already been used''
    | Inr flow \<Rightarrow> callback_for S e r p flow) w'))"
  proof (cases res)
    case (Inl err)
    have "on_db A w'" using m i before.ConsumeOAuthFlow by (auto simp: run_db_Inr on_db_def)
    with Inl show ?thesis using weaken_world by (simp add: writeErr_def)
  next
    case (Inr fl)
    have "recorded A fl (wDB w')"
      using m [unfolded run_db_Inr Inr] i
      by (intro before.ConsumeOAuthFlow_recorded [of "wDB w" "ctx e ''ConsumeOAuthFlow''" "rqQuery r ''state''"])
        (simp_all add: on_db_def prod_eq_iff)
    then have "on_db B (snd (callback_for S e r p fl w'))"
      using moves_callback_for [of fl r p] by (simp add: moves_def on_db_def)
    with Inr show ?thesis by simp
  qed
qed

lemma moves_Routes: "moves (on_db A) (on_db B) (Routes S e r ep)"
  unfolding Routes_def
  by (cases ep)
    (simp_all add: moves_auth_handlers moves_handleRefresh moves_handleTokenExchange moves_start_handlers
      moves_callback moves_requireUser moves_kept before.kept_handlers before.kept_requireUser before.kept_requireAdmin)

lemma moves_request:
  assumes "serve (Routes S e r ep) (fresh_response w) = (rep, w')" and "on_db A w"
  shows "on_db B w'"
proof -
  have "moves (on_db A) (on_db B) (seq securityHeaders (\<lambda>_. Routes S e r ep))"
    by (rule moves_seq [OF before.kept_securityHeaders moves_Routes])
  moreover have "on_db A (fresh_response w)" using assms(2) by (simp add: fresh_response_def on_db_def)
  ultimately have "on_db B (snd (seq securityHeaders (\<lambda>_. Routes S e r ep) (fresh_response w)))"
    by (simp add: moves_def)
  then show ?thesis using assms(1) by (auto simp: serve_def split: prod.splits sum.splits)
qed

lemma moves_delivery:
  assumes "deliverEmailVerification (srvLib S) e u (w\<lparr>wJobs := js\<rparr>) = (res, w')" and "on_db A w"
  shows "on_db B w'"
  using movesD [OF moves_auth_handlers(6) _ assms(1)] assms(2) by (simp add: on_db_def)

end

text \<open>A predicate every operation keeps, whatever secrets it mints.\<close>

locale db_invariant = db_ops S I for S :: server and I :: "DB \<Rightarrow> bool" +
  assumes session: "I db \<Longrightarrow> I (snd (CreateSession (srvLib S) x u k meta db))"
    and rotation: "I db \<Longrightarrow> I (snd (Rotate (srvLib S) x tok meta db))"
    and issue: "I db \<Longrightarrow> I (snd (IssueCode (srvLib S) x i q code ttl db))"
    and flow: "I db \<Longrightarrow> cl \<in> set (app_clients db) \<Longrightarrow> flRedirectURI fl \<in> set (cRedirectURIs cl) \<Longrightarrow>
      flClientID fl = cID cl \<Longrightarrow> I (snd (CreateOAuthFlow (srvLib S) x st fl db))"
    and auth_code: "I db \<Longrightarrow> row \<in> set (oauth_flows db) \<Longrightarrow> acRedirectURI ac = fRedirectURI row \<Longrightarrow>
      acClientID ac = fClientID row \<Longrightarrow> I (snd (CreateAuthCode (srvLib S) x code ac db))"

sublocale db_invariant \<subseteq> one_phase: db_phases S I I e for e
  by unfold_locales (assumption | rule session rotation issue flow auth_code)+

context db_invariant
begin

lemma step_keeps:
  assumes "service_step S w w'" and "on_db I w"
  shows "on_db I w'"
  using assms(1)
proof cases
  case (request e r ep rep)
  then show ?thesis using one_phase.moves_request assms(2) by blast
next
  case (delivery u e res)
  then show ?thesis using one_phase.moves_delivery assms(2) by blast
next
  case (prune e)
  then show ?thesis using kept_prune [OF assms(2)] by simp
qed

end

section \<open>Two invariants\<close>

interpretation constraints: db_invariant S "db_ok (srvLib S)" for S
  by unfold_locales (rule integrity, assumption)+

text \<open>Every redirect the database records, for a flow or for a code, is registered for its client.\<close>

definition registered :: "DB \<Rightarrow> string \<Rightarrow> string \<Rightarrow> bool" where
  "registered db clientID uri \<longleftrightarrow>
     (\<exists>c \<in> set (app_clients db). cID c = clientID \<and> uri \<in> set (cRedirectURIs c))"

definition redirects_ok :: "DB \<Rightarrow> bool" where
  "redirects_ok db \<longleftrightarrow>
     (\<forall>f \<in> set (oauth_flows db). registered db (fClientID f) (fRedirectURI f)) \<and>
     (\<forall>a \<in> set (auth_codes db). registered db (aClientID a) (aRedirectURI a))"

lemma registered_simps [simp]:
  "registered (db\<lparr>users := t1\<rparr>) = registered db" "registered (db\<lparr>identities := t2\<rparr>) = registered db"
  "registered (db\<lparr>sessions := t3\<rparr>) = registered db" "registered (db\<lparr>otp_codes := t4\<rparr>) = registered db"
  "registered (db\<lparr>rate_limits := t5\<rparr>) = registered db" "registered (db\<lparr>oauth_flows := t6\<rparr>) = registered db"
  "registered (db\<lparr>auth_codes := t7\<rparr>) = registered db"
  by (simp_all add: registered_def fun_eq_iff)

lemma redirects_simps [simp]:
  "redirects_ok (db\<lparr>users := t1\<rparr>) = redirects_ok db" "redirects_ok (db\<lparr>identities := t2\<rparr>) = redirects_ok db"
  "redirects_ok (db\<lparr>sessions := t3\<rparr>) = redirects_ok db" "redirects_ok (db\<lparr>otp_codes := t4\<rparr>) = redirects_ok db"
  "redirects_ok (db\<lparr>rate_limits := t5\<rparr>) = redirects_ok db"
  by (simp_all add: redirects_ok_def)

lemma redirects_delete:
  "redirects_ok db \<Longrightarrow> redirects_ok (db\<lparr>oauth_flows := delete_where P (oauth_flows db)\<rparr>)"
  "redirects_ok db \<Longrightarrow> redirects_ok (db\<lparr>auth_codes := delete_where Q (auth_codes db)\<rparr>)"
  by (simp_all add: redirects_ok_def mem_delete_where)

lemma redirects_update:
  "redirects_ok db \<Longrightarrow> redirects_ok (db\<lparr>oauth_flows := update_where P (\<lambda>r. r\<lparr>fConsumedAt := v\<rparr>) (oauth_flows db)\<rparr>)"
  "redirects_ok db \<Longrightarrow> redirects_ok (db\<lparr>auth_codes := update_where Q (\<lambda>r. r\<lparr>aConsumedAt := v\<rparr>) (auth_codes db)\<rparr>)"
  by (simp_all add: redirects_ok_def ball_update_where)

lemma redirects_Rotate: "redirects_ok db \<Longrightarrow> redirects_ok (snd (Rotate L x tok m db))"
  by (auto simp: Rotate_def Let_def revoke_where_def insertSession_def split: sum.split prod.split)

lemma redirects_linking:
  "redirects_ok db \<Longrightarrow> redirects_ok (snd (Resolve (dbStore L e) prov prof db))"
  "redirects_ok db \<Longrightarrow> redirects_ok (snd (LinkToUser (dbStore L e) u prov prof db))"
  using Resolve_rows [OF prod.collapse [symmetric], of L e prov prof db]
    LinkToUser_rows [OF prod.collapse [symmetric], of L e u prov prof db] by auto

interpretation redirects: db_invariant S redirects_ok for S
proof (unfold_locales, goal_cases)
  case (1 db x b n win)
  then show ?case using Allow_rows [of x b n win db] by auto
next
  case (18 db x u k meta)
  then show ?case by (simp add: CreateSession_def insertSession_def Let_def split: sum.split)
next
  case (5 db x c)
  then show ?case by (auto simp: CreateClient_def redirects_ok_def registered_def)
next
  case (19 db x tok meta)
  then show ?case by (rule redirects_Rotate)
next
  case (20 db x i q code ttl)
  show ?case using 20
    by (cases "IssueCode (srvLib S) x i q code ttl db") (auto elim: IssueCode_cases)
next
  case (8 db x t i q code)
  show ?case using 8
    by (cases "ConsumeCode (srvLib S) x t i q code db") (auto elim: ConsumeCode_cases)
next
  case (9 db x q tok)
  show ?case using 9
    by (cases "ConsumeToken (srvLib S) x q tok db") (auto elim: ConsumeToken_cases)
next
  case (10 db x st)
  then show ?case by (auto simp: ConsumeOAuthFlow_def redirects_update split: option.split)
next
  case (11 db x code)
  then show ?case by (auto simp: ConsumeAuthCode_def redirects_update split: option.split)
next
  case (21 db cl fl x st)
  then show ?case
    by (auto simp: CreateOAuthFlow_def Let_def redirects_ok_def registered_def)
next
  case (22 db row ac x code)
  then have "registered db (acClientID ac) (acRedirectURI ac)" by (simp add: redirects_ok_def)
  with 22(1) show ?case by (auto simp: CreateAuthCode_def Let_def redirects_ok_def)
next
  case (17 db x)
  then show ?case by (auto simp: PruneOAuth_def Let_def redirects_ok_def mem_delete_where)
qed (simp_all add: CreateUser_def MarkEmailVerified_def SetPasswordHash_def RevokeFamily_def
    RevokeAllForUser_def revoke_where_def PruneSessions_def PruneCodes_def PruneRateLimits_def Let_def
    redirects_linking)

definition service_start :: "world \<Rightarrow> bool" where
  "service_start w \<longleftrightarrow> wDB w = empty_db"

definition service_inv :: "server \<Rightarrow> world \<Rightarrow> bool" where
  "service_inv S w \<longleftrightarrow> on_db (db_ok (srvLib S)) w \<and> on_db redirects_ok w"

interpretation service: machine service_start "service_step S" "service_inv S" for S
proof
  show "service_inv S w" if "service_start w" for w
    using that db_ok_empty by (simp add: service_start_def service_inv_def on_db_def redirects_ok_def empty_db_def)
  show "service_inv S w'" if "service_inv S w" "service_step S w w'" for w w'
    using that constraints.step_keeps redirects.step_keeps by (auto simp: service_inv_def)
qed

end
