(* ===== verification/Refinement.thy ===== *)
theory Refinement
  imports Service Lineage OTP
begin

text \<open>
  The service refines the three machines of the store. \<open>Lineage\<close> (refresh families), \<open>Flows\<close>
  (states and codes) and \<open>OTP\<close> (emailed tokens) let any operation run at any time with any
  argument; here a step of the whole service, whatever request it serves, is shown to be a run of
  each of them, provided that what the step draws at random was never drawn before. What the
  machines promise therefore holds of the service. The history beside the world is what has been
  drawn so far.
\<close>

section \<open>What an operation leaves alone\<close>

named_theorems frame \<open>tables an operation does not touch\<close>

lemma frame_Allow [frame]:
  "sessions (snd (Allow x b n win db)) = sessions db" "otp_codes (snd (Allow x b n win db)) = otp_codes db"
  "oauth_flows (snd (Allow x b n win db)) = oauth_flows db"
  "auth_codes (snd (Allow x b n win db)) = auth_codes db"
  using Allow_rows [of x b n win db] by auto

lemma frame_linking:
  assumes "db' = snd (Resolve (dbStore H ce) prov p db) \<or> db' = snd (LinkToUser (dbStore H ce) u prov p db)"
  shows "sessions db' = sessions db" "otp_codes db' = otp_codes db" "oauth_flows db' = oauth_flows db"
    "auth_codes db' = auth_codes db"
  using assms Resolve_rows [OF prod.collapse [symmetric], of H ce prov p db]
    LinkToUser_rows [OF prod.collapse [symmetric], of H ce u prov p db] by auto

lemmas frame_Resolve [frame] = frame_linking [OF disjI1 [OF refl]]
lemmas frame_LinkToUser [frame] = frame_linking [OF disjI2 [OF refl]]

lemma frame_accounts [frame]:
  "sessions (snd (CreateUser H x m pw db)) = sessions db" "otp_codes (snd (CreateUser H x m pw db)) = otp_codes db"
  "oauth_flows (snd (CreateUser H x m pw db)) = oauth_flows db"
  "auth_codes (snd (CreateUser H x m pw db)) = auth_codes db"
  "sessions (snd (MarkEmailVerified x u db)) = sessions db"
  "otp_codes (snd (MarkEmailVerified x u db)) = otp_codes db"
  "oauth_flows (snd (MarkEmailVerified x u db)) = oauth_flows db"
  "auth_codes (snd (MarkEmailVerified x u db)) = auth_codes db"
  "sessions (snd (SetPasswordHash x u h db)) = sessions db"
  "otp_codes (snd (SetPasswordHash x u h db)) = otp_codes db"
  "oauth_flows (snd (SetPasswordHash x u h db)) = oauth_flows db"
  "auth_codes (snd (SetPasswordHash x u h db)) = auth_codes db"
  "sessions (snd (CreateClient x c db)) = sessions db" "otp_codes (snd (CreateClient x c db)) = otp_codes db"
  "oauth_flows (snd (CreateClient x c db)) = oauth_flows db"
  "auth_codes (snd (CreateClient x c db)) = auth_codes db"
  by (simp_all add: CreateUser_def MarkEmailVerified_def SetPasswordHash_def CreateClient_def Let_def)

lemma frame_sessions:
  assumes "db' = snd (CreateSession H x u k m db) \<or> db' = snd (Rotate H x tk m db) \<or>
    db' = snd (RevokeFamily x f db) \<or> db' = snd (RevokeAllForUser x u db) \<or> db' = snd (PruneSessions x d db)"
  shows "otp_codes db' = otp_codes db" "oauth_flows db' = oauth_flows db" "auth_codes db' = auth_codes db"
  using assms
  by (auto simp: CreateSession_def insertSession_def Rotate_def RevokeFamily_def RevokeAllForUser_def
      PruneSessions_def revoke_where_def Let_def split: sum.split prod.split)

lemmas frame_sessions_each [frame] =
  frame_sessions [OF disjI1 [OF refl]]
  frame_sessions [OF disjI2 [OF disjI1 [OF refl]]]
  frame_sessions [OF disjI2 [OF disjI2 [OF disjI1 [OF refl]]]]
  frame_sessions [OF disjI2 [OF disjI2 [OF disjI2 [OF disjI1 [OF refl]]]]]
  frame_sessions [OF disjI2 [OF disjI2 [OF disjI2 [OF disjI2 [OF refl]]]]]

lemma frame_codes:
  assumes "db' = snd (IssueCode H x i p code ttl db) \<or> db' = snd (ConsumeCode H x t i p code db) \<or>
    db' = snd (ConsumeToken H x p tk db) \<or> db' = snd (PruneCodes x d db)"
  shows "sessions db' = sessions db" "oauth_flows db' = oauth_flows db" "auth_codes db' = auth_codes db"
proof -
  have "\<exists>t. db' = db\<lparr>otp_codes := t\<rparr>"
    using assms
  proof (elim disjE)
    assume "db' = snd (IssueCode H x i p code ttl db)"
    then show ?thesis
      by (cases "IssueCode H x i p code ttl db") (auto elim!: IssueCode_cases intro: exI [of _ "otp_codes db"])
  next
    assume "db' = snd (ConsumeCode H x t i p code db)"
    then show ?thesis
      by (cases "ConsumeCode H x t i p code db") (auto elim!: ConsumeCode_cases intro: exI [of _ "otp_codes db"])
  next
    assume "db' = snd (ConsumeToken H x p tk db)"
    then show ?thesis
      by (cases "ConsumeToken H x p tk db") (auto elim!: ConsumeToken_cases intro: exI [of _ "otp_codes db"])
  next
    assume "db' = snd (PruneCodes x d db)"
    then show ?thesis
      by (cases "PruneCodes x d db") (auto elim!: PruneCodes_cases intro: exI [of _ "otp_codes db"])
  qed
  then show "sessions db' = sessions db" "oauth_flows db' = oauth_flows db" "auth_codes db' = auth_codes db"
    by auto
qed

lemmas frame_codes_each [frame] =
  frame_codes [OF disjI1 [OF refl]]
  frame_codes [OF disjI2 [OF disjI1 [OF refl]]]
  frame_codes [OF disjI2 [OF disjI2 [OF disjI1 [OF refl]]]]
  frame_codes [OF disjI2 [OF disjI2 [OF disjI2 [OF refl]]]]

lemma frame_flows:
  assumes "db' = snd (CreateOAuthFlow H x st fl db) \<or> db' = snd (ConsumeOAuthFlow H x st db) \<or>
    db' = snd (CreateAuthCode H x code ac db) \<or> db' = snd (ConsumeAuthCode H x code db) \<or>
    db' = snd (PruneOAuth x db) \<or> db' = snd (PruneRateLimits x d db)"
  shows "sessions db' = sessions db" "otp_codes db' = otp_codes db"
  using assms
  by (auto simp: CreateOAuthFlow_def ConsumeOAuthFlow_def CreateAuthCode_def ConsumeAuthCode_def PruneOAuth_def
      PruneRateLimits_def Let_def split: option.split)

lemmas frame_flows_each [frame] =
  frame_flows [OF disjI1 [OF refl]]
  frame_flows [OF disjI2 [OF disjI1 [OF refl]]]
  frame_flows [OF disjI2 [OF disjI2 [OF disjI1 [OF refl]]]]
  frame_flows [OF disjI2 [OF disjI2 [OF disjI2 [OF disjI1 [OF refl]]]]]
  frame_flows [OF disjI2 [OF disjI2 [OF disjI2 [OF disjI2 [OF disjI1 [OF refl]]]]]]
  frame_flows [OF disjI2 [OF disjI2 [OF disjI2 [OF disjI2 [OF disjI2 [OF refl]]]]]]

lemma frame_rates [frame]:
  "oauth_flows (snd (PruneRateLimits x d db)) = oauth_flows db"
  "auth_codes (snd (PruneRateLimits x d db)) = auth_codes db"
  by (simp_all add: PruneRateLimits_def Let_def)

section \<open>The service with its history\<close>

text \<open>What was drawn so far: ULIDs of sessions, hashes of refresh tokens, hashes of OAuth states,
  hashes of the opaque tokens that become authorization codes and emailed tokens.\<close>

record history =
  hWorld :: world
  hIDs :: "string set"
  hTokens :: "string set"
  hStates :: "string set"
  hCodes :: "string set"

definition drawn_ids :: "env \<Rightarrow> string set" where
  "drawn_ids e = {uid (ctx e ''CreateSession'') 0, uid (ctx e ''Rotate'') 0}"

definition drawn_tokens :: "lib \<Rightarrow> env \<Rightarrow> string set" where
  "drawn_tokens H e = {HashRefresh H raw | raw.
     NewRefreshToken (ctx e ''CreateSession'') 0 = Inr raw \<or> NewRefreshToken (ctx e ''Rotate'') 0 = Inr raw}"

definition drawn_opaque :: "lib \<Rightarrow> env \<Rightarrow> string \<Rightarrow> string set" where
  "drawn_opaque H e site = {hashCode H raw | raw. NewOpaqueToken (ctx e site) 0 = Inr raw}"

text \<open>An environment that draws nothing drawn before, and the history after it was used.\<close>

definition unused :: "lib \<Rightarrow> env \<Rightarrow> history \<Rightarrow> bool" where
  "unused H e h \<longleftrightarrow> drawn_ids e \<inter> hIDs h = {} \<and> drawn_tokens H e \<inter> hTokens h = {} \<and>
     drawn_opaque H e ''state'' \<inter> hStates h = {} \<and> drawn_opaque H e ''NewOpaqueToken'' \<inter> hCodes h = {}"

definition drawn :: "lib \<Rightarrow> env \<Rightarrow> history \<Rightarrow> history" where
  "drawn H e h = h\<lparr>hIDs := hIDs h \<union> drawn_ids e, hTokens := hTokens h \<union> drawn_tokens H e,
     hStates := hStates h \<union> drawn_opaque H e ''state'',
     hCodes := hCodes h \<union> drawn_opaque H e ''NewOpaqueToken''\<rparr>"

inductive audited_step :: "server \<Rightarrow> history \<Rightarrow> history \<Rightarrow> bool" for S where
  request: "unused (srvLib S) e h \<Longrightarrow>
     serve (Routes S e r ep) (fresh_response (hWorld h)) = (rep, w') \<Longrightarrow>
     audited_step S h ((drawn (srvLib S) e h)\<lparr>hWorld := w'\<rparr>)"
| delivery: "unused (srvLib S) e h \<Longrightarrow> u \<in> set (wJobs (hWorld h)) \<Longrightarrow>
     deliverEmailVerification (srvLib S) e u ((hWorld h)\<lparr>wJobs := remove1 u (wJobs (hWorld h))\<rparr>) = (res, w') \<Longrightarrow>
     audited_step S h ((drawn (srvLib S) e h)\<lparr>hWorld := w'\<rparr>)"
| prune: "audited_step S h (h\<lparr>hWorld := (hWorld h)\<lparr>wDB := pruneOnce e (wDB (hWorld h))\<rparr>\<rparr>)"

lemma audited_is_step: "audited_step S h h' \<Longrightarrow> service_step S (hWorld h) (hWorld h')"
  by (induction rule: audited_step.induct) (auto intro: service_step.intros)

text \<open>What each machine sees of it.\<close>

definition lineage_of :: "history \<Rightarrow> lineage_state" where
  "lineage_of h = \<lparr>lIDs = hIDs h, lHashes = hTokens h, lDB = wDB (hWorld h)\<rparr>"

definition secrets_of :: "history \<Rightarrow> secrets" where
  "secrets_of h = \<lparr>stateHashes = hStates h, codeHashes = hCodes h, secDB = wDB (hWorld h)\<rparr>"

definition otps_of :: "history \<Rightarrow> otp_state" where
  "otps_of h = \<lparr>otpKeys = {(k, p). p = PurposeLoginOTP \<or> k \<in> hCodes h}, otpDB = wDB (hWorld h)\<rparr>"

section \<open>Simulation\<close>

text \<open>
  A machine of the store shadows the service when it sees the database and part of the history
  (\<open>view\<close>), every operation is a step of it, and an operation that mints one in a context nobody
  used; it may then catch up with what else was drawn. A run of the service is a run of it.
\<close>

locale shadow =
  fixes S :: server
    and step :: "'g \<Rightarrow> 'g \<Rightarrow> bool"
    and view :: "history \<Rightarrow> 'g"
    and put :: "DB \<Rightarrow> 'g \<Rightarrow> 'g"
    and at :: "'g \<Rightarrow> 'g \<Rightarrow> DB \<Rightarrow> bool"
  assumes at: "at g0 g db \<longleftrightarrow> rtranclp step g0 (put db g)"
    and view: "put (wDB w) (view h) = view (h\<lparr>hWorld := w\<rparr>)"
    and ops: "db_ops S (at g0 g)"
    and phases: "db_phases S (\<lambda>db. unused (srvLib S) e h \<and> at (view h) (view h) db)
      (at (view h) (view (drawn (srvLib S) e h))) e"
begin

lemma here: "at (view h) (view h) (wDB (hWorld h))"
  by (simp add: at view)

lemma there: "at (view h) (view k) (wDB w) \<Longrightarrow> rtranclp step (view h) (view (k\<lparr>hWorld := w\<rparr>))"
  by (simp add: at view)

lemma simulates:
  assumes "audited_step S h h'"
  shows "rtranclp step (view h) (view h')"
  using assms
proof cases
  case (request e r ep rep w')
  then show ?thesis
    using db_phases.moves_request [OF phases request(3)] here by (auto simp: on_db_def intro: there)
next
  case (delivery e u res w')
  then show ?thesis
    using db_phases.moves_delivery [OF phases delivery(4)] here by (auto simp: on_db_def intro: there)
next
  case (prune e)
  then show ?thesis
    using db_ops.kept_prune [OF ops, of "view h" "view h" "hWorld h" e] here
    by (auto simp: on_db_def intro: there)
qed

lemma run_simulates: "rtranclp (audited_step S) h h' \<Longrightarrow> rtranclp step (view h) (view h')"
  by (induction rule: rtranclp_induct) (auto intro: simulates rtranclp_trans)

end

section \<open>Refresh families\<close>

definition lineage_at :: "lib \<Rightarrow> lineage_state \<Rightarrow> lineage_state \<Rightarrow> DB \<Rightarrow> bool" where
  "lineage_at H g0 g db \<longleftrightarrow> rtranclp (session_step H) g0 (g\<lparr>lDB := db\<rparr>)"

lemma lineage_idle:
  assumes "lineage_at H g0 g db" and "sessions db' = sessions db"
    and "lIDs g \<subseteq> lIDs g'" and "lHashes g \<subseteq> lHashes g'"
  shows "lineage_at H g0 g' db'"
proof -
  have "session_step H (g\<lparr>lDB := db\<rparr>) \<lparr>lIDs = lIDs g', lHashes = lHashes g', lDB = db'\<rparr>"
    using assms(2-4) by (intro session_step.other) simp_all
  moreover have "\<lparr>lIDs = lIDs g', lHashes = lHashes g', lDB = db'\<rparr> = g'\<lparr>lDB := db'\<rparr>" by (cases g') simp
  ultimately show ?thesis
    using assms(1) unfolding lineage_at_def by (auto intro: rtranclp.rtrancl_into_rtrancl)
qed

lemmas lineage_keep = lineage_idle [OF _ _ subset_refl subset_refl]

lemma lineage_does:
  "lineage_at H g0 g db \<Longrightarrow> session_step H (g\<lparr>lDB := db\<rparr>) (g\<lparr>lDB := db'\<rparr>) \<Longrightarrow> lineage_at H g0 g db'"
  unfolding lineage_at_def by (rule rtranclp.rtrancl_into_rtrancl)

lemma lineage_runs:
  "session_step H (g\<lparr>lDB := db\<rparr>) (g\<lparr>lDB := snd (RevokeFamily x f db)\<rparr>)"
  "session_step H (g\<lparr>lDB := db\<rparr>) (g\<lparr>lDB := snd (RevokeAllForUser x u db)\<rparr>)"
  "session_step H (g\<lparr>lDB := db\<rparr>) (g\<lparr>lDB := snd (PruneSessions x d db)\<rparr>)"
  using session_step.revoke_family [of x f "g\<lparr>lDB := db\<rparr>" _ _ H, OF prod.collapse [symmetric]]
    session_step.revoke_user [of x u "g\<lparr>lDB := db\<rparr>" _ _ H, OF prod.collapse [symmetric]]
    session_step.prune [of x d "g\<lparr>lDB := db\<rparr>" _ _ H, OF prod.collapse [symmetric]] by simp_all

lemma lineage_draws:
  "new_ctx H x g \<Longrightarrow> session_step H g (record_ctx H x (snd (CreateSession H x u k m (lDB g))) g)"
  "new_ctx H x g \<Longrightarrow> session_step H g (record_ctx H x (snd (Rotate H x tk m (lDB g))) g)"
  by (rule session_step.create session_step.rotate, assumption, rule prod.collapse [symmetric])+

interpretation lineage_ops: db_ops S "lineage_at (srvLib S) g0 g" for S g0 g
  by unfold_locales
    ((rule lineage_keep, assumption, simp add: frame) | (erule lineage_does, rule lineage_runs))+

lemma unused_new_ctx:
  assumes "unused H e h" and "site = ''CreateSession'' \<or> site = ''Rotate''"
  shows "new_ctx H (ctx e site) ((lineage_of h)\<lparr>lDB := db\<rparr>)"
  using assms
  by (auto simp: new_ctx_def lineage_of_def unused_def drawn_ids_def drawn_tokens_def split: sum.split)

text \<open>A session minted in a context nobody used; the machine then catches up with what was drawn.\<close>

lemma lineage_mints:
  assumes at: "lineage_at H (lineage_of h) (lineage_of h) db" and new: "unused H e h"
    and site: "site = ''CreateSession'' \<or> site = ''Rotate''"
    and step: "\<And>g. new_ctx H (ctx e site) g \<Longrightarrow> lDB g = db \<Longrightarrow> session_step H g (record_ctx H (ctx e site) db' g)"
  shows "lineage_at H (lineage_of h) (lineage_of (drawn H e h)) db'"
proof -
  let ?x = "ctx e site" and ?g = "(lineage_of h)\<lparr>lDB := db\<rparr>"
  have "new_ctx H ?x ?g" by (rule unused_new_ctx [OF new site])
  then have "session_step H ?g (record_ctx H ?x db' ?g)" by (rule step) simp
  with at have "rtranclp (session_step H) (lineage_of h) (record_ctx H ?x db' ?g)"
    unfolding lineage_at_def by (rule rtranclp.rtrancl_into_rtrancl)
  then have at': "lineage_at H (lineage_of h) (record_ctx H ?x db' ?g) db'"
    by (simp add: lineage_at_def record_ctx_def)
  show ?thesis
    by (rule lineage_idle [OF at' refl])
      (use site in \<open>auto simp: record_ctx_def lineage_of_def drawn_def drawn_ids_def drawn_tokens_def
         split: sum.splits\<close>)
qed

lemma lineage_catches_up:
  "lineage_at H (lineage_of h) (lineage_of h) db \<Longrightarrow> sessions db' = sessions db \<Longrightarrow>
   lineage_at H (lineage_of h) (lineage_of (drawn H e h)) db'"
  by (rule lineage_idle) (auto simp: lineage_of_def drawn_def)

interpretation lineage: db_phases S
  "\<lambda>db. unused (srvLib S) e h \<and> lineage_at (srvLib S) (lineage_of h) (lineage_of h) db"
  "lineage_at (srvLib S) (lineage_of h) (lineage_of (drawn (srvLib S) e h))" e for S h e
proof (intro db_phases.intro db_phases_axioms.intro lineage_ops.guarded lineage_ops.db_ops_axioms, goal_cases)
  case (2 db u k meta)
  then show ?case
    by (elim conjE, intro lineage_mints [of _ h db e "''CreateSession''"]) (use lineage_draws(1) in auto)
next
  case (3 db tk meta)
  then show ?case
    by (elim conjE, intro lineage_mints [of _ h db e "''Rotate''"]) (use lineage_draws(2) in auto)
qed (auto intro!: lineage_catches_up simp: frame)

interpretation lineage_shadow: shadow S "session_step (srvLib S)" lineage_of "\<lambda>db g. g\<lparr>lDB := db\<rparr>"
  "lineage_at (srvLib S)" for S
  by (intro shadow.intro lineage_ops.db_ops_axioms lineage.db_phases_axioms)
    (simp_all add: lineage_at_def lineage_of_def)

section \<open>States and authorization codes\<close>

definition secrets_at :: "lib \<Rightarrow> secrets \<Rightarrow> secrets \<Rightarrow> DB \<Rightarrow> bool" where
  "secrets_at H g0 g db \<longleftrightarrow> rtranclp (flow_step H) g0 (g\<lparr>secDB := db\<rparr>)"

lemma secrets_idle:
  assumes "secrets_at H g0 g db" and "oauth_flows db' = oauth_flows db" and "auth_codes db' = auth_codes db"
    and "stateHashes g \<subseteq> stateHashes g'" and "codeHashes g \<subseteq> codeHashes g'"
  shows "secrets_at H g0 g' db'"
proof -
  have "flow_step H (g\<lparr>secDB := db\<rparr>) \<lparr>stateHashes = stateHashes g', codeHashes = codeHashes g', secDB = db'\<rparr>"
    using assms(2-5) by (intro flow_step.other) simp_all
  moreover have "\<lparr>stateHashes = stateHashes g', codeHashes = codeHashes g', secDB = db'\<rparr> = g'\<lparr>secDB := db'\<rparr>"
    by (cases g') simp
  ultimately show ?thesis
    using assms(1) unfolding secrets_at_def by (auto intro: rtranclp.rtrancl_into_rtrancl)
qed

lemmas secrets_keep = secrets_idle [OF _ _ _ subset_refl subset_refl]

lemma secrets_does:
  "secrets_at H g0 g db \<Longrightarrow> flow_step H (g\<lparr>secDB := db\<rparr>) (g'\<lparr>secDB := db'\<rparr>) \<Longrightarrow> secrets_at H g0 g' db'"
  unfolding secrets_at_def by (rule rtranclp.rtrancl_into_rtrancl)

lemma secrets_runs:
  "flow_step H (g\<lparr>secDB := db\<rparr>) (g\<lparr>secDB := snd (ConsumeOAuthFlow H x st db)\<rparr>)"
  "flow_step H (g\<lparr>secDB := db\<rparr>) (g\<lparr>secDB := snd (ConsumeAuthCode H x code db)\<rparr>)"
  "flow_step H (g\<lparr>secDB := db\<rparr>) (g\<lparr>secDB := snd (PruneOAuth x db)\<rparr>)"
  using flow_step.callback [of H x st "g\<lparr>secDB := db\<rparr>", OF prod.collapse [symmetric]]
    flow_step.exchange [of H x code "g\<lparr>secDB := db\<rparr>", OF prod.collapse [symmetric]]
    flow_step.prune [of x "g\<lparr>secDB := db\<rparr>" _ _ H, OF prod.collapse [symmetric]] by simp_all

interpretation secrets_ops: db_ops S "secrets_at (srvLib S) g0 g" for S g0 g
  by unfold_locales
    ((rule secrets_keep, assumption, (simp add: frame; fail), simp add: frame) |
     (erule secrets_does, rule secrets_runs))+

lemma secrets_catch_up:
  "secrets_at H (secrets_of h) (secrets_of h) db \<Longrightarrow> oauth_flows db' = oauth_flows db \<Longrightarrow>
   auth_codes db' = auth_codes db \<Longrightarrow> secrets_at H (secrets_of h) (secrets_of (drawn H e h)) db'"
  by (rule secrets_idle) (auto simp: secrets_of_def drawn_def)

lemma secrets_mint_state:
  assumes at: "secrets_at H (secrets_of h) (secrets_of h) db" and new: "unused H e h"
    and st: "NewOpaqueToken (ctx e ''state'') 0 = Inr st"
  shows "secrets_at H (secrets_of h) (secrets_of (drawn H e h)) (snd (CreateOAuthFlow H x st fl db))"
proof -
  let ?g = "(secrets_of h)\<lparr>secDB := db\<rparr>" and ?db' = "snd (CreateOAuthFlow H x st fl db)"
  let ?g' = "(secrets_of h)\<lparr>stateHashes := insert (hashCode H st) (hStates h)\<rparr>"
  have "hashCode H st \<notin> hStates h" using new st by (auto simp: unused_def drawn_opaque_def)
  then have "flow_step H ?g (?g'\<lparr>secDB := ?db'\<rparr>)"
    using flow_step.start [of H st ?g x fl "fst (CreateOAuthFlow H x st fl db)" ?db'] by (simp add: secrets_of_def)
  then have "secrets_at H (secrets_of h) ?g' ?db'" by (rule secrets_does [OF at])
  then show ?thesis
    by (rule secrets_idle) (use st in \<open>auto simp: secrets_of_def drawn_def drawn_opaque_def\<close>)
qed

lemma secrets_mint_code:
  assumes at: "secrets_at H (secrets_of h) (secrets_of h) db" and new: "unused H e h"
    and code: "NewOpaqueToken (ctx e ''NewOpaqueToken'') 0 = Inr code"
  shows "secrets_at H (secrets_of h) (secrets_of (drawn H e h)) (snd (CreateAuthCode H x code ac db))"
proof -
  let ?g = "(secrets_of h)\<lparr>secDB := db\<rparr>" and ?db' = "snd (CreateAuthCode H x code ac db)"
  let ?g' = "(secrets_of h)\<lparr>codeHashes := insert (hashCode H code) (hCodes h)\<rparr>"
  have "hashCode H code \<notin> hCodes h" using new code by (auto simp: unused_def drawn_opaque_def)
  then have "flow_step H ?g (?g'\<lparr>secDB := ?db'\<rparr>)"
    using flow_step.mint [of H code ?g x ac "fst (CreateAuthCode H x code ac db)" ?db'] by (simp add: secrets_of_def)
  then have "secrets_at H (secrets_of h) ?g' ?db'" by (rule secrets_does [OF at])
  then show ?thesis
    by (rule secrets_idle) (use code in \<open>auto simp: secrets_of_def drawn_def drawn_opaque_def\<close>)
qed

interpretation secrets: db_phases S
  "\<lambda>db. unused (srvLib S) e h \<and> secrets_at (srvLib S) (secrets_of h) (secrets_of h) db"
  "secrets_at (srvLib S) (secrets_of h) (secrets_of (drawn (srvLib S) e h))" e for S h e
  by (intro db_phases.intro db_phases_axioms.intro secrets_ops.guarded secrets_ops.db_ops_axioms)
    (auto intro!: secrets_mint_state secrets_mint_code intro: secrets_catch_up simp: frame)

interpretation secrets_shadow: shadow S "flow_step (srvLib S)" secrets_of "\<lambda>db g. g\<lparr>secDB := db\<rparr>"
  "secrets_at (srvLib S)" for S
  by (intro shadow.intro secrets_ops.db_ops_axioms secrets.db_phases_axioms)
    (simp_all add: secrets_at_def secrets_of_def)

section \<open>Emailed tokens\<close>

definition otps_at :: "lib \<Rightarrow> otp_state \<Rightarrow> otp_state \<Rightarrow> DB \<Rightarrow> bool" where
  "otps_at H g0 g db \<longleftrightarrow> rtranclp (otp_step H) g0 (g\<lparr>otpDB := db\<rparr>)"

lemma otps_idle:
  assumes "otps_at H g0 g db" and "otp_codes db' = otp_codes db" and "otpKeys g \<subseteq> otpKeys g'"
  shows "otps_at H g0 g' db'"
proof -
  have "otp_step H (g\<lparr>otpDB := db\<rparr>) \<lparr>otpKeys = otpKeys g', otpDB = db'\<rparr>"
    using assms(2,3) by (intro otp_step.other) simp_all
  moreover have "\<lparr>otpKeys = otpKeys g', otpDB = db'\<rparr> = g'\<lparr>otpDB := db'\<rparr>" by (cases g') simp
  ultimately show ?thesis
    using assms(1) unfolding otps_at_def by (auto intro: rtranclp.rtrancl_into_rtrancl)
qed

lemmas otps_keep = otps_idle [OF _ _ subset_refl]

lemma otps_does:
  "otps_at H g0 g db \<Longrightarrow> otp_step H (g\<lparr>otpDB := db\<rparr>) (g'\<lparr>otpDB := db'\<rparr>) \<Longrightarrow> otps_at H g0 g' db'"
  unfolding otps_at_def by (rule rtranclp.rtrancl_into_rtrancl)

lemma otps_runs:
  "otp_step H (g\<lparr>otpDB := db\<rparr>) (g\<lparr>otpDB := snd (ConsumeCode H x t i p code db)\<rparr>)"
  "otp_step H (g\<lparr>otpDB := db\<rparr>) (g\<lparr>otpDB := snd (ConsumeToken H x p tk db)\<rparr>)"
  "otp_step H (g\<lparr>otpDB := db\<rparr>) (g\<lparr>otpDB := snd (PruneCodes x d db)\<rparr>)"
  using otp_step.guess [of H x t i p code "g\<lparr>otpDB := db\<rparr>", OF prod.collapse [symmetric]]
    otp_step.redeem [of H x p tk "g\<lparr>otpDB := db\<rparr>", OF prod.collapse [symmetric]]
    otp_step.prune [of x d "g\<lparr>otpDB := db\<rparr>" _ _ H, OF prod.collapse [symmetric]] by simp_all

interpretation otps_ops: db_ops S "otps_at (srvLib S) g0 g" for S g0 g
  by unfold_locales
    ((rule otps_keep, assumption, simp add: frame) | (erule otps_does, rule otps_runs))+

lemma otps_catch_up:
  "otps_at H (otps_of h) (otps_of h) db \<Longrightarrow> otp_codes db' = otp_codes db \<Longrightarrow>
   otps_at H (otps_of h) (otps_of (drawn H e h)) db'"
  by (rule otps_idle) (auto simp: otps_of_def drawn_def)

lemma otps_mint:
  assumes at: "otps_at H (otps_of h) (otps_of h) db" and new: "unused H e h"
    and code: "p = PurposeLoginOTP \<or> NewOpaqueToken (ctx e ''NewOpaqueToken'') 0 = Inr code"
  shows "otps_at H (otps_of h) (otps_of (drawn H e h)) (snd (IssueCode H x i p code ttl db))"
proof -
  let ?g = "(otps_of h)\<lparr>otpDB := db\<rparr>" and ?db' = "snd (IssueCode H x i p code ttl db)"
  let ?g' = "(otps_of h)\<lparr>otpKeys := insert (hashCode H code, p) (otpKeys (otps_of h))\<rparr>"
  have "p = PurposeLoginOTP \<or> (hashCode H code, p) \<notin> otpKeys ?g"
    using new code by (auto simp: unused_def drawn_opaque_def otps_of_def)
  then have "otp_step H ?g (?g'\<lparr>otpDB := ?db'\<rparr>)"
    using otp_step.issue [of p H code ?g x i ttl "fst (IssueCode H x i p code ttl db)" ?db'] by simp
  then have "otps_at H (otps_of h) ?g' ?db'" by (rule otps_does [OF at])
  then show ?thesis
    by (rule otps_idle) (use code in \<open>auto simp: otps_of_def drawn_def drawn_opaque_def\<close>)
qed

interpretation otps: db_phases S
  "\<lambda>db. unused (srvLib S) e h \<and> otps_at (srvLib S) (otps_of h) (otps_of h) db"
  "otps_at (srvLib S) (otps_of h) (otps_of (drawn (srvLib S) e h))" e for S h e
  by (intro db_phases.intro db_phases_axioms.intro otps_ops.guarded otps_ops.db_ops_axioms)
    (auto intro!: otps_mint intro: otps_catch_up simp: frame)

interpretation otps_shadow: shadow S "otp_step (srvLib S)" otps_of "\<lambda>db g. g\<lparr>otpDB := db\<rparr>"
  "otps_at (srvLib S)" for S
  by (intro shadow.intro otps_ops.db_ops_axioms otps.db_phases_axioms)
    (simp_all add: otps_at_def otps_of_def)

end
