(* ===== verification/Outcomes.thy ===== *)
theory Outcomes
  imports Refinement
begin

text \<open>
  What the reply of a handler says about the run behind it: one inversion rule per handler, from a
  reply that is not an error to the operations that succeeded and the database they left.
\<close>

section \<open>Handlers answer\<close>

text \<open>Every handler ends with a reply, it never falls off its end.\<close>

definition answers :: "'a handler \<Rightarrow> bool" where
  "answers m \<longleftrightarrow> (\<forall>w. isl (fst (m w)))"

named_theorems answering \<open>handlers that end with a reply\<close>

lemma answers_stop [answering]:
  "answers (stop rep)" "answers (writeErr st c m)" "answers (writeJSON st v)" "answers internal"
  "answers (redirectWithError S fl k)"
  by (simp_all add: answers_def writeErr_def writeJSON_def internal_def redirectWithError_def)

lemma answers_seq [answering]: "(\<And>a. answers (f a)) \<Longrightarrow> answers (seq m f)"
  by (auto simp: answers_def seq_def split: prod.split sum.split)

lemma answers_branches [answering]:
  "answers m \<Longrightarrow> answers n \<Longrightarrow> answers (if b then m else n)"
  "answers m \<Longrightarrow> (\<And>a. answers (f a)) \<Longrightarrow> answers (case v of None \<Rightarrow> m | Some a \<Rightarrow> f a)"
  "(\<And>e. answers (g e)) \<Longrightarrow> (\<And>a. answers (h a)) \<Longrightarrow> answers (case s of Inl e \<Rightarrow> g e | Inr a \<Rightarrow> h a)"
  "answers (k u) \<Longrightarrow> answers (Let u k)"
  by (simp_all split: option.split sum.split)

lemma answers_tokens [answering]: "answers (answer_tokens st v)"
  unfolding answer_tokens_def by (intro answering)

lemma answers_requireUser [answering]: "(\<And>c. answers (n c)) \<Longrightarrow> answers (requireUser S e r n)"
  unfolding requireUser_def by (rule answering | assumption)+

lemma answers_requireAdmin [answering]: "answers n \<Longrightarrow> answers (requireAdmin S r n)"
  unfolding requireAdmin_def by (rule answering | assumption)+

lemma answers_handlers [answering]:
  "answers (handleRegister S e r)" "answers (handleLogin S e r)" "answers (handleEmailVerify S e r)"
  "answers (handlePasswordForgot S e r)" "answers (handlePasswordReset S e r)"
  "answers (handleOTPRequest S e r)" "answers (handleOTPVerify S e r)" "answers (handleRefresh S e r)"
  "answers (handleLogout S e c)" "answers (handleLogoutAll S e c)" "answers (handleMe e c)"
  "answers (handleListSessions e c)" "answers (handleDeleteSession e r c)"
  "answers (handleOAuthStart S e r)" "answers (handleLinkStart S e r c)" "answers (handleOAuthCallback S e r)"
  "answers (handleTokenExchange S e r)" "answers (handleCreateClient S e r)" "answers (handleListClients e)"
  unfolding handleRegister_def handleLogin_def handleEmailVerify_def handlePasswordForgot_def
    handlePasswordReset_def handleOTPRequest_def handleOTPVerify_def handleRefresh_def refreshed_def
    handleLogout_def handleLogoutAll_def end_session_def handleMe_def handleListSessions_def
    handleDeleteSession_def handleOAuthStart_def handleLinkStart_def start_for_def beginFlow_def
    handleOAuthCallback_def callback_for_def hand_off_def handleTokenExchange_def handleCreateClient_def
    handleListClients_def
  by (rule answering | assumption)+

lemma answers_Routes: "answers (Routes S e r ep)"
  unfolding Routes_def by (cases ep) (simp_all add: answering)

text \<open>The world a handler starts in.\<close>

definition opened :: "world \<Rightarrow> world" where
  "opened w = snd (securityHeaders (fresh_response w))"

lemma opened_db [simp]: "wDB (opened w) = wDB w"
  by (simp add: opened_def securityHeaders_def set_header_def fresh_response_def seq_def)

lemma serve_Routes: "serve (Routes S e r ep) (fresh_response w) = (rep, w') \<longleftrightarrow>
    Routes S e r ep (opened w) = (Inl rep, w')"
proof -
  have "seq securityHeaders (\<lambda>_. Routes S e r ep) (fresh_response w) = Routes S e r ep (opened w)"
    by (simp add: opened_def securityHeaders_def set_header_def seq_def)
  moreover obtain q w'' where "Routes S e r ep (opened w) = (Inl q, w'')"
    using answers_Routes [of S e r ep] unfolding answers_def by (metis isl_def prod.collapse)
  ultimately show ?thesis by (simp add: serve_def)
qed

section \<open>Reading a reply backwards\<close>

text \<open>With a reply that is no error, every step that can only refuse has gone through.\<close>

named_theorems ok \<open>how a handler got to a reply that is not an error\<close>

lemma ok_seq [ok]:
  assumes "refuses m" and "\<not> error_reply rep"
  shows "seq m f w = (Inl rep, w') \<longleftrightarrow> (\<exists>a w1. m w = (Inr a, w1) \<and> f a w1 = (Inl rep, w'))"
  using assms unfolding refuses_def seq_def by (fastforce split: prod.splits sum.splits)

lemma ok_if [ok]:
  assumes "refuses m" and "\<not> error_reply rep"
  shows "(if b then m else n) w = (Inl rep, w') \<longleftrightarrow> \<not> b \<and> n w = (Inl rep, w')"
  using assms by (auto simp: refuses_def)

lemma ok_sum [ok]:
  assumes "\<And>e. refuses (g e)" and "\<not> error_reply rep"
  shows "(case v of Inl e \<Rightarrow> g e | Inr a \<Rightarrow> f a) w = (Inl rep, w') \<longleftrightarrow> (\<exists>a. v = Inr a \<and> f a w = (Inl rep, w'))"
  using assms by (auto simp: refuses_def split: sum.split)

lemma ok_option [ok]:
  assumes "refuses g" and "\<not> error_reply rep"
  shows "(case v of None \<Rightarrow> g | Some a \<Rightarrow> f a) w = (Inl rep, w') \<longleftrightarrow> (\<exists>a. v = Some a \<and> f a w = (Inl rep, w'))"
  using assms by (auto simp: refuses_def split: option.split)

lemma ok_tokens [ok]:
  "\<not> error_reply rep \<Longrightarrow> answer_tokens st v w = (Inl rep, w') \<longleftrightarrow>
     (\<exists>t. v = Some t \<and> rep = Reply st (Tokens t) \<and> w' = w)"
  by (cases v) (auto simp: answer_tokens_def internal_def writeErr_def writeJSON_def)

lemma ok_clear: "clearRefreshCookie S w = (Inr u, w') \<Longrightarrow> wDB w' = wDB w"
  by (auto simp: clearRefreshCookie_def set_cookie_def)

lemma refuses_clear [refusal]: "refuses (clearRefreshCookie S)"
  unfolding clearRefreshCookie_def by (rule refuses_cookie)

lemma refuses_authenticate_client [refusal]: "refuses (authenticate_client S e req)"
  unfolding authenticate_client_def
  by (rule refusal | simp add: refusal split: password_error.split)+

lemma refuses_otp_user [refusal]: "refuses (otp_user S e email)"
  unfolding otp_user_def by (intro refusal)

lemma refuses_find_provider [refusal]: "refuses (find_provider S r)"
  unfolding find_provider_def Let_def by (intro refusal)

lemma pair_eqI: "fst p = a \<Longrightarrow> b = snd p \<Longrightarrow> p = (a, b)"
  by (simp add: prod_eq_iff)

lemmas backwards = ok refusal read_db_Inr run_db_Inr

section \<open>The guard\<close>

text \<open>Past the guard: the claims are verified, and their session, if they name one, is there and
  not revoked.\<close>

lemma SessionByID_Inr: "SessionByID x i db = Inr s \<Longrightarrow> s \<in> set (sessions db) \<and> sID s = i"
  by (auto simp: SessionByID_def norows_def split: if_splits option.splits dest: select_one_Some)

lemma requireUser_ok:
  assumes "requireUser S e r nxt w = (Inl rep, w')" and "\<not> error_reply rep"
  obtains c where "verifyAnyAudience S (clk (ctx e ''VerifyAccess'') 0) (bearer r) = Some c"
    "clSessionID c \<noteq> [] \<Longrightarrow> \<exists>s \<in> set (sessions (wDB w)). sID s = clSessionID c \<and> sRevokedAt s = None"
    "nxt c w = (Inl rep, w')"
  using assms unfolding requireUser_def Let_def
  by (simp add: backwards split: if_splits) (blast dest: SessionByID_Inr)+

section \<open>Sessions\<close>

lemma handleRefresh_ok:
  assumes "handleRefresh S e r w = (Inl rep, w')" and "\<not> error_reply rep"
  obtains rl iss t where "refreshTokenFrom S r \<noteq> []"
    "Rotate (srvLib S) (ctx e ''Rotate'') (refreshTokenFrom S r) (session_meta r) (wDB w\<lparr>rate_limits := rl\<rparr>) =
      (Inr iss, wDB w')"
    "rep = Reply 200 (Tokens t)" "trRefreshToken t = RefreshToken iss"
    "\<exists>u \<in> set (users (wDB w')). uID u = sUserID (isSession iss) \<and> uDisabledAt u = None"
  using assms unfolding handleRefresh_def refreshed_def Let_def
  by (clarsimp simp: backwards)
    (erule limit_Inr, frule respondWithTokens_Some(2), drule respondWithTokens_Some(4), drule UserByID_Inr,
     rule that, assumption, rule pair_eqI, auto)

text \<open>A logout that saw its session revoked the family, or could not read the session.\<close>

lemma handleLogout_ok:
  assumes "handleLogout S e c w = (Inl rep, w')" and "\<not> error_reply rep"
    and "clSessionID c \<noteq> []" and "\<not> flt (ctx e ''SessionByID'') 0"
    and "s \<in> set (sessions (wDB w))" and "sID s = clSessionID c" and "distinct (map sID (sessions (wDB w)))"
  shows "rep = Status 204" "RevokeFamily (ctx e ''RevokeFamily'') (sFamilyID s) (wDB w) = (Inr (), wDB w')"
proof -
  have "SessionByID (ctx e ''SessionByID'') (clSessionID c) (wDB w) = Inr s"
    using select_one_unique [OF assms(7,5)] assms(4,6) by (simp add: SessionByID_def norows_def)
  then have "rep = Status 204 \<and> RevokeFamily (ctx e ''RevokeFamily'') (sFamilyID s) (wDB w) = (Inr (), wDB w')"
    using assms(1-3) unfolding handleLogout_def end_session_def
    by (clarsimp simp: backwards) (auto intro!: pair_eqI dest!: ok_clear)
  then show "rep = Status 204" "RevokeFamily (ctx e ''RevokeFamily'') (sFamilyID s) (wDB w) = (Inr (), wDB w')"
    by simp_all
qed

lemma handlePasswordReset_ok:
  assumes "handlePasswordReset S e r w = (Inl rep, w')" and "\<not> error_reply rep"
  obtains q rl u hash db1 db2 where
    "decode S r resetReq_fields \<lparr>reToken = [], reNewPassword = []\<rparr> w = (Inr q, w)"
    "MinPasswordLen \<le> length (reNewPassword q)"
    "ConsumeToken (srvLib S) (ctx e ''ConsumeToken'') PurposePasswordReset (reToken q)
       (wDB w\<lparr>rate_limits := rl\<rparr>) = (Inr u, db1)"
    "Hash (srvLib S) (ctx e ''Hash'') (reNewPassword q) = Inr hash"
    "SetPasswordHash (ctx e ''SetPasswordHash'') u hash db1 = (Inr (), db2)"
    "RevokeAllForUser (ctx e ''RevokeAllForUser'') u db2 = (Inr (), wDB w')"
    "rep = Reply 200 (BoolMap [(''password_reset'', True)])"
  using assms unfolding handlePasswordReset_def writeJSON_def
  by (clarsimp simp: backwards)
    (erule limit_Inr, frule decode_Inr, drule ok_clear, rule that, auto simp: prod_eq_iff)

section \<open>The exchange of a code\<close>

lemma authenticate_client_Inr:
  assumes "authenticate_client S e q w = (Inr c, w')"
  shows "w' = w \<and> c \<in> set (app_clients (wDB w)) \<and> cID c = xqClientID q \<and>
    Verify (srvLib S) (cSecretHash c) (xqClientSecret q) = Inr True"
  using assms unfolding authenticate_client_def
  by (auto elim!: seq_InrE simp: read_db_Inr internal_def writeErr_def dest: ClientByID_Inr
      split: sum.splits password_error.splits if_splits)

lemma users_ConsumeAuthCode: "users (snd (ConsumeAuthCode H x code db)) = users db"
  by (auto simp: ConsumeAuthCode_def split: option.split)

lemma handleTokenExchange_ok:
  assumes "handleTokenExchange S e r w = (Inl rep, w')" and "\<not> error_reply rep"
  obtains q rl client ac u iss t db1 where
    "decode S r exchangeReq_fields zero_exchangeReq w = (Inr q, w)"
    "client \<in> set (app_clients (wDB w))" "cID client = xqClientID q"
    "Verify (srvLib S) (cSecretHash client) (xqClientSecret q) = Inr True"
    "ConsumeAuthCode (srvLib S) (ctx e ''ConsumeAuthCode'') (xqCode q) (wDB w\<lparr>rate_limits := rl\<rparr>) = (Inr ac, db1)"
    "acClientID ac = cID client" "u \<in> set (users (wDB w))" "uID u = acUserID ac" "uDisabledAt u = None"
    "CreateSession (srvLib S) (ctx e ''CreateSession'') (uID u) (cID client) (session_meta r) db1 = (Inr iss, wDB w')"
    "SignAccess (srvJwx S) (srvSigner S) (ctx e ''SignAccess'') (access_claims u (cAudience client) (isSession iss)) =
      Inr (trAccessToken t)"
    "rep = Reply 200 (Tokens t)" "trRefreshToken t = RefreshToken iss"
  using assms unfolding handleTokenExchange_def
  by (clarsimp simp: backwards)
    (erule limit_Inr, frule decode_Inr, drule authenticate_client_Inr, frule respondWithTokens_Some(1),
     frule respondWithTokens_Some(2), drule respondWithTokens_Some(4), drule UserByID_Inr,
     rule that, auto intro!: pair_eqI simp: users_ConsumeAuthCode)

section \<open>Logging in\<close>

lemma handleLogin_ok:
  assumes "handleLogin S e r w = (Inl rep, w')" and "\<not> error_reply rep"
  obtains q rl client u hash iss t where
    "decode S r registerReq_fields zero_registerReq w = (Inr q, w)"
    "client \<in> set (app_clients (wDB w))" "cID client = rrClientID q"
    "UserByEmail (srvLib S) (ctx e ''UserByEmail'') (normalizeEmail (srvLib S) (rrEmail q)) (wDB w) = Inr u"
    "uPasswordHash u = Some hash" "Verify (srvLib S) hash (rrPassword q) = Inr True" "uDisabledAt u = None"
    "CreateSession (srvLib S) (ctx e ''CreateSession'') (uID u) (cID client) (session_meta r)
      (wDB w\<lparr>rate_limits := rl\<rparr>) = (Inr iss, wDB w')"
    "SignAccess (srvJwx S) (srvSigner S) (ctx e ''SignAccess'') (access_claims u (cAudience client) (isSession iss)) =
      Inr (trAccessToken t)"
    "rep = Reply 200 (Tokens t)" "trRefreshToken t = RefreshToken iss"
proof -
  let ?em = "\<lambda>q. normalizeEmail (srvLib S) (rrEmail q)"
  obtain q w1 w2 w3 w4 client where run: "decode S r registerReq_fields zero_registerReq w = (Inr q, w1)"
    "limit e ''limit ip'' (''login:ip:'' @ clientIP r) 30 (15 * minute) w1 = (Inr (), w2)"
    "limit e ''limit id'' (''login:id:'' @ ?em q) 10 (15 * minute) w2 = (Inr (), w3)"
    "lookupClient e (rrClientID q) w3 = (Inr client, w4)"
    and rest: "(let found = UserByEmail (srvLib S) (ctx e ''UserByEmail'') (?em q) (wDB w4) in
     if found \<noteq> Inl ErrNotFound \<and> isl found then internal
     else
       let u = (case found of Inl _ \<Rightarrow> None | Inr u \<Rightarrow> Some u);
           password_hash = Option.bind u uPasswordHash;
           stored = (case password_hash of None \<Rightarrow> srvDummyHash S | Some h \<Rightarrow> h)
       in case Verify (srvLib S) stored (rrPassword q) of
            Inl _ \<Rightarrow> internal
          | Inr matches \<Rightarrow>
              (case u of
                 None \<Rightarrow> writeErr 401 ''invalid_credentials'' ''email or password is incorrect''
               | Some u \<Rightarrow>
                   if uPasswordHash u = None \<or> \<not> matches
                   then writeErr 401 ''invalid_credentials'' ''email or password is incorrect''
                   else if uDisabledAt u \<noteq> None
                   then writeErr 403 ''account_disabled'' ''this account is disabled''
                   else seq (issueSession S e r u client) (answer_tokens 200))) w4 = (Inl rep, w')"
    using assms unfolding handleLogin_def Let_def
    by (auto simp: ok_seq refusal read_db_Inr)
  obtain u where u: "UserByEmail (srvLib S) (ctx e ''UserByEmail'') (?em q) (wDB w4) = Inr u"
    using rest assms(2)
    by (cases "UserByEmail (srvLib S) (ctx e ''UserByEmail'') (?em q) (wDB w4)")
      (auto simp: Let_def internal_def writeErr_def split: sum.splits if_splits)
  obtain hash t where h: "uPasswordHash u = Some hash" "Verify (srvLib S) hash (rrPassword q) = Inr True"
    "uDisabledAt u = None" "issueSession S e r u client w4 = (Inr (Some t), w')" "rep = Reply 200 (Tokens t)"
    using rest assms(2) unfolding u by (clarsimp simp: Let_def backwards)
  have w1: "w1 = w" using run(1) by (rule decode_Inr)
  obtain r1 where r1: "w2 = w1\<lparr>wDB := wDB w1\<lparr>rate_limits := r1\<rparr>\<rparr>" using run(2) by (rule limit_Inr)
  obtain r2 where r2: "w3 = w2\<lparr>wDB := wDB w2\<lparr>rate_limits := r2\<rparr>\<rparr>" using run(3) by (rule limit_Inr)
  note cl = lookupClient_Inr [OF run(4)]
  have w4: "wDB w4 = wDB w\<lparr>rate_limits := r2\<rparr>" using w1 r1 r2 cl(1) by simp
  have found: "UserByEmail (srvLib S) (ctx e ''UserByEmail'') (?em q) (wDB w) = Inr u"
    using u by (simp add: w4 UserByEmail_def scanUser_def)
  obtain iss where iss:
    "CreateSession (srvLib S) (ctx e ''CreateSession'') (uID u) (cID client) (session_meta r) (wDB w4) = (Inr iss, wDB w')"
    "SignAccess (srvJwx S) (srvSigner S) (ctx e ''SignAccess'') (access_claims u (cAudience client) (isSession iss)) =
      Inr (trAccessToken t)" "trRefreshToken t = RefreshToken iss"
    by (rule issueSession_Some [OF h(4)])
  have "client \<in> set (app_clients (wDB w))" using cl(1,2) w4 by simp
  from that [OF run(1) [unfolded w1] this cl(3) found h(1-3) iss(1) [unfolded w4] iss(2) h(5) iss(3)]
  show thesis .
qed

lemma otp_user_Inr:
  assumes "otp_user S e email w = (Inr u, w')" and "db_ok (srvLib S) (wDB w)"
  shows "u \<in> set (users (wDB w'))" "EmailVerified u" "citext (srvLib S) (uEmail u) = citext (srvLib S) email"
    and "\<exists>us. wDB w' = wDB w\<lparr>users := us\<rparr>"
    and "\<forall>y \<in> set (users (wDB w)). citext (srvLib S) (uEmail y) = citext (srvLib S) email \<longrightarrow>
      uID y = uID u \<and> uPasswordHash y = uPasswordHash u"
proof -
  let ?H = "srvLib S"
  obtain v w1 where v: "(if UserByEmail ?H (ctx e ''UserByEmail'') email (wDB w) = Inl ErrNotFound
      then run_db (CreateUser ?H (ctx e ''CreateUser'') email None)
      else give (UserByEmail ?H (ctx e ''UserByEmail'') email (wDB w))) w = (Inr (Inr v), w1)"
    and rest: "(if \<not> EmailVerified v then
         seq (run_db (MarkEmailVerified (ctx e ''MarkEmailVerified'') (uID v))) (\<lambda>marked.
         case marked of
           Inl _ \<Rightarrow> internal
         | Inr _ \<Rightarrow>
             seq (read_db (UserByID (ctx e ''UserByID'') (uID v))) (\<lambda>again.
               case again of Inl _ \<Rightarrow> internal | Inr u' \<Rightarrow> give u'))
       else give v) w1 = (Inr u, w')"
    using assms(1) unfolding otp_user_def
    by (auto elim!: seq_InrE simp: read_db_Inr internal_def writeErr_def split: sum.splits)
  have found: "v \<in> set (users (wDB w1)) \<and> citext ?H (uEmail v) = citext ?H email \<and>
      (\<exists>us. wDB w1 = wDB w\<lparr>users := us\<rparr>) \<and> db_ok ?H (wDB w1) \<and>
      (\<forall>y \<in> set (users (wDB w)). citext ?H (uEmail y) = citext ?H email \<longrightarrow> y = v)"
  proof (cases "UserByEmail ?H (ctx e ''UserByEmail'') email (wDB w) = Inl ErrNotFound")
    case True
    then have made: "CreateUser ?H (ctx e ''CreateUser'') email None (wDB w) = (Inr v, wDB w1)"
      using v by (auto simp: run_db_Inr intro: pair_eqI)
    have "db_ok ?H (wDB w1)"
      using ok_CreateUser [OF assms(2)] made by (metis snd_conv)
    with CreateUser_Inr [OF made] UserByEmail_NotFound [OF True] show ?thesis by auto
  next
    case False
    then have "UserByEmail ?H (ctx e ''UserByEmail'') email (wDB w) = Inr v" "w = w1" using v by auto
    with UserByEmail_Inr [OF this(1)] db_ok_userD(2) [OF assms(2)] assms(2) show ?thesis
      by (auto intro: exI [of _ "users (wDB w)"])
  qed
  have "u \<in> set (users (wDB w')) \<and> EmailVerified u \<and> citext ?H (uEmail u) = citext ?H email \<and>
      (\<exists>us. wDB w' = wDB w\<lparr>users := us\<rparr>) \<and> uID v = uID u \<and> uPasswordHash v = uPasswordHash u"
  proof (cases "EmailVerified v")
    case True
    with rest found show ?thesis by simp
  next
    case False
    let ?x = "ctx e ''MarkEmailVerified''"
    let ?upd = "\<lambda>q. q\<lparr>uEmailVerifiedAt := coalesce (uEmailVerifiedAt q) (clk ?x 0), uUpdatedAt := clk ?x 0\<rparr>"
    have "MarkEmailVerified ?x (uID v) (wDB w1) = (Inr (), wDB w')"
      "UserByID (ctx e ''UserByID'') (uID v) (wDB w') = Inr u"
      using rest False
      by (auto elim!: seq_InrE simp: read_db_Inr run_db_Inr internal_def writeErr_def split: sum.splits
          intro!: pair_eqI)
    then have w': "wDB w' = wDB w1\<lparr>users := update_where (\<lambda>q. uID q = uID v) ?upd (users (wDB w1))\<rparr>"
      and u: "u \<in> set (users (wDB w'))" "uID u = uID v"
      using UserByID_Inr by (auto simp: MarkEmailVerified_def split: if_splits)
    then obtain q where q: "q \<in> set (users (wDB w1))" "u = (if uID q = uID v then ?upd q else q)"
      by (auto simp: mem_update_where)
    then have "uID q = uID v" using u(2) by (auto split: if_splits)
    then have "q = v" using db_ok_userD(1) [of ?H "wDB w1" q v] found q(1) by blast
    then have "EmailVerified u \<and> uEmail u = uEmail v \<and> uID v = uID u \<and> uPasswordHash v = uPasswordHash u"
      using q(2) by (simp add: EmailVerified_def)
    with u(1) w' found show ?thesis by auto
  qed
  then show "u \<in> set (users (wDB w'))" "EmailVerified u" "citext ?H (uEmail u) = citext ?H email"
    "\<exists>us. wDB w' = wDB w\<lparr>users := us\<rparr>"
    "\<forall>y \<in> set (users (wDB w)). citext ?H (uEmail y) = citext ?H email \<longrightarrow>
      uID y = uID u \<and> uPasswordHash y = uPasswordHash u"
    using found by blast+
qed

lemma users_ConsumeCode: "users (snd (ConsumeCode H x now i p code db)) = users db"
  by (cases "ConsumeCode H x now i p code db") (auto elim!: ConsumeCode_cases)

lemma handleOTPVerify_ok:
  assumes "handleOTPVerify S e r w = (Inl rep, w')" and "\<not> error_reply rep" and "db_ok (srvLib S) (wDB w)"
  obtains q rl client db1 db2 u iss t where
    "decode S r otpVerifyReq_fields zero_otpReq w = (Inr q, w)"
    "client \<in> set (app_clients (wDB w))" "cID client = oqClientID q"
    "ConsumeCode (srvLib S) (ctx e ''ConsumeCode'') (clk (ctx e ''ConsumeCode now'') 0)
       (otpIdentifier (cID client) (normalizeEmail (srvLib S) (oqEmail q))) PurposeLoginOTP (oqCode q)
       (wDB w\<lparr>rate_limits := rl\<rparr>) = (Inr (), db1)"
    "\<exists>us. db2 = db1\<lparr>users := us\<rparr>" "u \<in> set (users db2)" "EmailVerified u" "uDisabledAt u = None"
    "citext (srvLib S) (uEmail u) = citext (srvLib S) (normalizeEmail (srvLib S) (oqEmail q))"
    "CreateSession (srvLib S) (ctx e ''CreateSession'') (uID u) (cID client) (session_meta r) db2 = (Inr iss, wDB w')"
    "SignAccess (srvJwx S) (srvSigner S) (ctx e ''SignAccess'') (access_claims u (cAudience client) (isSession iss)) =
      Inr (trAccessToken t)"
    "rep = Reply 200 (Tokens t)" "trRefreshToken t = RefreshToken iss"
    "\<forall>y \<in> set (users (wDB w)). citext (srvLib S) (uEmail y) = citext (srvLib S) (normalizeEmail (srvLib S) (oqEmail q)) \<longrightarrow>
      uID y = uID u \<and> uPasswordHash y = uPasswordHash u"
proof -
  let ?em = "\<lambda>q. normalizeEmail (srvLib S) (oqEmail q)"
  obtain q w1 w2 w3 w4 client u t where run: "decode S r otpVerifyReq_fields zero_otpReq w = (Inr q, w1)"
    "limit e ''limit ip'' (''otpv:ip:'' @ clientIP r) 30 hour w1 = (Inr (), w2)"
    "lookupClient e (oqClientID q) w2 = (Inr client, w3)"
    "fst (ConsumeCode (srvLib S) (ctx e ''ConsumeCode'') (clk (ctx e ''ConsumeCode now'') 0)
       (otpIdentifier (cID client) (?em q)) PurposeLoginOTP (oqCode q) (wDB w3)) = Inr ()"
    "otp_user S e (?em q) (w3\<lparr>wDB := snd (ConsumeCode (srvLib S) (ctx e ''ConsumeCode'')
       (clk (ctx e ''ConsumeCode now'') 0) (otpIdentifier (cID client) (?em q)) PurposeLoginOTP (oqCode q) (wDB w3))\<rparr>)
       = (Inr u, w4)"
    "uDisabledAt u = None" "issueSession S e r u client w4 = (Inr (Some t), w')" "rep = Reply 200 (Tokens t)"
    using assms(1,2) unfolding handleOTPVerify_def Let_def by (clarsimp simp: backwards)
  have w1: "w1 = w" using run(1) by (rule decode_Inr)
  obtain rl where rl: "w2 = w1\<lparr>wDB := wDB w1\<lparr>rate_limits := rl\<rparr>\<rparr>" using run(2) by (rule limit_Inr)
  have ok: "db_ok (srvLib S) (wDB w2)"
    using keptD [OF constraints.kept_limit _ run(2)] assms(3) w1 by (simp add: on_db_def)
  note cl = lookupClient_Inr [OF run(3)]
  let ?db1 = "snd (ConsumeCode (srvLib S) (ctx e ''ConsumeCode'')
       (clk (ctx e ''ConsumeCode now'') 0) (otpIdentifier (cID client) (?em q)) PurposeLoginOTP (oqCode q) (wDB w3))"
  have "db_ok (srvLib S) ?db1" using ok cl(1) by (simp add: ok_ConsumeCode)
  then have u: "u \<in> set (users (wDB w4))" "EmailVerified u" "citext (srvLib S) (uEmail u) = citext (srvLib S) (?em q)"
    "\<exists>us. wDB w4 = ?db1\<lparr>users := us\<rparr>"
    "\<forall>y \<in> set (users ?db1). citext (srvLib S) (uEmail y) = citext (srvLib S) (?em q) \<longrightarrow>
      uID y = uID u \<and> uPasswordHash y = uPasswordHash u"
    using otp_user_Inr [OF run(5)] by simp_all
  have users: "users ?db1 = users (wDB w)" using rl w1 cl(1) by (simp add: users_ConsumeCode)
  obtain iss where iss:
    "CreateSession (srvLib S) (ctx e ''CreateSession'') (uID u) (cID client) (session_meta r) (wDB w4) = (Inr iss, wDB w')"
    "SignAccess (srvJwx S) (srvSigner S) (ctx e ''SignAccess'') (access_claims u (cAudience client) (isSession iss)) =
      Inr (trAccessToken t)" "trRefreshToken t = RefreshToken iss"
    by (rule issueSession_Some [OF run(7)])
  have c: "client \<in> set (app_clients (wDB w))" using cl(1,2) rl w1 by simp
  have g: "ConsumeCode (srvLib S) (ctx e ''ConsumeCode'') (clk (ctx e ''ConsumeCode now'') 0)
      (otpIdentifier (cID client) (?em q)) PurposeLoginOTP (oqCode q) (wDB w\<lparr>rate_limits := rl\<rparr>) = (Inr (), ?db1)"
    using run(4) rl w1 cl(1) by (intro pair_eqI) simp_all
  from that [OF run(1) [unfolded w1] c cl(3) g u(4,1,2) run(6) u(3) iss(1,2) run(8) iss(3) u(5) [unfolded users]]
  show thesis .
qed

section \<open>The callback\<close>

text \<open>What a callback answers when it does not refuse: a redirect to what its flow recorded.\<close>

lemma resolve_user_Inl:
  "resolve_user S e p fl prof w = (Inl rep, w') \<Longrightarrow> \<exists>qs. rep = Found (appendQuery S (flRedirectURI fl) qs)"
  by (auto simp: resolve_user_def redirectWithError_def seq_def run_db_def zoom_def
      split: option.splits prod.splits sum.splits if_splits)

lemma hand_off_ok:
  "hand_off S e fl u w = (Inl rep, w') \<Longrightarrow> \<not> error_reply rep \<Longrightarrow>
   \<exists>qs. rep = Found (appendQuery S (flRedirectURI fl) qs)"
  unfolding hand_off_def by (clarsimp simp: backwards) blast

lemma callback_for_ok:
  assumes "callback_for S e r p fl w = (Inl rep, w')" and "\<not> error_reply rep"
  shows "\<exists>qs. rep = Found (appendQuery S (flRedirectURI fl) qs)"
  using assms unfolding callback_for_def
  by (auto simp: writeErr_def redirectWithError_def seq_def split: if_splits sum.splits prod.splits
      dest: resolve_user_Inl hand_off_ok)

lemma flows_CreateAuthCode: "oauth_flows (snd (CreateAuthCode H x code ac db)) = oauth_flows db"
  by (simp add: CreateAuthCode_def Let_def)

lemma kept_callback_for: "kept (on_db (\<lambda>db. oauth_flows db = F)) (callback_for S e r p fl)"
proof -
  have ops: "oauth_flows db = F \<Longrightarrow> oauth_flows (snd (Resolve (dbStore H ce) prov pr db)) = F"
    "oauth_flows db = F \<Longrightarrow> oauth_flows (snd (LinkToUser (dbStore H ce) u prov pr db)) = F"
    "oauth_flows db = F \<Longrightarrow> oauth_flows (snd (CreateAuthCode H x code ac db)) = F" for H ce prov pr u x code ac db
    by (simp_all add: flows_Resolve flows_LinkToUser flows_CreateAuthCode)
  show ?thesis
    unfolding callback_for_def resolve_user_def hand_off_def by (rule keeps ops | assumption)+
qed

lemma handleOAuthCallback_ok:
  assumes "handleOAuthCallback S e r w = (Inl rep, w')" and "\<not> error_reply rep"
  obtains fl db1 qs where
    "ConsumeOAuthFlow (srvLib S) (ctx e ''ConsumeOAuthFlow'') (rqQuery r ''state'') (wDB w) = (Inr fl, db1)"
    "oauth_flows (wDB w') = oauth_flows db1" "rep = Found (appendQuery S (flRedirectURI fl) qs)"
proof -
  let ?run = "ConsumeOAuthFlow (srvLib S) (ctx e ''ConsumeOAuthFlow'') (rqQuery r ''state'')"
  obtain p fl w1 where p: "find_provider S r w = (Inr p, w1)" and c: "fst (?run (wDB w1)) = Inr fl"
    and f: "callback_for S e r p fl (w1\<lparr>wDB := snd (?run (wDB w1))\<rparr>) = (Inl rep, w')"
    using assms unfolding handleOAuthCallback_def by (clarsimp simp: backwards)
  have w1: "w1 = w" using p by (auto simp: find_provider_def Let_def writeErr_def split: option.splits)
  have "oauth_flows (wDB w') = oauth_flows (snd (?run (wDB w)))"
    using keptD [OF kept_callback_for _ f, of "oauth_flows (snd (?run (wDB w)))"] w1 by (simp add: on_db_def)
  moreover have "?run (wDB w) = (Inr fl, snd (?run (wDB w)))" using c w1 by (intro pair_eqI) simp_all
  ultimately show thesis using callback_for_ok [OF f assms(2)] that by blast
qed

section \<open>Bodies\<close>

text \<open>What a body decodes to does not depend on the world.\<close>

lemma decode_world: "decode S r fs z w = (Inr q, w') \<Longrightarrow> decode S r fs z v = (Inr q, v)"
  by (auto simp: decode_def writeErr_def Let_def split: json_next.splits option.splits if_splits)

end
