(* ===== verification/Reachable.thy ===== *)
theory Reachable
  imports Outcomes
begin

text \<open>
  From the machines to the endpoints: what holds of every history the service can reach, and the
  secrets and families that stay dead once a request has spent or ended them.
\<close>

section \<open>From the machines to the endpoints\<close>

text \<open>A fresh deployment: accounts and clients may be there, no secret has been issued. A consistent
  history: the database keeps its constraints, registers its redirects, and holds only secrets on
  record, in well-formed families. Every run keeps it.\<close>

definition history_start :: "server \<Rightarrow> history \<Rightarrow> bool" where
  "history_start S h \<longleftrightarrow> db_ok (srvLib S) (wDB (hWorld h)) \<and> sessions (wDB (hWorld h)) = [] \<and>
     oauth_flows (wDB (hWorld h)) = [] \<and> auth_codes (wDB (hWorld h)) = [] \<and> otp_codes (wDB (hWorld h)) = []"

definition consistent :: "server \<Rightarrow> history \<Rightarrow> bool" where
  "consistent S h \<longleftrightarrow> service_inv S (hWorld h) \<and> lineage_inv (lineage_of h) \<and> secrets_inv (secrets_of h) \<and>
     otp_inv (otps_of h)"

abbreviation runs :: "server \<Rightarrow> history \<Rightarrow> history \<Rightarrow> bool" where
  "runs S \<equiv> rtranclp (audited_step S)"

interpretation audited: machine "history_start S" "audited_step S" "consistent S" for S
proof
  show "consistent S h" if "history_start S h" for h
    using that
    by (auto simp: history_start_def consistent_def service_inv_def on_db_def redirects_ok_def lineage_of_def
        lineage_inv_def lineage_def secrets_of_def secrets_inv_def otps_of_def otp_inv_def otp_rows_ok_def)
  show "consistent S h'" if "consistent S h" "audited_step S h h'" for h h'
    using that unfolding consistent_def
    by (blast intro: service.step_inv audited_is_step families.run_inv lineage_shadow.simulates
        flow_states.run_inv secrets_shadow.simulates email_tokens.run_inv otps_shadow.simulates)
qed

lemma consistentD:
  assumes "consistent S h"
  shows "db_ok (srvLib S) (wDB (hWorld h))" "redirects_ok (wDB (hWorld h))" "lineage_inv (lineage_of h)"
    "secrets_inv (secrets_of h)" "otp_inv (otps_of h)"
  using assms by (simp_all add: consistent_def service_inv_def on_db_def)

text \<open>The history after a request was served.\<close>

definition served :: "server \<Rightarrow> env \<Rightarrow> history \<Rightarrow> world \<Rightarrow> history" where
  "served S e h w' = (drawn (srvLib S) e h)\<lparr>hWorld := w'\<rparr>"

lemma served_simps [simp]:
  "hWorld (served S e h w') = w'" "hIDs (served S e h w') = hIDs h \<union> drawn_ids e"
  "hTokens (served S e h w') = hTokens h \<union> drawn_tokens (srvLib S) e"
  "hStates (served S e h w') = hStates h \<union> drawn_opaque (srvLib S) e ''state''"
  "hCodes (served S e h w') = hCodes h \<union> drawn_opaque (srvLib S) e ''NewOpaqueToken''"
  by (simp_all add: served_def drawn_def)

lemma view_simps [simp]:
  "lDB (lineage_of h) = wDB (hWorld h)" "lIDs (lineage_of h) = hIDs h" "lHashes (lineage_of h) = hTokens h"
  "secDB (secrets_of h) = wDB (hWorld h)" "stateHashes (secrets_of h) = hStates h"
  "codeHashes (secrets_of h) = hCodes h" "otpDB (otps_of h) = wDB (hWorld h)"
  "(k, p) \<in> otpKeys (otps_of h) \<longleftrightarrow> p = PurposeLoginOTP \<or> k \<in> hCodes h"
  by (simp_all add: lineage_of_def secrets_of_def otps_of_def)

lemma request_runs:
  assumes "unused (srvLib S) e h" and "serve (Routes S e r ep) (fresh_response (hWorld h)) = (rep, w')"
  shows "audited_step S h (served S e h w')"
  using audited_step.request [OF assms] by (simp add: served_def)

text \<open>A family that died while a request was served stays dead.\<close>

lemma family_dies:
  assumes "consistent S h" and "audited_step S h h1"
    and "f \<in> hIDs h1" and "\<forall>s \<in> set (sessions (wDB (hWorld h1))). sFamilyID s = f \<longrightarrow> sRevokedAt s \<noteq> None"
    and "runs S h1 h2"
  shows "\<forall>s \<in> set (sessions (wDB (hWorld h2))). sFamilyID s = f \<longrightarrow> sRevokedAt s \<noteq> None"
proof -
  have "lineage_inv (lineage_of h1)" by (rule consistentD(3) [OF audited.step_inv [OF assms(1,2)]])
  moreover have "dead_family f (lineage_of h1)" using assms(3,4) by (simp add: dead_family_def)
  ultimately have "dead_family f (lineage_of h2)"
    by (rule dead_families.dead_run [OF lineage_shadow.run_simulates [OF assms(5)]])
  then show ?thesis by (simp add: dead_family_def)
qed

text \<open>Secrets redeemed while a request was served are spent in every later state.\<close>

lemma code_stays_spent:
  assumes "consistent S h" and "audited_step S h (served S e h w1)"
    and "ConsumeAuthCode (srvLib S) x code (wDB (hWorld h)\<lparr>rate_limits := rl\<rparr>) = (Inr ac, db1)"
    and "auth_codes (wDB w1) = auth_codes db1" and "runs S (served S e h w1) h2"
  shows "\<exists>err. fst (ConsumeAuthCode (srvLib S) y code (wDB (hWorld h2)\<lparr>rate_limits := rl2\<rparr>)) = Inl err"
proof -
  let ?H = "srvLib S" and ?g = "(secrets_of h)\<lparr>secDB := wDB (hWorld h)\<lparr>rate_limits := rl\<rparr>\<rparr>"
  have "secrets_inv ?g" using consistentD(4) [OF assms(1)] by (simp add: secrets_inv_def)
  then have "spent_code ?H code (after_code ?H x code ?g)"
    by (rule redeem_code_spends) (simp add: redeem_code_def assms(3))
  then have "spent_code ?H code (secrets_of (served S e h w1))"
    by (auto simp: spent_code_def after_code_def assms(3,4) intro: spent_mono)
  moreover have "secrets_inv (secrets_of (served S e h w1))"
    by (rule consistentD(4) [OF audited.step_inv [OF assms(1,2)]])
  ultimately have "spent_code ?H code (secrets_of h2)"
    by (intro exchange_codes.dead_run [OF secrets_shadow.run_simulates [OF assms(5)]])
  then have "spent_code ?H code ((secrets_of h2)\<lparr>secDB := wDB (hWorld h2)\<lparr>rate_limits := rl2\<rparr>\<rparr>)"
    by (simp add: spent_code_def)
  from spent_code_refused [OF this] show ?thesis by (simp add: redeem_code_def)
qed

lemma state_stays_spent:
  assumes "consistent S h" and "audited_step S h (served S e h w1)"
    and "ConsumeOAuthFlow (srvLib S) x st (wDB (hWorld h)) = (Inr fl, db1)"
    and "oauth_flows (wDB w1) = oauth_flows db1" and "runs S (served S e h w1) h2"
  shows "\<exists>err. fst (ConsumeOAuthFlow (srvLib S) y st (wDB (hWorld h2))) = Inl err"
proof -
  let ?H = "srvLib S"
  have "spent_state ?H st (after_state ?H x st (secrets_of h))"
    by (rule redeem_state_spends [OF consistentD(4) [OF assms(1)]]) (simp add: redeem_state_def assms(3))
  then have "spent_state ?H st (secrets_of (served S e h w1))"
    by (auto simp: spent_state_def after_state_def assms(3,4) intro: spent_mono)
  moreover have "secrets_inv (secrets_of (served S e h w1))"
    by (rule consistentD(4) [OF audited.step_inv [OF assms(1,2)]])
  ultimately have "spent_state ?H st (secrets_of h2)"
    by (intro flow_states.dead_run [OF secrets_shadow.run_simulates [OF assms(5)]])
  from spent_state_refused [OF this] show ?thesis by (simp add: redeem_state_def)
qed

lemma reset_stays_spent:
  assumes "consistent S h" and "audited_step S h (served S e h w1)"
    and "ConsumeToken (srvLib S) x PurposePasswordReset tk (wDB (hWorld h)\<lparr>rate_limits := rl\<rparr>) = (Inr u, db1)"
    and "otp_codes (wDB w1) = otp_codes db1" and "runs S (served S e h w1) h2"
  shows "\<exists>err. fst (ConsumeToken (srvLib S) y PurposePasswordReset tk (wDB (hWorld h2)\<lparr>rate_limits := rl2\<rparr>)) = Inl err"
proof -
  let ?H = "srvLib S" and ?p = PurposePasswordReset
  let ?g = "(otps_of h)\<lparr>otpDB := wDB (hWorld h)\<lparr>rate_limits := rl\<rparr>\<rparr>"
  have "otp_inv ?g" using consistentD(5) [OF assms(1)] by (simp add: otp_inv_def)
  then have "spent_otp ?H ?p tk (after_token ?H ?p x tk ?g)"
    by (rule redeem_token_spends) (simp_all add: redeem_token_def assms(3))
  then have "spent_otp ?H ?p tk (otps_of (served S e h w1))"
    by (auto simp: spent_otp_def after_token_def assms(3,4) spent_rows_def)
  moreover have "otp_inv (otps_of (served S e h w1))"
    by (rule consistentD(5) [OF audited.step_inv [OF assms(1,2)]])
  ultimately have "spent_otp ?H ?p tk (otps_of h2)"
    by (intro reset_tokens.dead_run [OF otps_shadow.run_simulates [OF assms(5)]])
  then have "spent_otp ?H ?p tk ((otps_of h2)\<lparr>otpDB := wDB (hWorld h2)\<lparr>rate_limits := rl2\<rparr>\<rparr>)"
    by (simp add: spent_otp_def)
  from spent_otp_refused [OF this] show ?thesis by (simp add: redeem_token_def)
qed

end
