(* ===== verification/Example.thy ===== *)
theory Example
  imports Reachable
begin

text \<open>
  An example service the witnesses run: one account, one client, simple library functions, and what
  each endpoint answers there.
\<close>

section \<open>An example service\<close>

text \<open>Every library function is simple: hashes are the identity, every token is signed \<open>''jwt''\<close>, the
  body of a request is the JSON value the server is given.\<close>

definition easy_jwx :: "Claims option \<Rightarrow> jwx" where
  "easy_jwx c = \<lparr>ed_public = (\<lambda>s. s), jwk_ok = (\<lambda>_. True), add_key = (\<lambda>ks k. Some (ks @ [k])),
     jwt_sign = (\<lambda>_ _. Some ''jwt''),
     jwt_parse = (\<lambda>_ _ _ _ _. map_option (access_jwt demo_signer (calm 10 ''J'' CHR ''a'')) c),
     jwt_insecure = (\<lambda>_. map_option (access_jwt demo_signer (calm 10 ''J'' CHR ''a'')) c)\<rparr>"

definition demo_provider :: provider where
  "demo_provider = \<lparr>pvName = ''google'', pvAuthURL = (\<lambda>s c. ''https://idp?'' @ s),
     pvExchange = (\<lambda>_ _. Inr ann_google)\<rparr>"

definition demo_server :: "json \<Rightarrow> Claims option \<Rightarrow> server" where
  "demo_server v c = \<lparr>srvLib = plain, srvJwx = easy_jwx c, srvSigner = demo_signer,
     srvProviders = [(''google'', demo_provider)],
     srvNext = (\<lambda>s. if s = [] then JEnd else JValue v []), srvURL = (\<lambda>_. None),
     srvSetQuery = (\<lambda>u ps. Some (u @ ''?'' @ concat (map (\<lambda>(k, v). k @ ''='' @ v) ps))),
     srvAdminKey = ''admin'', srvSecure = True, srvDummyHash = []\<rparr>"

definition demo_env :: env where
  "demo_env = \<lparr>ctx = (\<lambda>_. calm 20 ''N'' CHR ''n''), delivers = (\<lambda>_. True)\<rparr>"

definition demo_request :: request where
  "demo_request = \<lparr>rqHeader = (\<lambda>h. if h = ''Authorization'' then ''Bearer t'' else []), rqRemoteAddr = ''ip'',
     rqBody = ''x'', rqCookie = (\<lambda>_. None), rqQuery = (\<lambda>_. []), rqPathValue = (\<lambda>_. [])\<rparr>"

definition on_world :: "DB \<Rightarrow> world" where
  "on_world db = \<lparr>wDB = db, wOutbox = [], wJobs = [], wCookies = [], wHeader = []\<rparr>"

lemma demo_decode:
  "decode (demo_server v c) demo_request fs z w =
     (case into_struct True fs v z of
        None \<Rightarrow> (Inl (Reply 400 (ErrBody ''invalid_request'' ''malformed JSON body'')), w)
      | Some q \<Rightarrow> (Inr q, w))"
  by (simp add: decode_def demo_server_def demo_request_def maxBody_def writeErr_def Let_def
      split: option.split)

lemma demo_clientIP: "clientIP demo_request = ''ip''"
  by (simp add: clientIP_def demo_request_def LastIndexByte_def)

lemma demo_limit:
  "rate_limits (wDB w) = [] \<Longrightarrow> 1 \<le> n \<Longrightarrow> limit demo_env site b n win w =
     (Inr (), w\<lparr>wDB := wDB w\<lparr>rate_limits := [\<lparr>rBucket = b, rWindowStart = Truncate 20 win, rCount = 1\<rparr>]\<rparr>\<rparr>)"
  by (simp add: limit_def demo_env_def run_db_def zoom_def Allow_def Let_def seq_def)

lemma trim_plain: "TrimSpace ''ann@x.io'' = ''ann@x.io''"
  by code_simp

section \<open>An example history\<close>

text \<open>Ann is signed in at the application, has a code to be exchanged and a reset mail on its way.\<close>

definition hashed :: "string \<Rightarrow> string" where
  "hashed pw = encode DefaultParams (replicate 16 CHR ''s'') (take 32 (pw @ replicate 32 CHR ''0''))"

lemma Verify_hashed: "Verify plain (hashed pw) q = Inr (take 32 (q @ replicate 32 CHR ''0'') = take 32 (pw @ replicate 32 CHR ''0''))"
proof -
  have len: "length (take 32 (pw @ replicate 32 CHR ''0'')) = 32" by simp
  show ?thesis
    unfolding hashed_def by (subst Verify_encode) (simp_all add: DefaultParams_def len del: length_take take_append)
qed

definition demo_user :: User where
  "demo_user = \<lparr>uID = ''A'', uEmail = ''ann@x.io'', uEmailVerifiedAt = Some 1, uPasswordHash = Some (hashed ''correct horse''),
     uCreatedAt = 1, uUpdatedAt = 1, uDisabledAt = None\<rparr>"

definition demo_client :: Client where
  "demo_client = \<lparr>cID = ''app'', cName = ''App'', cSecretHash = hashed ''secret'', cRedirectURIs = [''https://app/cb''],
     cAudience = ''app''\<rparr>"

definition demo_db :: DB where
  "demo_db = \<lparr>users = [demo_user], identities = [], app_clients = [demo_client], sessions = [first_session],
     auth_codes = [\<lparr>aCodeHash = ''code'', aUserID = ''A'', aClientID = ''app'', aRedirectURI = ''https://app/cb'',
       aExpiresAt = 10 + AuthCodeTTL, aConsumedAt = None\<rparr>],
     otp_codes = [issued_row plain (calm 10 ''K'' CHR ''a'') ''A'' PurposePasswordReset ''tok'' 100],
     rate_limits = [],
     oauth_flows = [\<lparr>fStateHash = ''st'', fProvider = ''google'', fClientID = ''app'', fRedirectURI = ''https://app/cb'',
       fAppState = [], fCodeVerifier = ''v'', fLinkUserID = None, fCreatedAt = 10, fExpiresAt = 10 + OAuthFlowTTL,
       fConsumedAt = None\<rparr>]\<rparr>"

definition demo_history :: history where
  "demo_history = \<lparr>hWorld = on_world demo_db, hIDs = {''S1''}, hTokens = {tok CHR ''a''}, hStates = {''st''},
     hCodes = {''code'', ''tok''}\<rparr>"

lemmas demo_defs = demo_db_def demo_user_def demo_client_def first_session_def issued_row_def on_world_def

lemma demo_srv [simp]: "srvLib (demo_server v c) = plain" "hWorld demo_history = on_world demo_db"
    "wDB (on_world db) = db" "ctx demo_env site = calm 20 ''N'' CHR ''n''" "srvJwx (demo_server v c) = easy_jwx c"
  by (simp_all add: demo_server_def demo_history_def on_world_def demo_env_def)

lemma demo_db_ok: "db_ok plain demo_db"
  by (simp add: db_ok_def demo_defs user_exists_def client_exists_def)

lemma demo_consistent: "consistent (demo_server v c) demo_history"
  using demo_db_ok
  by (simp add: consistent_def service_inv_def on_db_def redirects_ok_def registered_def
      lineage_of_def lineage_inv_def lineage_def issued_def kin_def secrets_of_def secrets_inv_def otps_of_def
      otp_inv_def otp_rows_ok_def tracked_def otp_key_def demo_history_def demo_defs hashCode_def AuthCodeTTL_def OAuthFlowTTL_def)

lemma NewOpaqueToken_calm: "NewOpaqueToken (calm t i c) k = Inr (tok c)"
  by (simp add: NewOpaqueToken_def rand_read_def tok_def calm_def map_replicate_const)

lemma tok_length: "length (tok c) = 43"
  by (simp add: tok_def length_EncodeToString)

lemma tok_long [simp]: "tok c \<noteq> []" "tok c \<noteq> ''code''" "tok c \<noteq> ''tok''" "tok c \<noteq> ''st''"
  using tok_length [of c] by auto

lemma demo_unused: "unused plain demo_env demo_history"
  by (auto simp: unused_def drawn_ids_def drawn_tokens_def drawn_opaque_def demo_history_def NewRefreshToken_calm
      NewOpaqueToken_calm HashRefresh_def hashCode_def tok_inj)

definition refresh_request :: request where
  "refresh_request = demo_request\<lparr>rqCookie := (\<lambda>_. Some (tok CHR ''a''))\<rparr>"

lemma demo_refresh: "\<exists>t w1. serve (Routes (demo_server JNull None) demo_env refresh_request Refresh)
    (fresh_response (on_world demo_db)) = (Reply 200 (Tokens t), w1)"
  unfolding serve_Routes
  by (simp add: Routes_def handleRefresh_def refreshTokenFrom_def refresh_request_def seq_def demo_limit run_db_def
      zoom_def Rotate_def session_examples refreshed_def read_db_def UserByID_def scanUser_def ClientByID_def
      demo_db_def demo_user_def demo_client_def respondWithTokens_def SignAccess_def easy_jwx_def
      setRefreshCookie_def set_cookie_def answer_tokens_def writeJSON_def)

definition exchange_body :: json where
  "exchange_body = JObj [(''code'', JStr ''code''), (''client_id'', JStr ''app''), (''client_secret'', JStr ''secret'')]"

definition demo_exchange :: exchangeReq where
  "demo_exchange = \<lparr>xqCode = ''code'', xqClientID = ''app'', xqClientSecret = ''secret''\<rparr>"

lemma decode_exchange:
  "decode (demo_server exchange_body None) demo_request exchangeReq_fields zero_exchangeReq w = (Inr demo_exchange, w)"
  by (simp add: demo_decode exchange_body_def demo_exchange_def into_struct_def field_for_def exchangeReq_fields_def
      zero_exchangeReq_def into_string_def)

lemma demo_exchanged: "\<exists>t w1. serve (Routes (demo_server exchange_body None) demo_env demo_request TokenExchange)
    (fresh_response (on_world demo_db)) = (Reply 200 (Tokens t), w1)"
  unfolding serve_Routes
  by (simp add: Routes_def handleTokenExchange_def seq_def decode_exchange demo_limit authenticate_client_def
      demo_exchange_def read_db_def run_db_def zoom_def ClientByID_def demo_db_def demo_client_def norows_def
      Verify_hashed ConsumeAuthCode_def hashCode_def AuthCodeTTL_def UserByID_def scanUser_def demo_user_def
      CreateSession_def session_examples respondWithTokens_def SignAccess_def easy_jwx_def setRefreshCookie_def
      set_cookie_def answer_tokens_def writeJSON_def)

lemma demo_claims_verified:
  "verifyAnyAudience (demo_server v (Some c)) now raw =
     Some (c\<lparr>clJTI := (if clJTI c = [] then ''J'' else clJTI c), clIssuedAt := 10, clExpiresAt := 10 + hour\<rparr>)"
proof -
  have "PeekAudience (easy_jwx (Some c)) raw = Some (clAudience c)"
    by (simp add: PeekAudience_def easy_jwx_def access_jwt_def Let_def)
  moreover have "VerifyAccess (easy_jwx (Some c)) s now raw (clAudience c) =
     Some (c\<lparr>clJTI := (if clJTI c = [] then ''J'' else clJTI c), clIssuedAt := 10, clExpiresAt := 10 + hour\<rparr>)" for s
    by (simp add: VerifyAccess_def easy_jwx_def claims_of_access demo_signer_def)
  ultimately show ?thesis by (simp add: verifyAnyAudience_def)
qed

lemma demo_bearer: "bearer demo_request = ''t''"
  by code_simp

definition demo_token :: Claims where
  "demo_token = demo_claims\<lparr>clJTI := ''J'', clIssuedAt := 10, clExpiresAt := 10 + hour\<rparr>"

lemma demo_logout: "\<exists>w1. serve (Routes (demo_server JNull (Some demo_claims)) demo_env demo_request Logout)
    (fresh_response (on_world demo_db)) = (Status 204, w1)"
  unfolding serve_Routes
  by (simp add: Routes_def requireUser_def demo_bearer demo_claims_verified demo_claims_def SessionByID_def demo_db_def
      seq_def read_db_def first_session_def norows_def handleLogout_def run_db_def zoom_def RevokeFamily_def
      end_session_def clearRefreshCookie_def set_cookie_def)

definition reset_body :: json where
  "reset_body = JObj [(''token'', JStr ''tok''), (''new_password'', JStr ''much better'')]"

definition demo_reset :: resetReq where
  "demo_reset = \<lparr>reToken = ''tok'', reNewPassword = ''much better''\<rparr>"

lemma decode_reset:
  "decode (demo_server reset_body None) demo_request resetReq_fields \<lparr>reToken = [], reNewPassword = []\<rparr> w =
     (Inr demo_reset, w)"
  by (simp add: demo_decode reset_body_def demo_reset_def into_struct_def field_for_def resetReq_fields_def
      into_string_def)

lemma demo_reset_done: "\<exists>w1. serve (Routes (demo_server reset_body None) demo_env demo_request PasswordReset)
    (fresh_response (on_world demo_db)) = (Reply 200 (BoolMap [(''password_reset'', True)]), w1)"
  unfolding serve_Routes
  by (simp add: Routes_def handlePasswordReset_def seq_def decode_reset demo_limit demo_reset_def MinPasswordLen_def
      run_db_def zoom_def ConsumeToken_def demo_db_def issued_row_def hashCode_def Hash_def HashWithParams_def
      rand_read_def SetPasswordHash_def RevokeAllForUser_def clearRefreshCookie_def set_cookie_def writeJSON_def
      DefaultParams_def)

definition callback_request :: request where
  "callback_request = demo_request\<lparr>rqQuery := (\<lambda>k. if k = ''state'' then ''st'' else if k = ''code'' then ''c'' else []),
     rqPathValue := (\<lambda>_. ''google'')\<rparr>"

lemma callback_query: "rqQuery callback_request ''state'' = ''st''" "rqQuery callback_request ''code'' = ''c''"
    "rqQuery callback_request ''error'' = []"
  by (simp_all add: callback_request_def)

lemma normalize_plain: "normalizeEmail plain ''ann@x.io'' = ''ann@x.io''"
  by code_simp

lemma demo_find_provider:
  "find_provider (demo_server v c) callback_request w = (Inr demo_provider, w)"
  by (simp add: find_provider_def demo_server_def callback_request_def ToLower_def ascii_lower_def)

lemma demo_callback: "\<exists>w1. serve (Routes (demo_server JNull None) demo_env callback_request OAuthCallback)
    (fresh_response (on_world demo_db)) =
      (Found (appendQuery (demo_server JNull None) ''https://app/cb'' [(''code'', tok CHR ''n''), (''state'', [])]), w1)"
  unfolding serve_Routes
  by (simp add: Routes_def handleOAuthCallback_def seq_def demo_find_provider run_db_def zoom_def ConsumeOAuthFlow_def
      callback_query demo_db_def hashCode_def OAuthFlowTTL_def callback_for_def demo_provider_def
      resolve_user_def Resolve_def dbStore_def ann_google_def normalize_plain IdentityBySubject_def norows_def
      owner_of_def UserByEmail_def scanUser_def demo_user_def EmailVerified_def CreateIdentity_def Let_def
      identity_ok_def identity_of_def user_exists_def client_exists_def hand_off_def NewOpaqueToken_calm
      CreateAuthCode_def auth_code_ok_def demo_client_def)

lemma demo_limit_other:
  "rate_limits (wDB w) = [row] \<Longrightarrow> rBucket row \<noteq> b \<Longrightarrow> 1 \<le> n \<Longrightarrow> limit demo_env site b n win w =
     (Inr (), w\<lparr>wDB := wDB w\<lparr>rate_limits := [row, \<lparr>rBucket = b, rWindowStart = Truncate 20 win, rCount = 1\<rparr>]\<rparr>\<rparr>)"
  by (simp add: limit_def run_db_def zoom_def Allow_def Let_def seq_def in_window_def)

definition login_body :: json where
  "login_body = JObj [(''client_id'', JStr ''app''), (''email'', JStr ''ann@x.io''), (''password'', JStr ''correct horse'')]"

definition demo_login :: registerReq where
  "demo_login = \<lparr>rrClientID = ''app'', rrEmail = ''ann@x.io'', rrPassword = ''correct horse''\<rparr>"

lemma decode_login:
  "decode (demo_server login_body None) demo_request registerReq_fields zero_registerReq w = (Inr demo_login, w)"
  by (simp add: demo_decode login_body_def demo_login_def into_struct_def field_for_def registerReq_fields_def
      zero_registerReq_def into_string_def)

lemmas issue_examples = issueSession_def CreateSession_def session_examples respondWithTokens_def SignAccess_def
  easy_jwx_def setRefreshCookie_def set_cookie_def answer_tokens_def writeJSON_def

lemma demo_logged_in: "\<exists>t w1. serve (Routes (demo_server login_body None) demo_env demo_request Login)
    (fresh_response (on_world demo_db)) = (Reply 200 (Tokens t), w1)"
  unfolding serve_Routes
  by (simp add: Routes_def handleLogin_def seq_def decode_login demo_login_def normalize_plain demo_limit
      demo_limit_other demo_clientIP lookupClient_def read_db_def ClientByID_def demo_db_def demo_client_def
      UserByEmail_def scanUser_def demo_user_def Verify_hashed run_db_def zoom_def issue_examples)

definition otp_body :: json where
  "otp_body = JObj [(''client_id'', JStr ''app''), (''email'', JStr ''ann@x.io''), (''code'', JStr ''123456'')]"

definition demo_otp :: otpReq where
  "demo_otp = \<lparr>oqClientID = ''app'', oqEmail = ''ann@x.io'', oqCode = ''123456''\<rparr>"

lemma decode_otp:
  "decode (demo_server otp_body None) demo_request otpVerifyReq_fields zero_otpReq w = (Inr demo_otp, w)"
  by (simp add: demo_decode otp_body_def demo_otp_def into_struct_def field_for_def otpVerifyReq_fields_def
      otpRequestReq_fields_def zero_otpReq_def into_string_def)

definition otp_db :: DB where
  "otp_db = demo_db\<lparr>otp_codes := [issued_row plain (calm 10 ''K'' CHR ''a'') ''app|ann@x.io'' PurposeLoginOTP ''123456'' OTPTTL]\<rparr>"

lemma otp_db_ok: "db_ok plain otp_db"
  using demo_db_ok by (simp add: otp_db_def db_ok_set_otp)

lemma demo_code_login: "\<exists>t w1. serve (Routes (demo_server otp_body None) demo_env demo_request OTPVerify)
    (fresh_response (on_world otp_db)) = (Reply 200 (Tokens t), w1)"
  unfolding serve_Routes
  by (simp add: Routes_def handleOTPVerify_def seq_def decode_otp demo_otp_def normalize_plain demo_limit
      demo_clientIP lookupClient_def read_db_def ClientByID_def otp_db_def demo_db_def demo_client_def ConsumeCode_def
      otpIdentifier_def issued_row_def outstanding_def hashCode_def MaxOTPAttempts_def OTPTTL_def
      otp_user_def EmailVerified_def
      UserByEmail_def scanUser_def demo_user_def run_db_def zoom_def issue_examples)

end
