(* ===== verification/Guarantees.thy ===== *)
theory Guarantees
  imports Example
begin

text \<open>
  What a client of the service can rely on, endpoint by endpoint: each theorem reads a reply and the
  worlds before and after it.
\<close>

section \<open>Properties\<close>

text \<open>C3: a refresh token is accepted once by the whole service: after \<open>POST /v1/token/refresh\<close>
  answered with tokens, every later request with the same refresh token is refused, whatever
  requests, deliveries and prunes ran in between.\<close>

theorem refresh_endpoint_accepts_once:
  assumes "consistent S h" and "unused (srvLib S) e h"
    and "serve (Routes S e r Refresh) (fresh_response (hWorld h)) = (Reply 200 (Tokens t), w1)"
    and "runs S (served S e h w1) h2"
    and "refreshTokenFrom S r2 = refreshTokenFrom S r"
  shows "error_reply (fst (serve (Routes S e2 r2 Refresh) (fresh_response (hWorld h2))))"
proof -
  let ?H = "srvLib S" and ?tk = "refreshTokenFrom S r" and ?x = "ctx e ''Rotate''"
  obtain rl iss where rot: "Rotate ?H ?x ?tk (session_meta r) (wDB (hWorld h)\<lparr>rate_limits := rl\<rparr>) = (Inr iss, wDB w1)"
    using assms(3) [unfolded serve_Routes] by (auto simp: Routes_def elim: handleRefresh_ok)
  let ?g = "(lineage_of h)\<lparr>lDB := wDB (hWorld h)\<lparr>rate_limits := rl\<rparr>\<rparr>"
  have "lineage_inv ?g" using consistentD(3) [OF assms(1)] by (simp add: lineage_inv_def)
  moreover have new: "new_ctx ?H ?x ?g" by (rule unused_new_ctx [OF assms(2)]) simp
  moreover have "Rotate ?H ?x ?tk (session_meta r) (lDB ?g) = (Inr iss, wDB w1)" using rot by simp
  ultimately have "spent_token ?H ?tk (record_ctx ?H ?x (wDB w1) ?g)"
    by (intro rotate_spends)
  then have "spent_token ?H ?tk (lineage_of (served S e h w1))"
    by (auto simp: spent_token_def record_ctx_def drawn_tokens_def split: sum.splits)
  moreover have step: "audited_step S h (served S e h w1)" by (rule request_runs [OF assms(2,3)])
  have "lineage_inv (lineage_of (served S e h w1))"
    by (rule consistentD(3) [OF audited.step_inv [OF assms(1) step]])
  ultimately have spent: "spent_token ?H ?tk (lineage_of h2)"
    by (intro refresh_tokens.dead_run [OF lineage_shadow.run_simulates [OF assms(4)]])
  obtain rep w2 where s2: "serve (Routes S e2 r2 Refresh) (fresh_response (hWorld h2)) = (rep, w2)" by force
  have "error_reply rep"
  proof (rule ccontr)
    assume "\<not> error_reply rep"
    with s2 [unfolded serve_Routes] obtain rl2 iss2 where
      "Rotate ?H (ctx e2 ''Rotate'') ?tk (session_meta r2) (wDB (hWorld h2)\<lparr>rate_limits := rl2\<rparr>) = (Inr iss2, wDB w2)"
      by (auto simp: Routes_def assms(5) elim: handleRefresh_ok)
    then have "Inr iss2 = fst (Rotate ?H (ctx e2 ''Rotate'') ?tk (session_meta r2)
        (wDB (hWorld h2)\<lparr>rate_limits := rl2\<rparr>))" by simp
    moreover have "\<exists>err. fst (Rotate ?H (ctx e2 ''Rotate'') ?tk (session_meta r2)
        (wDB (hWorld h2)\<lparr>rate_limits := rl2\<rparr>)) = Inl err"
      using spent by (intro Rotate_spent) (simp add: spent_token_def)
    ultimately show False by auto
  qed
  with s2 show ?thesis by simp
qed

theorem refresh_endpoint_accepts_once_witness:
  "\<exists>t w1. serve (Routes (demo_server JNull None) demo_env refresh_request Refresh)
      (fresh_response (on_world demo_db)) = (Reply 200 (Tokens t), w1) \<and>
    error_reply (fst (serve (Routes (demo_server JNull None) demo_env refresh_request Refresh) (fresh_response w1)))"
proof -
  let ?S = "demo_server JNull None"
  obtain t w1 where run: "serve (Routes ?S demo_env refresh_request Refresh) (fresh_response (hWorld demo_history)) =
      (Reply 200 (Tokens t), w1)"
    using demo_refresh by auto
  have "error_reply (fst (serve (Routes ?S demo_env refresh_request Refresh)
      (fresh_response (hWorld (served ?S demo_env demo_history w1)))))"
    by (rule refresh_endpoint_accepts_once [OF demo_consistent _ run rtranclp.rtrancl_refl])
      (simp_all add: demo_unused)
  with run show ?thesis by auto
qed

text \<open>C4: an authorization code buys one session: the exchange answers with tokens only to the client
  the code was issued to, which proved its secret, for a code that is recorded, unconsumed and
  unexpired, and for an account that exists and is not disabled; the session is that account's at
  that client, the refresh token handed out is the one it stores; and after that every exchange of
  the same code is refused, whatever ran in between.\<close>

theorem code_buys_one_session:
  assumes "consistent S h" and "unused (srvLib S) e h"
    and "serve (Routes S e r TokenExchange) (fresh_response (hWorld h)) = (Reply 200 (Tokens t), w1)"
    and "decode S r exchangeReq_fields zero_exchangeReq (hWorld h) = (Inr q, hWorld h)"
    and "runs S (served S e h w1) h2"
    and "decode S r2 exchangeReq_fields zero_exchangeReq (hWorld h2) = (Inr q2, hWorld h2)"
    and "xqCode q2 = xqCode q"
  shows "(\<exists>c \<in> set (app_clients (wDB (hWorld h))). \<exists>a \<in> set (auth_codes (wDB (hWorld h))).
      \<exists>u \<in> set (users (wDB (hWorld h))). \<exists>s \<in> set (sessions (wDB w1)).
        cID c = xqClientID q \<and> Verify (srvLib S) (cSecretHash c) (xqClientSecret q) = Inr True \<and>
        aCodeHash a = hashCode (srvLib S) (xqCode q) \<and> aClientID a = cID c \<and> aConsumedAt a = None \<and>
        clk (ctx e ''ConsumeAuthCode'') 0 \<le> aExpiresAt a \<and> aUserID a = uID u \<and> uDisabledAt u = None \<and>
        sUserID s = uID u \<and> sClientID s = cID c \<and> sTokenHash s = HashRefresh (srvLib S) (trRefreshToken t)) \<and>
    error_reply (fst (serve (Routes S e2 r2 TokenExchange) (fresh_response (hWorld h2))))"
proof -
  let ?H = "srvLib S" and ?x = "ctx e ''ConsumeAuthCode''"
  have run: "handleTokenExchange S e r (opened (hWorld h)) = (Inl (Reply 200 (Tokens t)), w1)"
    using assms(3) [unfolded serve_Routes] by (simp add: Routes_def)
  have q: "q' = q" if "decode S r exchangeReq_fields zero_exchangeReq (opened (hWorld h)) = (Inr q', opened (hWorld h))" for q'
    using decode_world [OF that, of "hWorld h"] assms(4) by simp
  obtain rl c ac u iss db1 where ok:
    "c \<in> set (app_clients (wDB (hWorld h)))" "cID c = xqClientID q" "Verify ?H (cSecretHash c) (xqClientSecret q) = Inr True"
    "ConsumeAuthCode ?H ?x (xqCode q) (wDB (hWorld h)\<lparr>rate_limits := rl\<rparr>) = (Inr ac, db1)"
    "acClientID ac = cID c" "u \<in> set (users (wDB (hWorld h)))" "uID u = acUserID ac" "uDisabledAt u = None"
    "CreateSession ?H (ctx e ''CreateSession'') (uID u) (cID c) (session_meta r) db1 = (Inr iss, wDB w1)"
    "trRefreshToken t = RefreshToken iss"
    using run by (rule handleTokenExchange_ok) (auto dest: q)
  have step: "audited_step S h (served S e h w1)" by (rule request_runs [OF assms(2,3)])
  note s = insertSession_Inr [OF ok(9) [unfolded CreateSession_def Let_def]]
  have codes: "auth_codes (wDB w1) = auth_codes db1" by (simp add: s(4))
  obtain a where a: "a \<in> set (auth_codes (wDB (hWorld h)))" "aCodeHash a = hashCode ?H (xqCode q)"
    "aConsumedAt a = None" "clk ?x 0 \<le> aExpiresAt a" "aClientID a = acClientID ac" "aUserID a = acUserID ac"
    using ok(4) by (cases rule: ConsumeAuthCode_cases) auto
  have m: "isSession iss \<in> set (sessions (wDB w1))" by (simp add: s(4))
  obtain rep w2 where s2: "serve (Routes S e2 r2 TokenExchange) (fresh_response (hWorld h2)) = (rep, w2)" by force
  have "error_reply rep"
  proof (rule ccontr)
    assume ne: "\<not> error_reply rep"
    have run2: "handleTokenExchange S e2 r2 (opened (hWorld h2)) = (Inl rep, w2)"
      using s2 [unfolded serve_Routes] by (simp add: Routes_def)
    obtain q' rl2 ac2 db2 where
      d: "decode S r2 exchangeReq_fields zero_exchangeReq (opened (hWorld h2)) = (Inr q', opened (hWorld h2))"
      and two: "ConsumeAuthCode ?H (ctx e2 ''ConsumeAuthCode'') (xqCode q') (wDB (hWorld h2)\<lparr>rate_limits := rl2\<rparr>) = (Inr ac2, db2)"
      using run2 ne by (rule handleTokenExchange_ok) auto
    have "q' = q2" using decode_world [OF d, of "hWorld h2"] assms(6) by simp
    with code_stays_spent [OF assms(1) step ok(4) codes assms(5), of "ctx e2 ''ConsumeAuthCode''" rl2] two assms(7)
    show False by auto
  qed
  show ?thesis
  proof (rule conjI)
    show "error_reply (fst (serve (Routes S e2 r2 TokenExchange) (fresh_response (hWorld h2))))"
      using \<open>error_reply rep\<close> s2 by simp
  qed (intro bexI [OF _ ok(1)] bexI [OF _ a(1)] bexI [OF _ ok(6)] bexI [OF _ m],
      use ok(2,3,5,7,8,10) a(2-6) in \<open>simp add: s(2)\<close>)
qed

theorem code_buys_one_session_witness:
  "\<exists>t w1. serve (Routes (demo_server exchange_body None) demo_env demo_request TokenExchange)
      (fresh_response (on_world demo_db)) = (Reply 200 (Tokens t), w1) \<and>
    error_reply (fst (serve (Routes (demo_server exchange_body None) demo_env demo_request TokenExchange)
      (fresh_response w1)))"
proof -
  let ?S = "demo_server exchange_body None"
  obtain t w1 where run: "serve (Routes ?S demo_env demo_request TokenExchange)
      (fresh_response (hWorld demo_history)) = (Reply 200 (Tokens t), w1)"
    using demo_exchanged by auto
  have "error_reply (fst (serve (Routes ?S demo_env demo_request TokenExchange)
      (fresh_response (hWorld (served ?S demo_env demo_history w1)))))"
    by (rule code_buys_one_session [OF demo_consistent _ run decode_exchange rtranclp.rtrancl_refl decode_exchange,
          THEN conjunct2])
      (simp_all add: demo_unused)
  with run show ?thesis by auto
qed

text \<open>The endpoints behind the guard.\<close>

definition guarded :: "endpoint list" where
  "guarded = [LinkStart, Logout, LogoutAll, Me, ListSessions, DeleteSession]"

lemma guarded_Routes:
  "ep \<in> set guarded \<Longrightarrow> \<exists>nxt. Routes S e r ep = requireUser S e r nxt"
  by (auto simp: guarded_def Routes_def)

text \<open>A token whose session is revoked, or of a family all of whose rows are, is refused by every
  guarded endpoint.\<close>

lemma guard_refuses:
  assumes "ep \<in> set guarded" and "verifyAnyAudience S (clk (ctx e ''VerifyAccess'') 0) (bearer r) = Some c"
    and "clSessionID c \<noteq> []"
    and "\<forall>s \<in> set (sessions (wDB w)). sID s = clSessionID c \<longrightarrow> sRevokedAt s \<noteq> None"
  shows "error_reply (fst (serve (Routes S e r ep) (fresh_response w)))"
proof (rule ccontr)
  assume ne: "\<not> ?thesis"
  obtain nxt where n: "Routes S e r ep = requireUser S e r nxt" using guarded_Routes [OF assms(1)] by blast
  obtain rep w' where s: "serve (Routes S e r ep) (fresh_response w) = (rep, w')" by force
  then have "requireUser S e r nxt (opened w) = (Inl rep, w')" unfolding serve_Routes by (simp add: n)
  then show False
  proof (rule requireUser_ok)
    show "\<not> error_reply rep" using ne s by simp
  qed (use assms(2-4) in auto)
qed

text \<open>C9: a logout is final: when it answered without an error, and could read the session of the
  presented token, every row of that session's family is revoked in every later state, so that no
  refresh token of it works again, and every token of the family is refused by every guarded
  endpoint, though the token itself has not expired.\<close>

theorem logout_is_final:
  assumes "consistent S h" and "unused (srvLib S) e h"
    and "serve (Routes S e r Logout) (fresh_response (hWorld h)) = (Status 204, w1)"
    and "verifyAnyAudience S (clk (ctx e ''VerifyAccess'') 0) (bearer r) = Some c" and "clSessionID c \<noteq> []"
    and "s \<in> set (sessions (wDB (hWorld h)))" and "sID s = clSessionID c" and "\<not> flt (ctx e ''SessionByID'') 0"
    and "runs S (served S e h w1) h2"
  shows "(\<forall>k \<in> set (sessions (wDB (hWorld h2))). sFamilyID k = sFamilyID s \<longrightarrow> sRevokedAt k \<noteq> None) \<and>
    (\<forall>ep \<in> set guarded. \<forall>e2 r2 c2 k.
       verifyAnyAudience S (clk (ctx e2 ''VerifyAccess'') 0) (bearer r2) = Some c2 \<longrightarrow>
       k \<in> set (sessions (wDB (hWorld h2))) \<longrightarrow> sID k = clSessionID c2 \<longrightarrow> clSessionID c2 \<noteq> [] \<longrightarrow>
       sFamilyID k = sFamilyID s \<longrightarrow>
       error_reply (fst (serve (Routes S e2 r2 ep) (fresh_response (hWorld h2)))))"
proof -
  have run: "requireUser S e r (handleLogout S e) (opened (hWorld h)) = (Inl (Status 204), w1)"
    using assms(3) [unfolded serve_Routes] by (simp add: Routes_def)
  then have lo: "handleLogout S e c (opened (hWorld h)) = (Inl (Status 204), w1)"
    by (rule requireUser_ok) (use assms(4) in auto)
  have ok: "db_ok (srvLib S) (wDB (hWorld h))"
    by (rule consistentD(1) [OF assms(1)])
  then have "distinct (map sID (sessions (wDB (opened (hWorld h)))))" by (simp add: db_ok_def)
  then have rev: "RevokeFamily (ctx e ''RevokeFamily'') (sFamilyID s) (wDB (hWorld h)) = (Inr (), wDB w1)"
    using handleLogout_ok [OF lo _ assms(5,8) _ assms(7)] assms(6) by simp
  have step: "audited_step S h (served S e h w1)" by (rule request_runs [OF assms(2,3)])
  have "sFamilyID s \<in> hIDs (served S e h w1)"
    using consistentD(3) [OF assms(1)] assms(6) by (auto simp: lineage_inv_def lineage_def issued_def)
  moreover have w1: "wDB w1 = revoke_where (\<lambda>k. sFamilyID k = sFamilyID s) (clk (ctx e ''RevokeFamily'') 0) (wDB (hWorld h))"
    using rev by (simp add: RevokeFamily_def split: if_splits)
  have "\<forall>k \<in> set (sessions (wDB (hWorld (served S e h w1)))). sFamilyID k = sFamilyID s \<longrightarrow> sRevokedAt k \<noteq> None"
    by (simp add: w1 sessions_revoke_where ball_update_where)
  ultimately have dead: "\<forall>k \<in> set (sessions (wDB (hWorld h2))). sFamilyID k = sFamilyID s \<longrightarrow> sRevokedAt k \<noteq> None"
    by (rule family_dies [OF assms(1) step _ _ assms(9)])
  have "db_ok (srvLib S) (wDB (hWorld h2))"
    by (rule consistentD(1) [OF audited.run_inv [OF audited.step_inv [OF assms(1) step] assms(9)]])
  then have unique: "j = k" if "j \<in> set (sessions (wDB (hWorld h2)))" "k \<in> set (sessions (wDB (hWorld h2)))" "sID j = sID k" for j k
    using that distinct_keyD [of sID] unfolding db_ok_def by blast
  show ?thesis
    using dead by (auto intro!: guard_refuses dest: unique)
qed

theorem logout_is_final_witness:
  "\<exists>w1. serve (Routes (demo_server JNull (Some demo_claims)) demo_env demo_request Logout)
      (fresh_response (on_world demo_db)) = (Status 204, w1) \<and>
    (\<forall>k \<in> set (sessions (wDB w1)). sFamilyID k = ''S1'' \<longrightarrow> sRevokedAt k \<noteq> None)"
proof -
  let ?S = "demo_server JNull (Some demo_claims)"
  obtain w1 where run: "serve (Routes ?S demo_env demo_request Logout) (fresh_response (hWorld demo_history)) =
      (Status 204, w1)"
    using demo_logout by auto
  have "\<forall>k \<in> set (sessions (wDB (hWorld (served ?S demo_env demo_history w1)))).
      sFamilyID k = sFamilyID first_session \<longrightarrow> sRevokedAt k \<noteq> None"
    by (rule logout_is_final [OF demo_consistent _ run _ _ _ _ _ rtranclp.rtrancl_refl, THEN conjunct1, of demo_token])
      (simp_all add: demo_unused demo_bearer demo_claims_verified demo_token_def demo_claims_def demo_defs)
  with run show ?thesis by (auto simp: first_session_def)
qed

text \<open>C8: a completed password reset ends every session the account had and is final: the token was
  issued for that account and for a reset; the account's families are dead in every later state; the
  token is never accepted again.\<close>

theorem reset_is_final:
  assumes "consistent S h" and "unused (srvLib S) e h"
    and "serve (Routes S e r PasswordReset) (fresh_response (hWorld h)) = (rep, w1)" and "\<not> error_reply rep"
    and "decode S r resetReq_fields \<lparr>reToken = [], reNewPassword = []\<rparr> (hWorld h) = (Inr q, hWorld h)"
    and "runs S (served S e h w1) h2"
    and "decode S r2 resetReq_fields \<lparr>reToken = [], reNewPassword = []\<rparr> (hWorld h2) = (Inr q2, hWorld h2)"
    and "reToken q2 = reToken q"
  shows "\<exists>row \<in> set (otp_codes (wDB (hWorld h))).
      oCodeHash row = hashCode (srvLib S) (reToken q) \<and> oPurpose row = PurposePasswordReset \<and> oConsumedAt row = None \<and>
      (\<forall>s \<in> set (sessions (wDB (hWorld h))). sUserID s = oIdentifier row \<longrightarrow>
         (\<forall>k \<in> set (sessions (wDB (hWorld h2))). sFamilyID k = sFamilyID s \<longrightarrow> sRevokedAt k \<noteq> None)) \<and>
      error_reply (fst (serve (Routes S e2 r2 PasswordReset) (fresh_response (hWorld h2))))"
proof -
  let ?H = "srvLib S" and ?z = "\<lparr>reToken = [], reNewPassword = []\<rparr>"
  have q: "q' = q" if "decode S r resetReq_fields ?z (opened (hWorld h)) = (Inr q', opened (hWorld h))" for q'
    using decode_world [OF that, of "hWorld h"] assms(5) by simp
  have run: "handlePasswordReset S e r (opened (hWorld h)) = (Inl rep, w1)"
    using assms(3) [unfolded serve_Routes] by (simp add: Routes_def)
  obtain rl u hash db1 db2 where ok:
    "ConsumeToken ?H (ctx e ''ConsumeToken'') PurposePasswordReset (reToken q) (wDB (hWorld h)\<lparr>rate_limits := rl\<rparr>) = (Inr u, db1)"
    "SetPasswordHash (ctx e ''SetPasswordHash'') u hash db1 = (Inr (), db2)"
    "RevokeAllForUser (ctx e ''RevokeAllForUser'') u db2 = (Inr (), wDB w1)"
    using run assms(4) by (rule handlePasswordReset_ok) (auto dest: q)
  have step: "audited_step S h (served S e h w1)" by (rule request_runs [OF assms(2,3)])
  obtain row where row: "row \<in> set (otp_codes (wDB (hWorld h)))" "oCodeHash row = hashCode ?H (reToken q)"
    "oPurpose row = PurposePasswordReset" "oConsumedAt row = None" "oIdentifier row = u"
    "sessions db1 = sessions (wDB (hWorld h))"
    using ok(1) by (cases rule: ConsumeToken_cases) auto
  have ss: "sessions db2 = sessions (wDB (hWorld h))"
    using ok(2) row(6) by (auto simp: SetPasswordHash_def split: if_splits)
  have w1: "wDB w1 = revoke_where (\<lambda>s. sUserID s = u \<and> sRevokedAt s = None) (clk (ctx e ''RevokeAllForUser'') 0) db2"
    using ok(3) by (simp add: RevokeAllForUser_def split: if_splits)
  have gone: "\<forall>k \<in> set (sessions (wDB w1)). sUserID k = u \<longrightarrow> sRevokedAt k \<noteq> None"
    by (simp add: w1 sessions_revoke_where ball_update_where)
  have lin: "lineage (hIDs h) (hTokens h) (sessions (wDB (hWorld h)))"
    using consistentD(3) [OF assms(1)] by (simp add: lineage_inv_def)
  have dead: "\<forall>k \<in> set (sessions (wDB (hWorld h2))). sFamilyID k = sFamilyID s \<longrightarrow> sRevokedAt k \<noteq> None"
    if s: "s \<in> set (sessions (wDB (hWorld h)))" "sUserID s = oIdentifier row" for s
  proof (rule family_dies [OF assms(1) step _ _ assms(6)])
    show "sFamilyID s \<in> hIDs (served S e h w1)" using lineageD(1) [OF lin s(1)] by (simp add: issued_def)
    show "\<forall>k \<in> set (sessions (wDB (hWorld (served S e h w1)))). sFamilyID k = sFamilyID s \<longrightarrow> sRevokedAt k \<noteq> None"
    proof (intro ballI impI)
      fix k assume k: "k \<in> set (sessions (wDB (hWorld (served S e h w1))))" "sFamilyID k = sFamilyID s"
      then obtain j where j: "j \<in> set (sessions (wDB (hWorld h)))" "sFamilyID k = sFamilyID j" "sUserID k = sUserID j"
        by (auto simp: w1 ss sessions_revoke_where mem_update_where split: if_splits)
      have "sUserID j = sUserID s"
        using kinD(1) [OF lineageD(2) [OF lin j(1) s(1)]] j(2) k(2) by simp
      then show "sRevokedAt k \<noteq> None" using gone k(1) j(3) s(2) row(5) by simp
    qed
  qed
  have "otp_codes (wDB w1) = otp_codes db1"
    using ok(2) by (auto simp: w1 SetPasswordHash_def revoke_where_def split: if_splits)
  note spent = reset_stays_spent [OF assms(1) step ok(1) this assms(6)]
  obtain rep2 w2 where s2: "serve (Routes S e2 r2 PasswordReset) (fresh_response (hWorld h2)) = (rep2, w2)" by force
  have "error_reply rep2"
  proof (rule ccontr)
    assume ne: "\<not> error_reply rep2"
    have run2: "handlePasswordReset S e2 r2 (opened (hWorld h2)) = (Inl rep2, w2)"
      using s2 [unfolded serve_Routes] by (simp add: Routes_def)
    obtain q' rl2 u2 db3 where d: "decode S r2 resetReq_fields ?z (opened (hWorld h2)) = (Inr q', opened (hWorld h2))"
      and two: "ConsumeToken ?H (ctx e2 ''ConsumeToken'') PurposePasswordReset (reToken q') (wDB (hWorld h2)\<lparr>rate_limits := rl2\<rparr>) = (Inr u2, db3)"
      using run2 ne by (rule handlePasswordReset_ok) auto
    have "q' = q2" using decode_world [OF d, of "hWorld h2"] assms(7) by simp
    with spent [of "ctx e2 ''ConsumeToken''" rl2] two assms(8) show False by auto
  qed
  then show ?thesis using row dead s2 by (intro bexI [OF _ row(1)]) auto
qed

theorem reset_is_final_witness:
  "\<exists>w1. serve (Routes (demo_server reset_body None) demo_env demo_request PasswordReset)
      (fresh_response (on_world demo_db)) = (Reply 200 (BoolMap [(''password_reset'', True)]), w1) \<and>
    (\<forall>k \<in> set (sessions (wDB w1)). sFamilyID k = ''S1'' \<longrightarrow> sRevokedAt k \<noteq> None) \<and>
    error_reply (fst (serve (Routes (demo_server reset_body None) demo_env demo_request PasswordReset) (fresh_response w1)))"
proof -
  let ?S = "demo_server reset_body None"
  obtain w1 where run: "serve (Routes ?S demo_env demo_request PasswordReset) (fresh_response (hWorld demo_history)) =
      (Reply 200 (BoolMap [(''password_reset'', True)]), w1)"
    using demo_reset_done by auto
  have m: "first_session \<in> set (sessions (wDB (hWorld demo_history)))" by (simp add: demo_defs)
  show ?thesis
    using reset_is_final [OF demo_consistent _ run _ decode_reset rtranclp.rtrancl_refl decode_reset refl, of demo_env]
      run m by (auto simp: demo_unused demo_defs)
qed

text \<open>C7: a callback sends the browser to a redirect registered for the client that started the flow,
  whatever the provider and the query say, or refuses; and the state it consumed is never accepted
  again.\<close>

theorem callback_goes_where_registered:
  assumes "consistent S h" and "unused (srvLib S) e h"
    and "serve (Routes S e r OAuthCallback) (fresh_response (hWorld h)) = (rep, w1)" and "\<not> error_reply rep"
    and "runs S (served S e h w1) h2" and "rqQuery r2 ''state'' = rqQuery r ''state''"
  shows "(\<exists>f \<in> set (oauth_flows (wDB (hWorld h))). \<exists>c \<in> set (app_clients (wDB (hWorld h))). \<exists>qs.
      fStateHash f = hashCode (srvLib S) (rqQuery r ''state'') \<and> fConsumedAt f = None \<and> cID c = fClientID f \<and>
      fRedirectURI f \<in> set (cRedirectURIs c) \<and> rep = Found (appendQuery S (fRedirectURI f) qs)) \<and>
    error_reply (fst (serve (Routes S e2 r2 OAuthCallback) (fresh_response (hWorld h2))))"
proof -
  let ?H = "srvLib S" and ?st = "rqQuery r ''state''"
  have run: "handleOAuthCallback S e r (opened (hWorld h)) = (Inl rep, w1)"
    using assms(3) [unfolded serve_Routes] by (simp add: Routes_def)
  obtain fl db1 qs where ok: "ConsumeOAuthFlow ?H (ctx e ''ConsumeOAuthFlow'') ?st (wDB (hWorld h)) = (Inr fl, db1)"
    "oauth_flows (wDB w1) = oauth_flows db1" "rep = Found (appendQuery S (flRedirectURI fl) qs)"
    using run assms(4) by (rule handleOAuthCallback_ok) simp
  obtain f where f: "f \<in> set (oauth_flows (wDB (hWorld h)))" "fStateHash f = hashCode ?H ?st" "fConsumedAt f = None"
    "flRedirectURI fl = fRedirectURI f"
    using ok(1) by (cases rule: ConsumeOAuthFlow_cases) auto
  then obtain c where c: "c \<in> set (app_clients (wDB (hWorld h)))" "cID c = fClientID f"
    "fRedirectURI f \<in> set (cRedirectURIs c)"
    using consistentD(2) [OF assms(1)] by (auto simp: redirects_ok_def registered_def)
  have step: "audited_step S h (served S e h w1)" by (rule request_runs [OF assms(2,3)])
  note spent = state_stays_spent [OF assms(1) step ok(1,2) assms(5)]
  obtain rep2 w2 where s2: "serve (Routes S e2 r2 OAuthCallback) (fresh_response (hWorld h2)) = (rep2, w2)" by force
  have "error_reply rep2"
  proof (rule ccontr)
    assume ne: "\<not> error_reply rep2"
    have run2: "handleOAuthCallback S e2 r2 (opened (hWorld h2)) = (Inl rep2, w2)"
      using s2 [unfolded serve_Routes] by (simp add: Routes_def)
    obtain fl2 db2 where "ConsumeOAuthFlow ?H (ctx e2 ''ConsumeOAuthFlow'') ?st (wDB (hWorld h2)) = (Inr fl2, db2)"
      using run2 ne by (rule handleOAuthCallback_ok) (simp add: assms(6))
    with spent [of "ctx e2 ''ConsumeOAuthFlow''"] show False by auto
  qed
  then show ?thesis
    using f c ok(3) s2 by (intro conjI bexI [OF _ f(1)] bexI [OF _ c(1)] exI [of _ qs]) simp_all
qed

theorem callback_goes_where_registered_witness:
  "\<exists>rep w1. serve (Routes (demo_server JNull None) demo_env callback_request OAuthCallback)
      (fresh_response (on_world demo_db)) = (rep, w1) \<and> \<not> error_reply rep \<and>
    error_reply (fst (serve (Routes (demo_server JNull None) demo_env callback_request OAuthCallback) (fresh_response w1)))"
proof -
  let ?S = "demo_server JNull None"
  obtain url w1 where run: "serve (Routes ?S demo_env callback_request OAuthCallback)
      (fresh_response (hWorld demo_history)) = (Found url, w1)"
    using demo_callback by auto
  have "error_reply (fst (serve (Routes ?S demo_env callback_request OAuthCallback)
      (fresh_response (hWorld (served ?S demo_env demo_history w1)))))"
    by (rule callback_goes_where_registered [OF demo_consistent _ run _ rtranclp.rtrancl_refl refl, THEN conjunct2])
      (simp_all add: demo_unused)
  with run show ?thesis by auto
qed

text \<open>C12: every guarded endpoint works only for a bearer token that verifies and whose session, if it
  names one, is recorded and not revoked.\<close>

theorem guard_admits_live_sessions:
  assumes "ep \<in> set guarded" and "serve (Routes S e r ep) (fresh_response w) = (rep, w')" and "\<not> error_reply rep"
  shows "\<exists>aud c. PeekAudience (srvJwx S) (bearer r) = Some aud \<and>
    VerifyAccess (srvJwx S) (srvSigner S) (clk (ctx e ''VerifyAccess'') 0) (bearer r) aud = Some c \<and>
    (clSessionID c = [] \<or> (\<exists>s \<in> set (sessions (wDB w)). sID s = clSessionID c \<and> sRevokedAt s = None))"
proof -
  obtain nxt where n: "Routes S e r ep = requireUser S e r nxt" using guarded_Routes [OF assms(1)] by blast
  have "requireUser S e r nxt (opened w) = (Inl rep, w')" using assms(2) [unfolded serve_Routes] by (simp add: n)
  then obtain c where c: "verifyAnyAudience S (clk (ctx e ''VerifyAccess'') 0) (bearer r) = Some c"
    "clSessionID c \<noteq> [] \<Longrightarrow> \<exists>s \<in> set (sessions (wDB w)). sID s = clSessionID c \<and> sRevokedAt s = None"
    using assms(3) by (rule requireUser_ok) auto
  then show ?thesis by (auto simp: verifyAnyAudience_def split: option.splits)
qed

theorem guard_admits_live_sessions_witness:
  "\<exists>w1. serve (Routes (demo_server JNull (Some demo_claims)) demo_env demo_request Logout)
      (fresh_response (on_world demo_db)) = (Status 204, w1) \<and>
    PeekAudience (easy_jwx (Some demo_claims)) ''t'' = Some ''app''"
proof -
  obtain w1 where run: "serve (Routes (demo_server JNull (Some demo_claims)) demo_env demo_request Logout)
      (fresh_response (on_world demo_db)) = (Status 204, w1)"
    using demo_logout by blast
  have "\<exists>aud. PeekAudience (easy_jwx (Some demo_claims)) ''t'' = Some aud"
    using guard_admits_live_sessions [OF _ run] by (auto simp: guarded_def demo_bearer)
  with run show ?thesis by (simp add: PeekAudience_def easy_jwx_def access_jwt_def Let_def demo_claims_def)
qed

text \<open>C14: a password login answers with tokens only for an account of that address that has a password,
  is not disabled, and whose stored hash accepts the password sent; the session is that account's,
  at the client named, and nothing but the session and the counters changes.\<close>

theorem login_needs_password:
  assumes "serve (Routes S e r Login) (fresh_response w) = (Reply 200 (Tokens t), w1)"
    and "decode S r registerReq_fields zero_registerReq w = (Inr q, w)"
  shows "\<exists>u \<in> set (users (wDB w)). \<exists>hash s rl.
    citext (srvLib S) (uEmail u) = citext (srvLib S) (normalizeEmail (srvLib S) (rrEmail q)) \<and>
    uPasswordHash u = Some hash \<and> Verify (srvLib S) hash (rrPassword q) = Inr True \<and> uDisabledAt u = None \<and>
    sUserID s = uID u \<and> sClientID s = rrClientID q \<and> sTokenHash s = HashRefresh (srvLib S) (trRefreshToken t) \<and>
    wDB w1 = wDB w\<lparr>rate_limits := rl, sessions := sessions (wDB w) @ [s]\<rparr>"
proof -
  let ?H = "srvLib S"
  note q = decode_world [OF assms(2), of "opened w"]
  have run: "handleLogin S e r (opened w) = (Inl (Reply 200 (Tokens t)), w1)"
    using assms(1) [unfolded serve_Routes] by (simp add: Routes_def)
  obtain q' rl c u hash iss t' where d: "decode S r registerReq_fields zero_registerReq (opened w) = (Inr q', opened w)"
    and ok': "c \<in> set (app_clients (wDB (opened w)))" "cID c = rrClientID q'"
    "UserByEmail ?H (ctx e ''UserByEmail'') (normalizeEmail ?H (rrEmail q')) (wDB (opened w)) = Inr u"
    "uPasswordHash u = Some hash" "Verify ?H hash (rrPassword q') = Inr True" "uDisabledAt u = None"
    "CreateSession ?H (ctx e ''CreateSession'') (uID u) (cID c) (session_meta r) (wDB (opened w)\<lparr>rate_limits := rl\<rparr>) =
      (Inr iss, wDB w1)"
    "SignAccess (srvJwx S) (srvSigner S) (ctx e ''SignAccess'') (access_claims u (cAudience c) (isSession iss)) =
      Inr (trAccessToken t')"
    "Reply 200 (Tokens t) = Reply 200 (Tokens t')" "trRefreshToken t' = RefreshToken iss"
    using run by (rule handleLogin_ok) (simp, rule that)
  have "q' = q" using d q by simp
  then have ok: "cID c = rrClientID q"
    "UserByEmail ?H (ctx e ''UserByEmail'') (normalizeEmail ?H (rrEmail q)) (wDB w) = Inr u"
    "uPasswordHash u = Some hash" "Verify ?H hash (rrPassword q) = Inr True" "uDisabledAt u = None"
    "CreateSession ?H (ctx e ''CreateSession'') (uID u) (cID c) (session_meta r) (wDB w\<lparr>rate_limits := rl\<rparr>) = (Inr iss, wDB w1)"
    "trRefreshToken t = RefreshToken iss"
    using ok' by simp_all
  note s = insertSession_Inr [OF ok(6) [unfolded CreateSession_def Let_def]]
  have u: "u \<in> set (users (wDB w))" "citext ?H (uEmail u) = citext ?H (normalizeEmail ?H (rrEmail q))"
    using UserByEmail_Inr [OF ok(2)] by simp_all
  show ?thesis
    by (intro bexI [OF _ u(1)] exI [of _ hash] exI [of _ "isSession iss"] exI [of _ rl])
      (use u(2) ok(1,3-5,7) s(4) in \<open>simp add: s(2)\<close>)
qed

theorem login_needs_password_witness:
  "\<exists>t w1. serve (Routes (demo_server login_body None) demo_env demo_request Login)
      (fresh_response (on_world demo_db)) = (Reply 200 (Tokens t), w1) \<and>
    (\<exists>s. sessions (wDB w1) = sessions demo_db @ [s] \<and> sUserID s = ''A'' \<and> sClientID s = ''app'')"
proof -
  obtain t w1 where run: "serve (Routes (demo_server login_body None) demo_env demo_request Login)
      (fresh_response (on_world demo_db)) = (Reply 200 (Tokens t), w1)"
    using demo_logged_in by blast
  show ?thesis
    using login_needs_password [OF run decode_login] run
    by (auto simp: demo_login_def demo_db_def demo_user_def)
qed

text \<open>C15: a login by code answers with tokens only when the code is the outstanding one of that client
  and address, unspent, unexpired and with guesses left; the account it signs in to has that
  address, is not disabled, and is marked verified.\<close>

theorem code_login_needs_code:
  assumes "serve (Routes S e r OTPVerify) (fresh_response w) = (Reply 200 (Tokens t), w1)"
    and "decode S r otpVerifyReq_fields zero_otpReq w = (Inr q, w)" and "db_ok (srvLib S) (wDB w)"
  shows "\<exists>row \<in> set (otp_codes (wDB w)). \<exists>u \<in> set (users (wDB w1)). \<exists>s \<in> set (sessions (wDB w1)).
    oIdentifier row = otpIdentifier (oqClientID q) (normalizeEmail (srvLib S) (oqEmail q)) \<and>
    oPurpose row = PurposeLoginOTP \<and> oCodeHash row = hashCode (srvLib S) (oqCode q) \<and> oConsumedAt row = None \<and>
    oAttempts row < MaxOTPAttempts \<and> clk (ctx e ''ConsumeCode'') 0 \<le> oExpiresAt row \<and>
    citext (srvLib S) (uEmail u) = citext (srvLib S) (normalizeEmail (srvLib S) (oqEmail q)) \<and>
    EmailVerified u \<and> uDisabledAt u = None \<and> sUserID s = uID u \<and> sClientID s = oqClientID q \<and>
    sTokenHash s = HashRefresh (srvLib S) (trRefreshToken t)"
proof -
  let ?H = "srvLib S" and ?em = "normalizeEmail (srvLib S) (oqEmail q)"
  note q = decode_world [OF assms(2), of "opened w"]
  have run: "handleOTPVerify S e r (opened w) = (Inl (Reply 200 (Tokens t)), w1)"
    using assms(1) [unfolded serve_Routes] by (simp add: Routes_def)
  obtain q' rl c db1 db2 u iss t' where d: "decode S r otpVerifyReq_fields zero_otpReq (opened w) = (Inr q', opened w)"
    and ok': "c \<in> set (app_clients (wDB (opened w)))" "cID c = oqClientID q'"
    "ConsumeCode ?H (ctx e ''ConsumeCode'') (clk (ctx e ''ConsumeCode now'') 0)
       (otpIdentifier (cID c) (normalizeEmail ?H (oqEmail q')))
       PurposeLoginOTP (oqCode q') (wDB (opened w)\<lparr>rate_limits := rl\<rparr>) = (Inr (), db1)"
    "\<exists>us. db2 = db1\<lparr>users := us\<rparr>" "u \<in> set (users db2)" "EmailVerified u" "uDisabledAt u = None"
    "citext ?H (uEmail u) = citext ?H (normalizeEmail ?H (oqEmail q'))"
    "CreateSession ?H (ctx e ''CreateSession'') (uID u) (cID c) (session_meta r) db2 = (Inr iss, wDB w1)"
    "SignAccess (srvJwx S) (srvSigner S) (ctx e ''SignAccess'') (access_claims u (cAudience c) (isSession iss)) =
      Inr (trAccessToken t')"
    "Reply 200 (Tokens t) = Reply 200 (Tokens t')" "trRefreshToken t' = RefreshToken iss"
    "\<forall>y \<in> set (users (wDB (opened w))). citext ?H (uEmail y) = citext ?H (normalizeEmail ?H (oqEmail q')) \<longrightarrow>
       uID y = uID u \<and> uPasswordHash y = uPasswordHash u"
    using run by (rule handleOTPVerify_ok) (simp, simp add: assms(3), rule that)
  have "q' = q" using d q by simp
  then have ok: "cID c = oqClientID q"
    "ConsumeCode ?H (ctx e ''ConsumeCode'') (clk (ctx e ''ConsumeCode now'') 0) (otpIdentifier (cID c) ?em)
       PurposeLoginOTP (oqCode q) (wDB w\<lparr>rate_limits := rl\<rparr>) = (Inr (), db1)"
    "u \<in> set (users db2)" "EmailVerified u" "uDisabledAt u = None" "citext ?H (uEmail u) = citext ?H ?em"
    "CreateSession ?H (ctx e ''CreateSession'') (uID u) (cID c) (session_meta r) db2 = (Inr iss, wDB w1)"
    "trRefreshToken t = RefreshToken iss"
    using ok' by simp_all
  note s = insertSession_Inr [OF ok(7) [unfolded CreateSession_def Let_def]]
  obtain row where row: "newest (filter (outstanding (otpIdentifier (cID c) ?em) PurposeLoginOTP) (otp_codes (wDB w))) = Some row"
    "oCodeHash row = hashCode ?H (oqCode q)" "oAttempts row < MaxOTPAttempts"
    "clk (ctx e ''ConsumeCode'') 0 \<le> oExpiresAt row"
    using ok(2) by (cases rule: ConsumeCode_cases) auto
  then have r: "row \<in> set (otp_codes (wDB w))" "outstanding (otpIdentifier (cID c) ?em) PurposeLoginOTP row"
    using newest_mem [OF row(1)] by simp_all
  have m: "isSession iss \<in> set (sessions (wDB w1))" "u \<in> set (users (wDB w1))" using ok(3) by (simp_all add: s(4))
  show ?thesis
    by (intro bexI [OF _ r(1)] bexI [OF _ m(2)] bexI [OF _ m(1)])
      (use row(2-4) r(2) ok(1,4-6,8) in \<open>simp add: s(2) outstanding_def\<close>)
qed

theorem code_login_needs_code_witness:
  "\<exists>t w1. serve (Routes (demo_server otp_body None) demo_env demo_request OTPVerify)
      (fresh_response (on_world otp_db)) = (Reply 200 (Tokens t), w1) \<and>
    (\<exists>s \<in> set (sessions (wDB w1)). sClientID s = ''app'' \<and> sTokenHash s = HashRefresh plain (trRefreshToken t))"
proof -
  obtain t w1 where run: "serve (Routes (demo_server otp_body None) demo_env demo_request OTPVerify)
      (fresh_response (on_world otp_db)) = (Reply 200 (Tokens t), w1)"
    using demo_code_login by blast
  show ?thesis
    using code_login_needs_code [OF run decode_otp] run otp_db_ok
    by (auto simp: demo_otp_def)
qed

end
