(* ===== verification/Privacy.thy ===== *)
theory Privacy
  imports Example
begin

text \<open>
  What a reply depends on. \<open>observer\<close> is an equivalence of worlds that differ only in what a step
  is not meant to see; a step is blind to the difference when it answers the same in equivalent
  worlds and leaves equivalent worlds. It is interpreted on the worlds that differ in their
  accounts, for the reset mail, and on the worlds that differ in who is disabled, for the guard.
\<close>

section \<open>Steps that do not see a difference\<close>

named_theorems blindness \<open>steps that do not see the difference\<close>

locale observer =
  fixes alike :: "world \<Rightarrow> world \<Rightarrow> bool"
  assumes header: "alike v w \<Longrightarrow> alike (v\<lparr>wHeader := f (wHeader v)\<rparr>) (w\<lparr>wHeader := f (wHeader w)\<rparr>)"
begin

definition blind :: "'a handler \<Rightarrow> bool" where
  "blind m \<longleftrightarrow> (\<forall>v w. alike v w \<longrightarrow> fst (m v) = fst (m w) \<and> alike (snd (m v)) (snd (m w)))"

lemma blindI: "(\<And>v w. alike v w \<Longrightarrow> fst (m v) = fst (m w) \<and> alike (snd (m v)) (snd (m w))) \<Longrightarrow> blind m"
  by (simp add: blind_def)

lemma blindD: "blind m \<Longrightarrow> alike v w \<Longrightarrow> fst (m v) = fst (m w) \<and> alike (snd (m v)) (snd (m w))"
  by (simp add: blind_def)

lemma blind_stop [blindness]: "blind (stop r)" "blind (give a)" "blind (writeErr st c m)" "blind (writeJSON st p)"
  "blind internal"
  by (simp_all add: blind_def writeErr_def writeJSON_def internal_def)

lemma blind_seq [blindness]:
  assumes m: "blind m" and f: "\<And>a. blind (f a)"
  shows "blind (seq m f)"
proof (rule blindI)
  fix v w assume "alike v w"
  note one = blindD [OF m this]
  obtain p v' where v': "m v = (p, v')" by force
  then obtain w' where w': "m w = (p, w')" "alike v' w'" using one by (metis fst_conv prod.collapse snd_conv)
  show "fst (seq m f v) = fst (seq m f w) \<and> alike (snd (seq m f v)) (snd (seq m f w))"
    using v' w' blindD [OF f w'(2)] by (cases p) (simp_all add: seq_def)
qed

lemma blind_branches [blindness]:
  "blind m \<Longrightarrow> blind n \<Longrightarrow> blind (if b then m else n)"
  "blind m \<Longrightarrow> (\<And>a. blind (f a)) \<Longrightarrow> blind (case v of None \<Rightarrow> m | Some a \<Rightarrow> f a)"
  "(\<And>e. blind (g e)) \<Longrightarrow> (\<And>a. blind (h a)) \<Longrightarrow> blind (case s of Inl e \<Rightarrow> g e | Inr a \<Rightarrow> h a)"
  "blind (k u) \<Longrightarrow> blind (Let u k)"
  "blind m \<Longrightarrow> blind n \<Longrightarrow> (\<And>x y. blind (l x y)) \<Longrightarrow>
   blind (case j of JEnd \<Rightarrow> m | JBad \<Rightarrow> n | JValue x y \<Rightarrow> l x y)"
  by (simp_all split: option.split sum.split json_next.split)

lemma blind_header [blindness]: "blind (set_header k v)"
proof (rule blindI)
  fix v' w assume "alike v' w"
  from header [OF this, of "\<lambda>h. (k, v) # filter (\<lambda>p. fst p \<noteq> k) h"]
  show "fst (set_header k v v') = fst (set_header k v w) \<and> alike (snd (set_header k v v')) (snd (set_header k v w))"
    by (simp add: set_header_def)
qed

lemma blind_decode [blindness]: "blind (decode S r fs z)"
  unfolding decode_def by (rule blindness blind_stop blind_branches)+

text \<open>A read that gives the same in both worlds.\<close>

lemma blind_read: "(\<And>v w. alike v w \<Longrightarrow> q (wDB v) = q (wDB w)) \<Longrightarrow> blind (read_db q)"
  unfolding blind_def read_db_def by (metis fst_conv snd_conv)

text \<open>A blind endpoint replies the same.\<close>

lemma blind_reply:
  assumes "blind h" and "alike v w"
  shows "fst (serve h v) = fst (serve h w) \<and> alike (snd (serve h v)) (snd (serve h w))"
proof -
  have "blind (seq securityHeaders (\<lambda>_. h))"
    unfolding securityHeaders_def using assms(1) by (intro blind_seq blind_header)
  note one = blindD [OF this assms(2)]
  obtain p v' where v': "seq securityHeaders (\<lambda>_. h) v = (p, v')" by force
  then obtain w' where "seq securityHeaders (\<lambda>_. h) w = (p, w')" "alike v' w'"
    using one by (metis fst_conv prod.collapse snd_conv)
  with v' show ?thesis by (cases p) (simp_all add: serve_def)
qed

end

section \<open>Accounts\<close>

text \<open>Worlds with the same rate counters and the same response so far.\<close>

definition same_counters :: "world \<Rightarrow> world \<Rightarrow> bool" where
  "same_counters v w \<longleftrightarrow>
     rate_limits (wDB v) = rate_limits (wDB w) \<and> wCookies v = wCookies w \<and> wHeader v = wHeader w"

interpretation counters: observer same_counters
  by unfold_locales (simp add: same_counters_def)

lemma Allow_blind:
  "rate_limits d = rate_limits db \<Longrightarrow> fst (Allow x b n win d) = fst (Allow x b n win db) \<and>
   rate_limits (snd (Allow x b n win d)) = rate_limits (snd (Allow x b n win db))"
  by (simp add: Allow_def Let_def split: option.split)

lemma blind_limit [blindness]: "counters.blind (limit e site b n win)"
proof -
  have "counters.blind (run_db (Allow (ctx e site) b n win))"
    unfolding counters.blind_def run_db_def zoom_def same_counters_def
    using Allow_blind by (auto split: prod.split) (metis fst_conv snd_conv)+
  note run = this
  show ?thesis unfolding limit_def by (rule run blindness)+
qed

text \<open>A step that always goes on the same way and leaves counters and response alone.\<close>

lemma blind_silent:
  assumes "\<And>w. fst (m w) = Inr a \<and> rate_limits (wDB (snd (m w))) = rate_limits (wDB w) \<and>
    wCookies (snd (m w)) = wCookies w \<and> wHeader (snd (m w)) = wHeader w"
  shows "counters.blind m"
  using assms by (simp add: counters.blind_def same_counters_def)

lemma rates_IssueCode: "IssueCode H x i p code ttl db = (q, db') \<Longrightarrow> rate_limits db' = rate_limits db"
  by (auto elim: IssueCode_cases)

lemma blind_send_reset [blindness]: "counters.blind (send_reset S e email)"
  by (rule blind_silent [of _ "()"])
    (auto simp: send_reset_def seq_def read_db_def run_db_def zoom_def send_mail_def
      split: sum.split prod.split dest: rates_IssueCode)

text \<open>C13: \<open>POST /v1/password/forgot\<close> does not reveal whether an address is registered: its reply, cookies
  and headers are the same in any two worlds with the same rate counters, whatever accounts they
  hold and whether the mail goes out or not.\<close>

theorem forgot_hides_accounts:
  assumes "rate_limits (wDB v) = rate_limits (wDB w)"
    and "serve (Routes S e r PasswordForgot) (fresh_response v) = (rep, v')"
    and "serve (Routes S e r PasswordForgot) (fresh_response w) = (rep', w')"
  shows "rep = rep' \<and> wCookies v' = wCookies w' \<and> wHeader v' = wHeader w'"
proof -
  have "counters.blind (Routes S e r PasswordForgot)"
    unfolding Routes_def by (simp add: handlePasswordForgot_def) (rule blindness)+
  moreover have "same_counters (fresh_response v) (fresh_response w)"
    using assms(1) by (simp add: same_counters_def fresh_response_def)
  ultimately show ?thesis
    using counters.blind_reply [of "Routes S e r PasswordForgot" "fresh_response v" "fresh_response w"] assms(2,3)
    by (simp add: same_counters_def)
qed

text \<open>A body naming Ann's address; in the second world no such account exists.\<close>

theorem forgot_hides_accounts_witness:
  "fst (serve (Routes (demo_server (JObj [(''email'', JStr ''ann@x.io'')]) None) demo_env demo_request PasswordForgot)
      (fresh_response (on_world demo_db))) =
   fst (serve (Routes (demo_server (JObj [(''email'', JStr ''ann@x.io'')]) None) demo_env demo_request PasswordForgot)
      (fresh_response (on_world (demo_db\<lparr>users := [], sessions := [], auth_codes := []\<rparr>)))) \<and>
   users demo_db \<noteq> []"
proof -
  have "rate_limits (wDB (on_world demo_db)) =
      rate_limits (wDB (on_world (demo_db\<lparr>users := [], sessions := [], auth_codes := []\<rparr>)))"
    by simp
  from forgot_hides_accounts [OF this prod.collapse [symmetric] prod.collapse [symmetric]]
  show ?thesis by (simp add: demo_db_def)
qed

section \<open>Disabled accounts\<close>

text \<open>Any marking of accounts as disabled.\<close>

definition mark_disabled :: "(User \<Rightarrow> instant option) \<Rightarrow> DB \<Rightarrow> DB" where
  "mark_disabled d db = db\<lparr>users := map (\<lambda>u. u\<lparr>uDisabledAt := d u\<rparr>) (users db)\<rparr>"

definition but_disabled :: "(User \<Rightarrow> instant option) \<Rightarrow> world \<Rightarrow> world \<Rightarrow> bool" where
  "but_disabled d v w \<longleftrightarrow> v = w\<lparr>wDB := mark_disabled d (wDB w)\<rparr>"

interpretation disabling: observer "but_disabled d" for d
  by unfold_locales (simp add: but_disabled_def)

lemma find_map: "find P (map f xs) = map_option f (find (\<lambda>x. P (f x)) xs)"
  by (induction xs) auto

lemma UserByID_marked:
  "UserByID x i (mark_disabled d db) =
     (case UserByID x i db of Inl e \<Rightarrow> Inl e | Inr u \<Rightarrow> Inr (u\<lparr>uDisabledAt := d u\<rparr>))"
  by (simp add: UserByID_def scanUser_def select_one_def mark_disabled_def find_map norows_def split: option.split)

lemma blind_Me: "disabling.blind d (handleMe e c)"
  unfolding disabling.blind_def but_disabled_def
  by (auto simp: handleMe_def seq_def read_db_def UserByID_marked userJSON_def EmailVerified_def writeJSON_def
      writeErr_def internal_def split: sum.split)

lemma blind_SessionByID: "disabling.blind d (read_db (SessionByID x i))"
  by (rule disabling.blind_read) (simp add: but_disabled_def mark_disabled_def SessionByID_def)

text \<open>C24: the guard does not look at \<open>disabled_at\<close>: whoever is marked as disabled, \<open>GET /v1/me\<close> answers
  every bearer token as it did before, so that disabling an account does not by itself end access
  to the service's own endpoints.\<close>

theorem disabling_is_not_seen:
  "fst (serve (Routes S e r Me) (fresh_response (w\<lparr>wDB := mark_disabled d (wDB w)\<rparr>))) =
   fst (serve (Routes S e r Me) (fresh_response w))"
proof -
  have "disabling.blind d (Routes S e r Me)"
    unfolding Routes_def by (simp add: requireUser_def) (rule blindness blind_SessionByID blind_Me)+
  moreover have "but_disabled d (fresh_response (w\<lparr>wDB := mark_disabled d (wDB w)\<rparr>)) (fresh_response w)"
    by (simp add: but_disabled_def fresh_response_def)
  ultimately show ?thesis by (rule disabling.blind_reply [THEN conjunct1])
qed

end
