(* ===== verification/Divergences.thy ===== *)
theory Divergences
  imports Privacy
begin

text \<open>
  Where the service does not do all that its documents or its purpose ask: a code login on an account
  whose password somebody else set, and a logout that could not read its session. That the guard
  does not see disabled accounts is in \<open>Privacy\<close>.
\<close>

text \<open>C25: a login by code marks the account of the address as verified and leaves its password as it is:
  whoever registered the address before, without ever verifying it, keeps a password that the
  account now accepts, on an account that is verified from then on.\<close>

theorem code_login_keeps_password:
  assumes "serve (Routes S e r OTPVerify) (fresh_response w) = (Reply 200 (Tokens t), w1)"
    and "decode S r otpVerifyReq_fields zero_otpReq w = (Inr q, w)" and "db_ok (srvLib S) (wDB w)"
    and "v \<in> set (users (wDB w))"
    and "citext (srvLib S) (uEmail v) = citext (srvLib S) (normalizeEmail (srvLib S) (oqEmail q))"
  shows "\<exists>u \<in> set (users (wDB w1)). uID u = uID v \<and> uPasswordHash u = uPasswordHash v \<and> EmailVerified u"
proof -
  let ?H = "srvLib S"
  note q = decode_world [OF assms(2), of "opened w"]
  have run: "handleOTPVerify S e r (opened w) = (Inl (Reply 200 (Tokens t)), w1)"
    using assms(1) [unfolded serve_Routes] by (simp add: Routes_def)
  obtain q' u db2 iss and c :: Client where d: "decode S r otpVerifyReq_fields zero_otpReq (opened w) = (Inr q', opened w)"
    and ok: "u \<in> set (users db2)" "EmailVerified u"
      "CreateSession ?H (ctx e ''CreateSession'') (uID u) (cID c) (session_meta r) db2 = (Inr iss, wDB w1)"
      "\<forall>y \<in> set (users (wDB (opened w))). citext ?H (uEmail y) = citext ?H (normalizeEmail ?H (oqEmail q')) \<longrightarrow>
         uID y = uID u \<and> uPasswordHash y = uPasswordHash u"
    using run by (rule handleOTPVerify_ok) (simp, simp add: assms(3), rule that, assumption+)
  have "q' = q" using d q by simp
  with ok(4) assms(4,5) have "uID u = uID v \<and> uPasswordHash u = uPasswordHash v" by simp
  moreover have "u \<in> set (users (wDB w1))"
    using ok(1) insertSession_Inr(4) [OF ok(3) [unfolded CreateSession_def Let_def]] by simp
  ultimately show ?thesis using ok(2) by blast
qed

text \<open>Somebody registered Ann's address with a password of their own and never verified it.\<close>

definition squatted :: User where
  "squatted = demo_user\<lparr>uEmailVerifiedAt := None\<rparr>"

lemma squatted_ok: "db_ok plain (otp_db\<lparr>users := [squatted]\<rparr>)"
  by (simp add: db_ok_def otp_db_def squatted_def demo_defs user_exists_def client_exists_def)

theorem code_login_keeps_password_witness:
  "\<exists>t w1. serve (Routes (demo_server otp_body None) demo_env demo_request OTPVerify)
      (fresh_response (on_world (otp_db\<lparr>users := [squatted]\<rparr>))) = (Reply 200 (Tokens t), w1) \<and>
    (\<exists>u \<in> set (users (wDB w1)). EmailVerified u \<and> uPasswordHash u = Some (hashed ''correct horse''))"
proof -
  obtain t w1 where run: "serve (Routes (demo_server otp_body None) demo_env demo_request OTPVerify)
      (fresh_response (on_world (otp_db\<lparr>users := [squatted]\<rparr>))) = (Reply 200 (Tokens t), w1)"
    unfolding serve_Routes
    by (simp add: Routes_def handleOTPVerify_def seq_def decode_otp demo_otp_def normalize_plain demo_limit
        demo_clientIP lookupClient_def read_db_def ClientByID_def otp_db_def demo_db_def demo_client_def ConsumeCode_def
        otpIdentifier_def issued_row_def outstanding_def hashCode_def MaxOTPAttempts_def OTPTTL_def
        otp_user_def EmailVerified_def squatted_def MarkEmailVerified_def UserByID_def coalesce_def
        UserByEmail_def scanUser_def demo_user_def run_db_def zoom_def issue_examples)
  have "\<exists>u \<in> set (users (wDB w1)). uID u = uID squatted \<and> uPasswordHash u = uPasswordHash squatted \<and> EmailVerified u"
    by (rule code_login_keeps_password [OF run decode_otp]) (simp_all add: squatted_ok,
      simp add: demo_otp_def normalize_plain squatted_def demo_user_def)
  with run show ?thesis by (auto simp: squatted_def demo_user_def)
qed

text \<open>C32: a logout that cannot read the session of its token, for any error of the database, answers as
  a logout that succeeded and revokes nothing.\<close>

theorem failed_logout_looks_done:
  assumes "verifyAnyAudience S (clk (ctx e ''VerifyAccess'') 0) (bearer r) = Some c" and "bearer r \<noteq> []"
    and "s \<in> set (sessions (wDB w))" and "sID s = clSessionID c" and "sRevokedAt s = None"
    and "distinct (map sID (sessions (wDB w)))"
    and "\<not> flt (ctx e ''SessionByID guard'') 0" and "flt (ctx e ''SessionByID'') 0" and "clSessionID c \<noteq> []"
  shows "\<exists>w1. serve (Routes S e r Logout) (fresh_response w) = (Status 204, w1) \<and> wDB w1 = wDB w"
proof -
  have "SessionByID (ctx e ''SessionByID guard'') (clSessionID c) (wDB w) = Inr s"
    using select_one_unique [OF assms(6,3)] assms(4,7) by (simp add: SessionByID_def norows_def)
  moreover have "SessionByID (ctx e ''SessionByID'') (clSessionID c) db = Inl ErrDB" for db
    using assms(8) by (simp add: SessionByID_def norows_def)
  ultimately show ?thesis
    unfolding serve_Routes using assms(1,2,5,9)
    by (simp add: Routes_def requireUser_def handleLogout_def end_session_def clearRefreshCookie_def set_cookie_def
        seq_def read_db_def)
qed

text \<open>The database fails on the second look at the session only.\<close>

definition flaky_env :: env where
  "flaky_env = demo_env\<lparr>ctx := (\<lambda>site. if site = ''SessionByID'' then (calm 20 ''N'' CHR ''n'')\<lparr>flt := (\<lambda>_. True)\<rparr>
     else calm 20 ''N'' CHR ''n'')\<rparr>"

theorem failed_logout_looks_done_witness:
  "\<exists>w1. serve (Routes (demo_server JNull (Some demo_claims)) flaky_env demo_request Logout)
      (fresh_response (on_world demo_db)) = (Status 204, w1) \<and> sRevokedAt (hd (sessions (wDB w1))) = None"
proof -
  have "\<exists>w1. serve (Routes (demo_server JNull (Some demo_claims)) flaky_env demo_request Logout)
      (fresh_response (on_world demo_db)) = (Status 204, w1) \<and> wDB w1 = wDB (on_world demo_db)"
    by (rule failed_logout_looks_done [of _ _ _ demo_token first_session])
      (simp_all add: demo_bearer demo_claims_verified demo_token_def flaky_env_def demo_claims_def demo_defs)
  then show ?thesis by (auto simp: demo_db_def first_session_def)
qed

end
