(* ===== verification/Replies.thy ===== *)
theory Replies
  imports Example
begin

text \<open>
  The types of the API: what body and status each endpoint answers with, whatever the request and
  whatever fails. And what ending a session leaves alone.
\<close>

section \<open>The types of replies\<close>

text \<open>An error has one of the statuses the handlers use, a code and a message; what failed inside the
  service is not told: a 500 says the same whatever its cause.\<close>

definition error_shape :: "reply \<Rightarrow> bool" where
  "error_shape rep \<longleftrightarrow>
     (case rep of
        Reply st (ErrBody code msg) \<Rightarrow> st \<in> {400, 401, 403, 404, 409, 429, 500, 502} \<and> code \<noteq> [] \<and> msg \<noteq> [] \<and>
          (st = 500 \<longrightarrow> code = ''internal'' \<and> msg = ''something went wrong'')
      | _ \<Rightarrow> False)"


text \<open>A step that, if it ends the handler, ends it with an error or a reply of a type \<open>P\<close>.\<close>

definition shaped :: "(reply \<Rightarrow> bool) \<Rightarrow> 'a handler \<Rightarrow> bool" where
  "shaped P m \<longleftrightarrow> (\<forall>w rep w'. m w = (Inl rep, w') \<longrightarrow> error_shape rep \<or> P rep)"

named_theorems shapes \<open>steps that end with an error or a reply of the type\<close>

lemma shaped_error [shapes]:
  "st \<in> {400, 401, 403, 404, 409, 429, 500, 502} \<Longrightarrow> code \<noteq> [] \<Longrightarrow> msg \<noteq> [] \<Longrightarrow>
   (st = 500 \<longrightarrow> code = ''internal'' \<and> msg = ''something went wrong'') \<Longrightarrow> shaped P (writeErr st code msg)"
  by (auto simp: shaped_def writeErr_def error_shape_def)

lemma shaped_internal [shapes]: "shaped P internal"
  unfolding internal_def by (rule shaped_error) simp_all

lemma shaped_goes_on [shapes]:
  "shaped P (give a)" "shaped P (set_header k v)" "shaped P (set_cookie c)" "shaped P (read_db f)"
  "shaped P (run_db g)" "shaped P (send_mail e site m)" "shaped P (sendEmailVerification u)"
  by (auto simp: shaped_def set_header_def set_cookie_def read_db_def run_db_def zoom_def send_mail_def
      sendEmailVerification_def split: prod.splits if_splits)

lemma shaped_stop [shapes]:
  "P rep \<Longrightarrow> shaped P (stop rep)" "P (Reply st v) \<Longrightarrow> shaped P (writeJSON st v)"
  "(\<And>t. P (Reply st (Tokens t))) \<Longrightarrow> shaped P (answer_tokens st r)"
  "(\<And>url. P (Found url)) \<Longrightarrow> shaped P (redirectWithError S fl k)"
  by (auto simp: shaped_def writeJSON_def answer_tokens_def redirectWithError_def internal_def writeErr_def
      error_shape_def split: option.splits)

lemma shaped_seq [shapes]: "shaped P m \<Longrightarrow> (\<And>a. shaped P (f a)) \<Longrightarrow> shaped P (seq m f)"
  unfolding shaped_def seq_def by (fastforce split: prod.splits sum.splits)

lemma shaped_branches [shapes]:
  "shaped P m \<Longrightarrow> shaped P n \<Longrightarrow> shaped P (if b then m else n)"
  "shaped P m \<Longrightarrow> (\<And>a. v = Some a \<Longrightarrow> shaped P (f a)) \<Longrightarrow>
   shaped P (case v of None \<Rightarrow> m | Some a \<Rightarrow> f a)"
  "(\<And>e. shaped P (g e)) \<Longrightarrow> (\<And>a. shaped P (h a)) \<Longrightarrow> shaped P (case s of Inl e \<Rightarrow> g e | Inr a \<Rightarrow> h a)"
  "shaped P (k u) \<Longrightarrow> shaped P (Let u k)"
  "shaped P m \<Longrightarrow> shaped P n \<Longrightarrow> (\<And>x y. shaped P (l x y)) \<Longrightarrow>
   shaped P (case j of JEnd \<Rightarrow> m | JBad \<Rightarrow> n | JValue x y \<Rightarrow> l x y)"
  "shaped P m1 \<Longrightarrow> shaped P m2 \<Longrightarrow> (\<And>x. shaped P (m3 x)) \<Longrightarrow> shaped P m4 \<Longrightarrow> shaped P
     (case pe of RandFails \<Rightarrow> m1 | ErrInvalidHash \<Rightarrow> m2 | UnsupportedVersion x \<Rightarrow> m3 x | Argon2Panics \<Rightarrow> m4)"
  by (simp_all split: option.split sum.split json_next.split password_error.split)

lemma shaped_steps [shapes]:
  "shaped P (decode S r fs z)" "shaped P (limit e site b n win)" "shaped P (lookupClient e c)"
  "shaped P (clearRefreshCookie S)" "shaped P (respondWithTokens S e u a iss)"
  "shaped P (issueSession S e r u cl)" "shaped P (send_reset S e email)" "shaped P (otp_user S e email)"
  "shaped P (authenticate_client S e q)" "shaped P (find_provider S r)"
  unfolding decode_def limit_def lookupClient_def clearRefreshCookie_def setRefreshCookie_def respondWithTokens_def
    issueSession_def send_reset_def otp_user_def authenticate_client_def find_provider_def
  by (rule shapes | simp)+


lemma shaped_guards [shapes]:
  "(\<And>c. shaped P (n c)) \<Longrightarrow> shaped P (requireUser S e r n)" "shaped P k \<Longrightarrow> shaped P (requireAdmin S r k)"
  unfolding requireUser_def requireAdmin_def by (rule shapes | simp)+

lemma shaped_parts [shapes]:
  "P (Status 204) \<Longrightarrow> shaped P (end_session S)"
  "(\<And>t. P (Reply 200 (Tokens t))) \<Longrightarrow> shaped P (refreshed S e iss)"
  "(\<And>url. P (Found url)) \<Longrightarrow> shaped P (start_for S e r p l)"
  "(\<And>url. P (Found url)) \<Longrightarrow> shaped P (callback_for S e r p flow)"
  unfolding end_session_def refreshed_def start_for_def beginFlow_def callback_for_def resolve_user_def hand_off_def
  by (rule shapes | simp)+



section \<open>Ending one session\<close>

text \<open>The guard changes nothing: either it refuses, or it hands on verified claims.\<close>

lemma requireUser_Inl:
  assumes "requireUser S e r nxt w = (Inl rep, w')"
  obtains "w' = w" "error_reply rep"
  | c where "verifyAnyAudience S (clk (ctx e ''VerifyAccess'') 0) (bearer r) = Some c" "nxt c w = (Inl rep, w')"
  using assms unfolding requireUser_def Let_def
  by (auto simp: writeErr_def internal_def seq_def read_db_def error_reply_def
      split: if_splits option.splits sum.splits)

lemma handleDeleteSession_Inl:
  assumes "handleDeleteSession e r c w = (Inl rep, w')"
  obtains "wDB w' = wDB w" "error_reply rep"
  | s where "s \<in> set (sessions (wDB w))" "sID s = rqPathValue r ''id''" "sUserID s = clSubject c" "rep = Status 204"
    "wDB w' = revoke_where (\<lambda>k. sFamilyID k = sFamilyID s) (clk (ctx e ''RevokeFamily'') 0) (wDB w)"
proof (cases "SessionByID (ctx e ''SessionByID'') (rqPathValue r ''id'') (wDB w)")
  case (Inl err)
  with assms have "wDB w' = wDB w \<and> error_reply rep"
    by (auto simp: handleDeleteSession_def seq_def read_db_def writeErr_def internal_def error_reply_def split: if_splits)
  then show thesis using that(1) by blast
next
  case (Inr s)
  then have s: "s \<in> set (sessions (wDB w))" "sID s = rqPathValue r ''id''"
    using SessionByID_Inr by blast+
  show thesis
  proof (cases "sUserID s = clSubject c \<and> \<not> flt (ctx e ''RevokeFamily'') 0")
    case True
    with assms Inr have "rep = Status 204 \<and>
        wDB w' = revoke_where (\<lambda>k. sFamilyID k = sFamilyID s) (clk (ctx e ''RevokeFamily'') 0) (wDB w)"
      by (auto simp: handleDeleteSession_def seq_def read_db_def run_db_def zoom_def RevokeFamily_def)
    then show thesis using that(2) s True by blast
  next
    case False
    with assms Inr have "wDB w' = wDB w \<and> error_reply rep"
      by (auto simp: handleDeleteSession_def seq_def read_db_def run_db_def zoom_def RevokeFamily_def writeErr_def
          internal_def error_reply_def split: if_splits)
    then show thesis using that(1) by blast
  qed
qed

text \<open>C27: ending a session by its identifier ends the caller's own: a 204 means that it was a session of
  the user of the token and that its whole family is revoked; sessions of other users, and every
  other table, are as they were, whatever identifier was asked for; without a 204 nothing changed.\<close>

theorem delete_session_is_own:
  assumes "consistent S h" and "serve (Routes S e r DeleteSession) (fresh_response (hWorld h)) = (rep, w')"
    and "verifyAnyAudience S (clk (ctx e ''VerifyAccess'') 0) (bearer r) = Some c"
  shows "(\<exists>ss. wDB w' = wDB (hWorld h)\<lparr>sessions := ss\<rparr>) \<and>
    (\<forall>k \<in> set (sessions (wDB (hWorld h))). sUserID k \<noteq> clSubject c \<longrightarrow> k \<in> set (sessions (wDB w'))) \<and>
    (rep = Status 204 \<longrightarrow>
      (\<exists>s \<in> set (sessions (wDB (hWorld h))). sID s = rqPathValue r ''id'' \<and> sUserID s = clSubject c \<and>
         (\<forall>k \<in> set (sessions (wDB w')). sFamilyID k = sFamilyID s \<longrightarrow> sRevokedAt k \<noteq> None))) \<and>
    (rep \<noteq> Status 204 \<longrightarrow> error_reply rep \<and> wDB w' = wDB (hWorld h))"
proof -
  let ?db = "wDB (hWorld h)"
  have same: "\<exists>ss. ?db = ?db\<lparr>sessions := ss\<rparr>" by (rule exI [of _ "sessions ?db"]) simp
  have no: "\<not> error_reply (Status 204)" by (simp add: error_reply_def)
  have "requireUser S e r (handleDeleteSession e r) (opened (hWorld h)) = (Inl rep, w')"
    using assms(2) [unfolded serve_Routes] by (simp add: Routes_def)
  then show ?thesis
  proof (cases rule: requireUser_Inl)
    case 1
    with no same show ?thesis by auto
  next
    case (2 c')
    with assms(3) have "handleDeleteSession e r c (opened (hWorld h)) = (Inl rep, w')" by simp
    then show ?thesis
    proof (cases rule: handleDeleteSession_Inl)
      case 1
      with no same show ?thesis by auto
    next
      case (2 s)
      have lin: "lineage (hIDs h) (hTokens h) (sessions ?db)"
        using consistentD(3) [OF assms(1)] by (simp add: lineage_inv_def)
      have "sUserID k = clSubject c" if "k \<in> set (sessions ?db)" "sFamilyID k = sFamilyID s" for k
        using kinD(1) [OF lineageD(2) [OF lin that(1), of s]] that(2) 2 by simp
      with 2 show ?thesis
        by (auto simp: sessions_revoke_where ball_update_where mem_update_where) (auto simp: revoke_where_def)
    qed
  qed
qed

definition own_request :: request where
  "own_request = demo_request\<lparr>rqPathValue := (\<lambda>_. ''S1'')\<rparr>"

lemma demo_delete: "\<exists>w1. serve (Routes (demo_server JNull (Some demo_claims)) demo_env own_request DeleteSession)
    (fresh_response (on_world demo_db)) = (Status 204, w1)"
proof -
  have "bearer own_request = ''t''" by code_simp
  then show ?thesis
    unfolding serve_Routes
    by (simp add: Routes_def requireUser_def demo_claims_verified demo_claims_def SessionByID_def demo_db_def
        seq_def read_db_def first_session_def norows_def handleDeleteSession_def run_db_def zoom_def RevokeFamily_def
        own_request_def)
qed

theorem delete_session_is_own_witness:
  "\<exists>w1. serve (Routes (demo_server JNull (Some demo_claims)) demo_env own_request DeleteSession)
      (fresh_response (on_world demo_db)) = (Status 204, w1) \<and>
    (\<forall>k \<in> set (sessions (wDB w1)). sFamilyID k = ''S1'' \<longrightarrow> sRevokedAt k \<noteq> None)"
proof -
  let ?S = "demo_server JNull (Some demo_claims)"
  have own: "bearer own_request = ''t''" by code_simp
  obtain w1 where run: "serve (Routes ?S demo_env own_request DeleteSession) (fresh_response (hWorld demo_history)) =
      (Status 204, w1)"
    using demo_delete by auto
  have "\<exists>s \<in> set (sessions (wDB (hWorld demo_history))). sID s = rqPathValue own_request ''id'' \<and>
      sUserID s = clSubject demo_token \<and>
      (\<forall>k \<in> set (sessions (wDB w1)). sFamilyID k = sFamilyID s \<longrightarrow> sRevokedAt k \<noteq> None)"
    using delete_session_is_own [OF demo_consistent run, of demo_token]
    by (simp add: own demo_claims_verified demo_token_def demo_claims_def)
  with run show ?thesis by (auto simp: demo_db_def first_session_def)
qed

section \<open>Registering\<close>

text \<open>A step before the first write: it moves the rate limits at most, and ends only with an error.\<close>

definition tame :: "'a handler \<Rightarrow> bool" where
  "tame m \<longleftrightarrow> refuses m \<and> (\<forall>w. \<exists>t. wDB (snd (m w)) = wDB w\<lparr>rate_limits := t\<rparr>)"

lemma no_change: "\<exists>t. db = db\<lparr>rate_limits := t\<rparr>"
  by (rule exI [of _ "rate_limits db"]) simp

lemma tame_decode: "tame (decode S r fs z)"
  unfolding tame_def
proof (intro conjI allI)
  show "\<exists>t. wDB (snd (decode S r fs z w)) = wDB w\<lparr>rate_limits := t\<rparr>" for w :: world
    by (simp add: decode_def writeErr_def Let_def no_change split: json_next.split option.split)
qed (rule refusal)

lemma tame_lookupClient: "tame (lookupClient e k)"
  unfolding tame_def
proof (intro conjI allI)
  show "\<exists>t. wDB (snd (lookupClient e k w)) = wDB w\<lparr>rate_limits := t\<rparr>" for w :: world
    by (simp add: lookupClient_def seq_def read_db_def internal_def writeErr_def no_change split: sum.split)
qed (rule refusal)

lemma tame_limit: "tame (limit e site b n win)"
  unfolding tame_def
proof (intro conjI allI)
  show "refuses (limit e site b n win)" by (rule refusal)
next
  fix w :: world
  obtain t where "snd (Allow (ctx e site) b n win (wDB w)) = wDB w\<lparr>rate_limits := t\<rparr>" using Allow_rows by blast
  then show "\<exists>t. wDB (snd (limit e site b n win w)) = wDB w\<lparr>rate_limits := t\<rparr>"
    by (auto simp: limit_def seq_def run_db_def zoom_def internal_def writeErr_def set_header_def
        split: prod.split sum.split)
qed

lemma seq_tame:
  assumes "seq m f w = (Inl rep, w')" and "tame m"
  obtains t where "error_reply rep" "wDB w' = wDB w\<lparr>rate_limits := t\<rparr>"
  | a w1 t where "m w = (Inr a, w1)" "wDB w1 = wDB w\<lparr>rate_limits := t\<rparr>" "f a w1 = (Inl rep, w')"
proof -
  obtain t where t: "wDB (snd (m w)) = wDB w\<lparr>rate_limits := t\<rparr>" using assms(2) unfolding tame_def by blast
  obtain q w1 where m: "m w = (q, w1)" by fastforce
  show thesis
  proof (cases q)
    case (Inl rep')
    with assms m have "error_reply rep" by (auto simp: seq_def tame_def refuses_def)
    with that(1) t assms(1) m Inl show thesis by (simp add: seq_def)
  next
    case (Inr a)
    with that(2) t assms(1) m show thesis by (simp add: seq_def)
  qed
qed

lemma tokens_Inl:
  assumes "seq (issueSession S e r u c) (answer_tokens st) w = (Inl rep, w')"
  shows "wDB w' = snd (CreateSession (srvLib S) (ctx e ''CreateSession'') (uID u) (cID c) (session_meta r) (wDB w))"
  using assms
  by (auto simp: issueSession_def respondWithTokens_def answer_tokens_def seq_def run_db_def zoom_def internal_def
      writeErr_def writeJSON_def setRefreshCookie_def set_cookie_def split: sum.splits prod.splits option.splits)

text \<open>What is left of a registration once the client is known and the password hashed.\<close>

definition registering :: "server \<Rightarrow> env \<Rightarrow> request \<Rightarrow> string \<Rightarrow> string \<Rightarrow> Client \<Rightarrow> reply handler" where
  "registering S e r email hash c =
     seq (run_db (CreateUser (srvLib S) (ctx e ''CreateUser'') email (Some hash))) (\<lambda>res.
       case res of
         Inl _ \<Rightarrow>
           seq (read_db (UserByEmail (srvLib S) (ctx e ''UserByEmail'') email)) (\<lambda>found.
             case found of
               Inr existing \<Rightarrow>
                 seq (sendEmailVerification existing) (\<lambda>_.
                   writeJSON 202 (StrMap [(''status'', ''verification_sent'')]))
             | Inl _ \<Rightarrow> internal)
       | Inr u \<Rightarrow>
           seq (sendEmailVerification u) (\<lambda>_.
           seq (issueSession S e r u c) (answer_tokens 201)))"

lemma handleRegister_split: "handleRegister S e r =
     seq (decode S r registerReq_fields zero_registerReq) (\<lambda>q.
       if \<not> validEmail (normalizeEmail (srvLib S) (rrEmail q))
       then writeErr 400 ''invalid_email'' ''that does not look like an email address''
       else if length (rrPassword q) < MinPasswordLen
       then writeErr 400 ''weak_password'' ''password must be at least 10 characters''
       else
         seq (limit e ''limit ip'' (''register:ip:'' @ clientIP r) 10 hour) (\<lambda>_.
         seq (lookupClient e (rrClientID q)) (\<lambda>c.
         case Hash (srvLib S) (ctx e ''Hash'') (rrPassword q) of
           Inl _ \<Rightarrow> internal
         | Inr hash \<Rightarrow> registering S e r (normalizeEmail (srvLib S) (rrEmail q)) hash c)))"
  by (simp only: handleRegister_def registering_def Let_def)

lemma registering_Inl:
  assumes "registering S e r email hash c w = (Inl rep, w')"
  obtains "wDB w' = wDB w" "error_reply rep \<or> rep = Reply 202 (StrMap [(''status'', ''verification_sent'')])"
  | u db1 where "CreateUser (srvLib S) (ctx e ''CreateUser'') email (Some hash) (wDB w) = (Inr u, db1)"
    "wDB w' = snd (CreateSession (srvLib S) (ctx e ''CreateSession'') (uID u) (cID c) (session_meta r) db1)"
proof (cases "CreateUser (srvLib S) (ctx e ''CreateUser'') email (Some hash) (wDB w)")
  case (Pair res db1)
  then have run: "seq (run_db (CreateUser (srvLib S) (ctx e ''CreateUser'') email (Some hash))) f w =
      f res (w\<lparr>wDB := db1\<rparr>)" for f :: "store_error + User \<Rightarrow> reply handler"
    by (simp add: seq_def run_db_def zoom_def)
  show thesis
  proof (cases res)
    case (Inl err)
    with Pair have "db1 = wDB w" using CreateUser_Inl by blast
    with assms Inl have "wDB w' = wDB w \<and>
        (error_reply rep \<or> rep = Reply 202 (StrMap [(''status'', ''verification_sent'')]))"
      unfolding registering_def run
      by (auto simp: seq_def read_db_def sendEmailVerification_def writeJSON_def internal_def
          writeErr_def error_reply_def split: sum.splits if_splits)
    then show thesis using that(1) by blast
  next
    case (Inr u)
    define w2 where "w2 = snd (sendEmailVerification u (w\<lparr>wDB := db1\<rparr>))"
    have w2: "seq (sendEmailVerification u) f (w\<lparr>wDB := db1\<rparr>) = f () w2" "wDB w2 = db1"
      for f :: "unit \<Rightarrow> reply handler"
      by (simp_all add: w2_def sendEmailVerification_def seq_def)
    have "seq (issueSession S e r u c) (answer_tokens 201) w2 = (Inl rep, w')"
      using assms unfolding registering_def run by (simp add: Inr w2(1))
    from tokens_Inl [OF this] w2(2) that(2) Pair Inr show thesis by blast
  qed
qed

lemma handleRegister_Inl:
  assumes "handleRegister S e r w = (Inl rep, w')"
  obtains t where "wDB w' = wDB w\<lparr>rate_limits := t\<rparr>"
    "error_reply rep \<or> rep = Reply 202 (StrMap [(''status'', ''verification_sent'')])"
  | q t hash u db1 c where "decode S r registerReq_fields zero_registerReq w = (Inr q, w)"
    "MinPasswordLen \<le> length (rrPassword q)" "Hash (srvLib S) (ctx e ''Hash'') (rrPassword q) = Inr hash"
    "CreateUser (srvLib S) (ctx e ''CreateUser'') (normalizeEmail (srvLib S) (rrEmail q)) (Some hash)
       (wDB w\<lparr>rate_limits := t\<rparr>) = (Inr u, db1)"
    "wDB w' = snd (CreateSession (srvLib S) (ctx e ''CreateSession'') (uID u) c (session_meta r) db1)"
proof -
  note ends = that(1) and made = that(2)
  from assms [unfolded handleRegister_split] tame_decode show thesis
  proof (cases rule: seq_tame)
    case 1
    show thesis by (rule ends [OF 1(2) disjI1 [OF 1(1)]])
  next
    case (2 q w1 t0)
    have w1: "w1 = w" using 2(1) by (rule decode_Inr)
    show thesis
    proof (cases "validEmail (normalizeEmail (srvLib S) (rrEmail q)) \<and> MinPasswordLen \<le> length (rrPassword q)")
      case False
      with 2(3) have err: "w' = w1" "error_reply rep"
        by (auto simp: writeErr_def error_reply_def split: if_splits)
      show thesis by (rule ends [OF _ disjI1 [OF err(2)]]) (use 2(2) err(1) in simp)
    next
      case True
      with 2(3) w1 have "seq (limit e ''limit ip'' (''register:ip:'' @ clientIP r) 10 hour) (\<lambda>_.
         seq (lookupClient e (rrClientID q)) (\<lambda>c.
         case Hash (srvLib S) (ctx e ''Hash'') (rrPassword q) of
           Inl _ \<Rightarrow> internal
         | Inr hash \<Rightarrow> registering S e r (normalizeEmail (srvLib S) (rrEmail q)) hash c)) w = (Inl rep, w')"
        by simp
      from this tame_limit show thesis
      proof (cases rule: seq_tame)
        case l: 1
        show thesis by (rule ends [OF l(2) disjI1 [OF l(1)]])
      next
        case l: (2 a w2 t2)
        from l(3) tame_lookupClient show thesis
        proof (cases rule: seq_tame)
          case c: (1 t3)
          from c(2) l(2) have "wDB w' = wDB w\<lparr>rate_limits := t3\<rparr>" by simp
          then show thesis by (rule ends [OF _ disjI1 [OF c(1)]])
        next
          case c: (2 c w3 t3)
          have db: "wDB w3 = wDB w\<lparr>rate_limits := t3\<rparr>" using c(2) l(2) by simp
          show thesis
          proof (cases "Hash (srvLib S) (ctx e ''Hash'') (rrPassword q)")
            case (Inl err)
            with c(3) have "w' = w3" "error_reply rep" by (auto simp: internal_def writeErr_def error_reply_def)
            then show thesis by (intro ends [OF _ disjI1]) (simp_all add: db)
          next
            case (Inr hash)
            with c(3) have "registering S e r (normalizeEmail (srvLib S) (rrEmail q)) hash c w3 = (Inl rep, w')"
              by simp
            then show thesis
            proof (cases rule: registering_Inl)
              case n: 1
              show thesis by (rule ends [OF _ n(2)]) (simp add: n(1) db)
            next
              case n: (2 u db1)
              show thesis
                by (rule made [OF 2(1) [unfolded w1] _ Inr n(1) [unfolded db] n(2)]) (simp add: True)
            qed
          qed
        qed
      qed
    qed
  qed
qed

text \<open>Registering only adds: either the accounts and sessions stay exactly as they were, and the answer
  is an error or the message that a mail was sent (so a taken address gets no session); or there is
  one new account, unverified, with the normalised address asked for, which no account had, and the
  hash of the password asked for, and at most one session, which is its own. No existing row changes.\<close>

theorem register_only_adds:
  assumes "serve (Routes S e r Register) (fresh_response w) = (rep, w')"
  shows "(\<exists>t. wDB w' = wDB w\<lparr>rate_limits := t\<rparr> \<and>
       (error_reply rep \<or> rep = Reply 202 (StrMap [(''status'', ''verification_sent'')]))) \<or>
    (\<exists>t u ss q hash. wDB w' = wDB w\<lparr>rate_limits := t, users := users (wDB w) @ [u], sessions := sessions (wDB w) @ ss\<rparr> \<and>
       decode S r registerReq_fields zero_registerReq w = (Inr q, w) \<and> MinPasswordLen \<le> length (rrPassword q) \<and>
       Hash (srvLib S) (ctx e ''Hash'') (rrPassword q) = Inr hash \<and> uPasswordHash u = Some hash \<and>
       uEmail u = normalizeEmail (srvLib S) (rrEmail q) \<and> uEmailVerifiedAt u = None \<and> uDisabledAt u = None \<and>
       (\<forall>y \<in> set (users (wDB w)). uID y \<noteq> uID u \<and> citext (srvLib S) (uEmail y) \<noteq> citext (srvLib S) (uEmail u)) \<and>
       (\<forall>s \<in> set ss. sUserID s = uID u) \<and> length ss \<le> 1)"
proof -
  have "handleRegister S e r (opened w) = (Inl rep, w')"
    using assms [unfolded serve_Routes] by (simp add: Routes_def)
  then show ?thesis
  proof (cases rule: handleRegister_Inl)
    case (1 t)
    then show ?thesis by auto
  next
    case (2 q t hash u db1 c)
    note new = CreateUser_Inr [OF 2(4)]
    obtain q' where q': "fst (CreateSession (srvLib S) (ctx e ''CreateSession'') (uID u) c (session_meta r) db1) = q'" by simp
    have "\<exists>ss. wDB w' = db1\<lparr>sessions := sessions db1 @ ss\<rparr> \<and> (\<forall>s \<in> set ss. sUserID s = uID u) \<and> length ss \<le> 1"
    proof (cases q')
      case (Inl err)
      with 2(5) q' have "wDB w' = db1"
        unfolding CreateSession_def Let_def by (metis insertSession_Inl prod.collapse)
      then show ?thesis by (intro exI [of _ "[]"]) simp
    next
      case (Inr iss)
      with 2(5) q' have "insertSession (srvLib S) (ctx e ''CreateSession'') 0 (uid (ctx e ''CreateSession'') 0) (uID u) c
          (uid (ctx e ''CreateSession'') 0) None (session_meta r) db1 = (Inr iss, wDB w')"
        unfolding CreateSession_def Let_def by (metis prod.collapse)
      note s = insertSession_Inr [OF this]
      from s(2) have "sUserID (isSession iss) = uID u" by (metis Session.select_convs(2))
      with s(4) show ?thesis by (intro exI [of _ "[isSession iss]"]) simp
    qed
    then obtain ss where ss: "wDB w' = db1\<lparr>sessions := sessions db1 @ ss\<rparr>" "\<forall>s \<in> set ss. sUserID s = uID u" "length ss \<le> 1"
      by blast
    have "wDB w' = wDB w\<lparr>rate_limits := t, users := users (wDB w) @ [u], sessions := sessions (wDB w) @ ss\<rparr>"
      using ss(1) new(7) by simp
    moreover have "\<forall>y \<in> set (users (wDB w)). uID y \<noteq> uID u \<and> citext (srvLib S) (uEmail y) \<noteq> citext (srvLib S) (uEmail u)"
      using new(6) by (simp add: user_ok_def image_iff) metis
    ultimately show ?thesis
      using 2(2,3) decode_world [OF 2(1), of w] new(1-4) ss(2,3) by blast
  qed
qed

definition register_body :: json where
  "register_body = JObj [(''client_id'', JStr ''app''), (''email'', JStr ''bob@x.io''), (''password'', JStr ''correct horse'')]"

definition demo_register :: registerReq where
  "demo_register = \<lparr>rrClientID = ''app'', rrEmail = ''bob@x.io'', rrPassword = ''correct horse''\<rparr>"

lemma decode_register:
  "decode (demo_server register_body None) demo_request registerReq_fields zero_registerReq w = (Inr demo_register, w)"
  by (simp add: demo_decode register_body_def demo_register_def into_struct_def field_for_def registerReq_fields_def
      zero_registerReq_def into_string_def)

lemma bob_plain: "normalizeEmail plain ''bob@x.io'' = ''bob@x.io''" "validEmail ''bob@x.io''"
  by code_simp+

lemma demo_registered: "\<exists>t w1. serve (Routes (demo_server register_body None) demo_env demo_request Register)
    (fresh_response (on_world demo_db)) = (Reply 201 (Tokens t), w1)"
  unfolding serve_Routes
  by (simp add: Routes_def handleRegister_def seq_def decode_register demo_register_def bob_plain MinPasswordLen_def
      demo_limit demo_clientIP lookupClient_def read_db_def ClientByID_def demo_db_def demo_client_def Hash_def
      HashWithParams_def rand_read_def DefaultParams_def CreateUser_def user_ok_def demo_user_def run_db_def zoom_def
      sendEmailVerification_def EmailVerified_def issue_examples)

theorem register_only_adds_witness:
  "\<exists>t w1. serve (Routes (demo_server register_body None) demo_env demo_request Register)
      (fresh_response (on_world demo_db)) = (Reply 201 (Tokens t), w1) \<and>
    (\<exists>u. users (wDB w1) = [demo_user, u] \<and> uEmail u = ''bob@x.io'' \<and> uEmailVerifiedAt u = None)"
proof -
  obtain t w1 where run: "serve (Routes (demo_server register_body None) demo_env demo_request Register)
      (fresh_response (on_world demo_db)) = (Reply 201 (Tokens t), w1)"
    using demo_registered by blast
  with register_only_adds [OF run] show ?thesis
    by (auto simp: decode_register demo_register_def bob_plain error_reply_def demo_db_def)
qed

end
