(* ===== verification/Tasks.thy ===== *)
theory Tasks
  imports Example
begin

text \<open>
  Handlers cut at their calls of the store: a task is a reply, or a call and what follows it. Run
  alone, a task is the handler it was cut from; \<open>Interleaving\<close> lets tasks take turns.
\<close>

section \<open>Tasks\<close>

datatype 'a task = Done "reply + 'a" | Call "world \<Rightarrow> 'a task \<times> world"

primrec andthen :: "'a task \<Rightarrow> ('a \<Rightarrow> 'b task) \<Rightarrow> 'b task" where
  "andthen (Done v) k = (case v of Inl rep \<Rightarrow> Done (Inl rep) | Inr a \<Rightarrow> k a)"
| "andthen (Call f) k = Call (\<lambda>w. map_prod (\<lambda>t. andthen t k) id (f w))"

definition call :: "'a handler \<Rightarrow> 'a task" where
  "call m = Call (\<lambda>w. map_prod Done id (m w))"

primrec alone :: "'a task \<Rightarrow> 'a handler" where
  "alone (Done v) = (\<lambda>w. (v, w))"
| "alone (Call f) = (\<lambda>w. case map_prod alone id (f w) of (g, w') \<Rightarrow> g w')"

lemma task_induct [case_names Done Call]:
  assumes "\<And>v. P (Done v)" and "\<And>f. (\<And>w. P (fst (f w))) \<Longrightarrow> P (Call f)"
  shows "P t"
proof (induction t)
  case (Call f)
  have "P (fst (f w))" for w by (rule Call [of "f w"]) (simp_all add: prod_set_defs)
  then show ?case by (rule assms(2))
qed (rule assms(1))

text \<open>Run alone, tasks compose as actions do.\<close>

lemma alone_andthen: "alone (andthen t k) = seq (alone t) (\<lambda>a. alone (k a))"
proof (induction t rule: task_induct)
  case (Done v)
  show ?case by (cases v) (simp_all add: seq_def fun_eq_iff)
next
  case (Call f)
  then show ?case by (simp add: seq_def fun_eq_iff case_prod_unfold)
qed

lemma alone_call: "alone (call m) = m"
  by (simp add: call_def fun_eq_iff case_prod_unfold)

lemma alone_done: "alone (Done (Inl rep)) = stop rep" "alone (Done (Inr a)) = give a"
  by (simp_all add: fun_eq_iff)

lemma alone_branches:
  "alone (if b then t else u) = (if b then alone t else alone u)"
  "alone (case s of Inl x \<Rightarrow> l x | Inr y \<Rightarrow> r y) = (case s of Inl x \<Rightarrow> alone (l x) | Inr y \<Rightarrow> alone (r y))"
  "alone (case v of None \<Rightarrow> t | Some a \<Rightarrow> k a) = (case v of None \<Rightarrow> alone t | Some a \<Rightarrow> alone (k a))"
  by (simp_all split: sum.split option.split)

lemmas alone_rules = alone_andthen alone_call alone_done alone_branches

section \<open>Handlers cut at their calls of the store\<close>

text \<open>Steps that touch no table stay with the call before or after them.\<close>

definition refreshedTask :: "server \<Rightarrow> env \<Rightarrow> IssuedSession \<Rightarrow> reply task" where
  "refreshedTask S e iss =
     andthen (call (read_db (UserByID (ctx e ''UserByID'') (sUserID (isSession iss))))) (\<lambda>found.
     case found of
       Inl _ \<Rightarrow> call internal
     | Inr u \<Rightarrow>
         if uDisabledAt u \<noteq> None then
           andthen (call (run_db (RevokeAllForUser (ctx e ''RevokeAllForUser'') (uID u)))) (\<lambda>_.
           call (seq (clearRefreshCookie S) (\<lambda>_.
             writeErr 403 ''account_disabled'' ''this account is disabled'')))
         else
           andthen (call (read_db (ClientByID (ctx e ''ClientByID'') (sClientID (isSession iss))))) (\<lambda>cl.
           case cl of
             Inl _ \<Rightarrow> call internal
           | Inr client \<Rightarrow> call (seq (respondWithTokens S e u (cAudience client) iss) (answer_tokens 200))))"

definition rotateTask :: "server \<Rightarrow> env \<Rightarrow> request \<Rightarrow> string \<Rightarrow> reply task" where
  "rotateTask S e r raw =
     andthen (call (run_db (Rotate (srvLib S) (ctx e ''Rotate'') raw (session_meta r)))) (\<lambda>res.
     case res of
       Inl err \<Rightarrow> call
         (if err = ErrTokenReuse then
            seq (clearRefreshCookie S) (\<lambda>_.
              writeErr 401 ''token_reuse'' ''this session has been revoked; sign in again'')
          else if err = ErrNotFound then
            seq (clearRefreshCookie S) (\<lambda>_.
              writeErr 401 ''unauthorized'' ''refresh token is invalid or expired'')
          else internal)
     | Inr iss \<Rightarrow> refreshedTask S e iss)"

definition refreshTask :: "server \<Rightarrow> env \<Rightarrow> request \<Rightarrow> reply task" where
  "refreshTask S e r =
     (let raw = refreshTokenFrom S r in
      if raw = [] then call (writeErr 401 ''unauthorized'' ''no refresh token'')
      else
        andthen (call (limit e ''limit ip'' (''refresh:ip:'' @ clientIP r) 120 hour)) (\<lambda>_.
          rotateTask S e r raw))"

definition exchangeTask :: "server \<Rightarrow> env \<Rightarrow> request \<Rightarrow> reply task" where
  "exchangeTask S e r =
     andthen (call (decode S r exchangeReq_fields zero_exchangeReq)) (\<lambda>req.
     andthen (call (limit e ''limit ip'' (''exchange:ip:'' @ clientIP r) 120 hour)) (\<lambda>_.
     andthen (call (authenticate_client S e req)) (\<lambda>client.
     andthen (call (run_db (ConsumeAuthCode (srvLib S) (ctx e ''ConsumeAuthCode'') (xqCode req)))) (\<lambda>res.
     case res of
       Inl _ \<Rightarrow> call (writeErr 400 ''invalid_code'' ''this code is invalid, expired, or already used'')
     | Inr ac \<Rightarrow>
         if acClientID ac \<noteq> cID client
         then call (writeErr 400 ''invalid_code'' ''this code was not issued to this client'')
         else
           andthen (call (read_db (UserByID (ctx e ''UserByID'') (acUserID ac)))) (\<lambda>found.
           case found of
             Inl _ \<Rightarrow> call internal
           | Inr u \<Rightarrow>
               if uDisabledAt u \<noteq> None
               then call (writeErr 403 ''account_disabled'' ''this account is disabled'')
               else
                 andthen (call (run_db (CreateSession (srvLib S) (ctx e ''CreateSession'') (uID u) (cID client)
                       (session_meta r)))) (\<lambda>made.
                 case made of
                   Inl _ \<Rightarrow> call internal
                 | Inr iss \<Rightarrow>
                     call (seq (respondWithTokens S e u (cAudience client) iss) (answer_tokens 200))))))))"

definition resetTask :: "server \<Rightarrow> env \<Rightarrow> request \<Rightarrow> reply task" where
  "resetTask S e r =
     andthen (call (decode S r resetReq_fields \<lparr>reToken = [], reNewPassword = []\<rparr>)) (\<lambda>req.
     if length (reNewPassword req) < MinPasswordLen
     then call (writeErr 400 ''weak_password'' ''password must be at least 10 characters'')
     else
       andthen (call (limit e ''limit ip'' (''reset:ip:'' @ clientIP r) 20 hour)) (\<lambda>_.
       andthen (call (run_db (ConsumeToken (srvLib S) (ctx e ''ConsumeToken'') PurposePasswordReset (reToken req)))) (\<lambda>res.
       case res of
         Inl err \<Rightarrow> call
           (if err = ErrCodeInvalid then writeErr 400 ''invalid_token'' ''this link is invalid or has expired''
            else internal)
       | Inr userID \<Rightarrow>
           (case Hash (srvLib S) (ctx e ''Hash'') (reNewPassword req) of
              Inl _ \<Rightarrow> call internal
            | Inr hash \<Rightarrow>
                andthen (call (run_db (SetPasswordHash (ctx e ''SetPasswordHash'') userID hash))) (\<lambda>set'.
                case set' of
                  Inl _ \<Rightarrow> call internal
                | Inr _ \<Rightarrow>
                    andthen (call (run_db (RevokeAllForUser (ctx e ''RevokeAllForUser'') userID))) (\<lambda>gone.
                    case gone of
                      Inl _ \<Rightarrow> call internal
                    | Inr _ \<Rightarrow>
                        call (seq (clearRefreshCookie S) (\<lambda>_.
                          writeJSON 200 (BoolMap [(''password_reset'', True)])))))))))"

text \<open>A login up to the point where nothing is left but to issue the session.\<close>

definition checkLogin :: "server \<Rightarrow> env \<Rightarrow> request \<Rightarrow> (User \<times> Client) task" where
  "checkLogin S e r =
     andthen (call (decode S r registerReq_fields zero_registerReq)) (\<lambda>req.
     let email = normalizeEmail (srvLib S) (rrEmail req) in
     andthen (call (limit e ''limit ip'' (''login:ip:'' @ clientIP r) 30 (15 * minute))) (\<lambda>_.
     andthen (call (limit e ''limit id'' (''login:id:'' @ email) 10 (15 * minute))) (\<lambda>_.
     andthen (call (lookupClient e (rrClientID req))) (\<lambda>client.
     andthen (call (read_db (UserByEmail (srvLib S) (ctx e ''UserByEmail'') email))) (\<lambda>found.
     if found \<noteq> Inl ErrNotFound \<and> isl found then call internal
     else
       let u = (case found of Inl _ \<Rightarrow> None | Inr u \<Rightarrow> Some u);
           password_hash = Option.bind u uPasswordHash;
           stored = (case password_hash of None \<Rightarrow> srvDummyHash S | Some h \<Rightarrow> h)
       in case Verify (srvLib S) stored (rrPassword req) of
            Inl _ \<Rightarrow> call internal
          | Inr matches \<Rightarrow>
              (case u of
                 None \<Rightarrow> call (writeErr 401 ''invalid_credentials'' ''email or password is incorrect'')
               | Some u \<Rightarrow>
                   if uPasswordHash u = None \<or> \<not> matches
                   then call (writeErr 401 ''invalid_credentials'' ''email or password is incorrect'')
                   else if uDisabledAt u \<noteq> None
                   then call (writeErr 403 ''account_disabled'' ''this account is disabled'')
                   else Done (Inr (u, client))))))))"

definition loginTask :: "server \<Rightarrow> env \<Rightarrow> request \<Rightarrow> reply task" where
  "loginTask S e r =
     andthen (checkLogin S e r) (\<lambda>(u, client). call (seq (issueSession S e r u client) (answer_tokens 200)))"

lemma alone_refreshed: "alone (refreshedTask S e iss) = refreshed S e iss"
  unfolding refreshedTask_def refreshed_def by (simp only: alone_rules)

lemma alone_Let: "alone (Let v k) = Let v (\<lambda>x. alone (k x))"
  by (simp add: Let_def)

text \<open>A continuation goes to the leaves of what it follows.\<close>

lemma seq_tails:
  "seq (if b then m else n) f = (if b then seq m f else seq n f)"
  "seq (case s of Inl x \<Rightarrow> l x | Inr y \<Rightarrow> r y) f = (case s of Inl x \<Rightarrow> seq (l x) f | Inr y \<Rightarrow> seq (r y) f)"
  "seq (case v of None \<Rightarrow> m | Some a \<Rightarrow> k a) f = (case v of None \<Rightarrow> seq m f | Some a \<Rightarrow> seq (k a) f)"
  "seq (Let u g) f = Let u (\<lambda>x. seq (g x) f)"
  "seq (writeErr st code msg) f = writeErr st code msg" "seq internal f = internal"
  by (simp_all add: Let_def writeErr_def internal_def split: sum.split option.split)

lemma alone_tasks:
  "alone (refreshTask S e r) = handleRefresh S e r"
  "alone (exchangeTask S e r) = handleTokenExchange S e r"
  "alone (resetTask S e r) = handlePasswordReset S e r"
  "alone (loginTask S e r) = handleLogin S e r"
proof -
  show "alone (refreshTask S e r) = handleRefresh S e r"
    unfolding refreshTask_def rotateTask_def handleRefresh_def by (simp only: alone_rules alone_Let alone_refreshed)
  show "alone (exchangeTask S e r) = handleTokenExchange S e r"
    unfolding exchangeTask_def handleTokenExchange_def by (simp only: alone_rules)
  show "alone (resetTask S e r) = handlePasswordReset S e r"
    unfolding resetTask_def handlePasswordReset_def by (simp only: alone_rules)
  show "alone (loginTask S e r) = handleLogin S e r"
    unfolding loginTask_def checkLogin_def handleLogin_def
    by (simp only: alone_rules alone_Let seq_assoc seq_tails seq_give split_conv)
qed

end
