(* ===== verification/Interleaving.thy ===== *)
theory Interleaving
  imports Tasks
begin

text \<open>
  Requests that run at the same time: their tasks take turns on one database, with any other use of
  the store in between. A secret that is redeemed once lets one of them past.
\<close>

section \<open>Requests taking turns\<close>

text \<open>
  A pool holds the state of a machine of the store and a thread for each request: what is left of its
  task, and its own response. In a step one thread makes its next call, on the database as it is
  then, and the machine follows what the call did to it; or anything else uses the store.
\<close>

type_synonym thread = "reply task \<times> world"

inductive pool_step ::
  "('s \<Rightarrow> 's \<Rightarrow> bool) \<Rightarrow> ('s \<Rightarrow> DB) \<Rightarrow> 's \<times> thread list \<Rightarrow> 's \<times> thread list \<Rightarrow> bool" for step db where
  runs: "i < length ts \<Longrightarrow> ts ! i = (Call f, w) \<Longrightarrow> f (w\<lparr>wDB := db s\<rparr>) = (t, w') \<Longrightarrow>
     rtranclp step s s' \<Longrightarrow> db s' = wDB w' \<Longrightarrow> pool_step step db (s, ts) (s', ts[i := (t, w')])"
| others: "step s s' \<Longrightarrow> pool_step step db (s, ts) (s', ts)"

text \<open>A task that ends with an error unless it has made a call of the kind \<open>G\<close>.\<close>

inductive gated :: "(world \<Rightarrow> world \<Rightarrow> bool) \<Rightarrow> ('a \<Rightarrow> bool) \<Rightarrow> 'a task \<Rightarrow> bool" for G P where
  gated_Done: "(case v of Inl rep \<Rightarrow> error_reply rep | Inr a \<Rightarrow> P a) \<Longrightarrow> gated G P (Done v)"
| gated_Call: "(\<And>w. G w (snd (f w)) \<or> gated G P (fst (f w))) \<Longrightarrow> gated G P (Call f)"

inductive_cases gated_DoneE: "gated G P (Done v)"
inductive_cases gated_CallE: "gated G P (Call f)"

named_theorems gates \<open>tasks behind a gate\<close>

lemma gated_andthen: "gated G P t \<Longrightarrow> (\<And>a. P a \<Longrightarrow> gated G Q (k a)) \<Longrightarrow> gated G Q (andthen t k)"
proof (induction t rule: task_induct)
  case (Done v)
  then show ?case by (cases v) (auto elim!: gated_DoneE intro: gated_Done)
next
  case (Call f)
  show ?case
    using Call by (auto simp: case_prod_unfold elim!: gated_CallE intro!: gated_Call)
qed

lemma gated_call:
  assumes "\<And>w. G w (snd (m w)) \<or> (case fst (m w) of Inl rep \<Rightarrow> error_reply rep | Inr a \<Rightarrow> P a)"
  shows "gated G P (call m)"
  unfolding call_def using assms by (intro gated_Call) (auto intro!: gated_Done)

text \<open>A step that only refuses lets everything through; one that answers lets nothing.\<close>

lemma gated_passes: "refuses m \<Longrightarrow> gated G (\<lambda>_. True) (call m)"
  by (rule gated_call) (auto simp: refuses_def split: sum.split, metis prod.collapse)

lemma gated_refuses: "answers m \<Longrightarrow> refuses m \<Longrightarrow> gated G P (call m)"
proof (rule gated_call)
  fix w
  assume m: "answers m" "refuses m"
  obtain rep where rep: "fst (m w) = Inl rep" using m(1) by (auto simp: answers_def isl_def)
  then have "error_reply rep" using m(2) unfolding refuses_def by (metis prod.collapse)
  with rep show "G w (snd (m w)) \<or> (case fst (m w) of Inl rep \<Rightarrow> error_reply rep | Inr a \<Rightarrow> P a)" by simp
qed

lemma gated_branches [gates]:
  "gated G P t \<Longrightarrow> gated G P u \<Longrightarrow> gated G P (if b then t else u)"
  "(\<And>x. s = Inl x \<Longrightarrow> gated G P (l x)) \<Longrightarrow> (\<And>y. s = Inr y \<Longrightarrow> gated G P (r y)) \<Longrightarrow>
   gated G P (case s of Inl x \<Rightarrow> l x | Inr y \<Rightarrow> r y)"
  "gated G P (k v) \<Longrightarrow> gated G P (Let v k)"
  by (simp_all split: sum.split)

text \<open>
  A machine with an absorbing property \<open>dead k\<close> of a secret, and the calls that redeem it: none does
  once it is dead, and afterwards it is. Of the threads that need the secret one gets past it.
\<close>

locale pool = absorbing start step inv dead
  for start :: "'s \<Rightarrow> bool" and step and inv and dead :: "'k \<Rightarrow> 's \<Rightarrow> bool" +
  fixes db :: "'s \<Rightarrow> DB" and spends :: "'k \<Rightarrow> world \<Rightarrow> world \<Rightarrow> bool"
  assumes dead_spends: "dead k s \<Longrightarrow> wDB w = db s \<Longrightarrow> \<not> spends k w w'"
    and spends_dead: "inv s \<Longrightarrow> spends k w w' \<Longrightarrow> wDB w = db s \<Longrightarrow> rtranclp step s t \<Longrightarrow> db t = wDB w' \<Longrightarrow>
      dead k t"
begin

definition racing :: "'k \<Rightarrow> nat set \<Rightarrow> 's \<times> thread list \<Rightarrow> bool" where
  "racing k T c \<longleftrightarrow> inv (fst c) \<and> T \<subseteq> {..<length (snd c)} \<and>
     ((\<forall>i \<in> T. gated (spends k) (\<lambda>_. False) (fst (snd c ! i))) \<or>
      dead k (fst c) \<and> (\<exists>j. \<forall>i \<in> T - {j}. gated (spends k) (\<lambda>_. False) (fst (snd c ! i))))"

lemma racing_step:
  assumes "pool_step step db c c'" and "racing k T c"
  shows "racing k T c'"
  using assms(1)
proof cases
  case (others s s' ts)
  with assms(2) show ?thesis by (auto simp: racing_def intro: step_inv dead_step)
next
  case (runs i ts f w s t w' s')
  let ?g = "\<lambda>t. gated (spends k) (\<lambda>_. False) t"
  let ?w = "w\<lparr>wDB := db s\<rparr>"
  from assms(2) runs have inv: "inv s" and T: "T \<subseteq> {..<length ts}" by (simp_all add: racing_def)
  have inv': "inv s'" by (rule run_inv [OF inv runs(6)])
  have on: "dead k s \<Longrightarrow> dead k s'" by (rule dead_run [OF runs(6) inv])
  have move: "spends k ?w w' \<or> ?g t" if "?g (fst (ts ! i))"
    using that runs(4,5) by (auto elim!: gated_CallE dest!: spec [of _ ?w])
  have at: "fst (ts[i := (t, w')] ! j) = (if i = j then t else fst (ts ! j))" for j
    using runs(3) by (simp add: nth_list_update)
  show ?thesis
  proof (cases "\<forall>j \<in> T. ?g (fst (ts ! j))")
    case all: True
    show ?thesis
    proof (cases "i \<in> T \<and> \<not> ?g t")
      case True
      with all move have "spends k ?w w'" by auto
      then have "dead k s'" by (rule spends_dead [OF inv _ _ runs(6,7)]) simp
      with all inv' T show ?thesis by (auto simp: racing_def runs(2) at intro!: exI [of _ i])
    next
      case False
      with all inv' T show ?thesis by (auto simp: racing_def runs(2) at)
    qed
  next
    case False
    then obtain j where d: "dead k s" and j: "\<forall>i \<in> T - {j}. ?g (fst (ts ! i))"
      using assms(2) by (auto simp: racing_def runs(1))
    have "?g t" if "i \<in> T - {j}"
      using move j that dead_spends [OF d, of ?w w'] by auto
    with j on [OF d] inv' T show ?thesis by (auto simp: racing_def runs(2) at intro!: exI [of _ j])
  qed
qed

lemma at_most_one_passes:
  assumes "inv s" and "\<And>i. i \<in> T \<Longrightarrow> i < length ts \<and> gated (spends k) (\<lambda>_. False) (fst (ts ! i))"
    and "rtranclp (pool_step step db) (s, ts) (s', ts')"
    and "i \<in> T" and "fst (ts' ! i) = Done (Inl rep)" and "\<not> error_reply rep"
  shows "dead k s' \<and> (\<forall>j \<in> T. \<forall>rep'. j \<noteq> i \<longrightarrow> fst (ts' ! j) = Done (Inl rep') \<longrightarrow> error_reply rep')"
proof -
  have "racing k T (s, ts)" using assms(1,2) by (auto simp: racing_def)
  with assms(3) have race: "racing k T (s', ts')"
    by (induction rule: rtranclp_induct) (auto intro: racing_step)
  have "\<not> gated (spends k) (\<lambda>_. False) (fst (ts' ! i))"
    using assms(5,6) by (auto elim: gated_DoneE)
  with race assms(4) have d: "dead k s'" and
    rest: "\<forall>j \<in> T - {i}. gated (spends k) (\<lambda>_. False) (fst (ts' ! j))"
    unfolding racing_def by auto
  have "error_reply rep'" if "j \<in> T" "j \<noteq> i" "fst (ts' ! j) = Done (Inl rep')" for j rep'
  proof -
    have "gated (spends k) (\<lambda>_. False) (fst (ts' ! j))" using rest that by blast
    with that(3) show ?thesis by (auto elim: gated_DoneE)
  qed
  with d show ?thesis by blast
qed

end

section \<open>The secrets that are redeemed once\<close>

definition rotates :: "lib \<Rightarrow> string \<Rightarrow> world \<Rightarrow> world \<Rightarrow> bool" where
  "rotates H k w w' \<longleftrightarrow> (\<exists>x m iss. Rotate H x k m (wDB w) = (Inr iss, wDB w'))"

definition exchanges :: "lib \<Rightarrow> string \<Rightarrow> world \<Rightarrow> world \<Rightarrow> bool" where
  "exchanges H code w w' \<longleftrightarrow> (\<exists>x ac. ConsumeAuthCode H x code (wDB w) = (Inr ac, wDB w'))"

definition resets :: "lib \<Rightarrow> string \<Rightarrow> world \<Rightarrow> world \<Rightarrow> bool" where
  "resets H k w w' \<longleftrightarrow> (\<exists>x u. ConsumeToken H x PurposePasswordReset k (wDB w) = (Inr u, wDB w'))"

lemma rotates_spends:
  assumes "lineage_inv s" and "rotates H k w w'" and "wDB w = lDB s" and "rtranclp (session_step H) s t"
    and "lDB t = wDB w'"
  shows "spent_token H k t"
proof -
  obtain x m iss where "Rotate H x k m (wDB w) = (Inr iss, wDB w')" using assms(2) by (auto simp: rotates_def)
  then obtain row where row: "select_one (\<lambda>s. sTokenHash s = HashRefresh H k) (sessions (wDB w)) = Some row"
    "wDB w' = wDB w\<lparr>sessions := mark_used (sID row) (clk x 1) (sessions (wDB w)) @ [isSession iss]\<rparr>"
    by (rule Rotate_Inr)
  let ?row = "row\<lparr>sUsedAt := Some (clk x 1)\<rparr>"
  have lin: "lineage (lIDs t) (lHashes t) (sessions (lDB t))"
    using families.run_inv [OF assms(1,4)] by (simp add: lineage_inv_def)
  have "?row \<in> set (sessions (lDB t))" "sTokenHash ?row = HashRefresh H k"
    using select_one_Some [OF row(1)] row(2) assms(5) by (auto simp: mark_used_def mem_update_where)
  note r = this
  have "s = ?row" if "s \<in> set (sessions (lDB t))" "sTokenHash s = HashRefresh H k" for s
    using lineageD(4) [OF lin that(1) r(1)] that(2) r(2) by simp
  moreover have "HashRefresh H k \<in> lHashes t" using lineageD(1) [OF lin r(1)] r(2) by (simp add: issued_def)
  ultimately show ?thesis unfolding spent_token_def by fastforce
qed

interpretation refresh_pool: pool lineage_start "session_step H" lineage_inv "spent_token H" lDB "rotates H" for H
proof
  show "\<not> rotates H k w w'" if "spent_token H k s" "wDB w = lDB s" for k s w w'
    using that Rotate_spent unfolding rotates_def spent_token_def by (metis fst_conv old.sum.distinct(2))
qed (rule rotates_spends)

lemma exchanges_spends:
  assumes "secrets_inv s" and "exchanges H k w w'" and "wDB w = secDB s" and "rtranclp (flow_step H) s t"
    and "secDB t = wDB w'"
  shows "spent_code H k t"
proof -
  obtain x ac where "ConsumeAuthCode H x k (wDB w) = (Inr ac, wDB w')" using assms(2) by (auto simp: exchanges_def)
  then obtain row where row: "row \<in> set (auth_codes (wDB w))" "aCodeHash row = hashCode H k"
    "auth_codes (wDB w') = update_where (\<lambda>r. aCodeHash r = aCodeHash row) (\<lambda>r. r\<lparr>aConsumedAt := Some (clk x 1)\<rparr>)
      (auth_codes (wDB w))"
    by (cases rule: ConsumeAuthCode_cases) auto
  have "tracked aCodeHash (codeHashes t) (auth_codes (wDB w'))"
    using flow_states.run_inv [OF assms(1,4)] assms(5) by (simp add: secrets_inv_def)
  with row show ?thesis
    by (auto simp: spent_code_def spent_rows_def assms(5) tracked_def ball_update_where)
qed

interpretation exchange_pool: pool secrets_start "flow_step H" secrets_inv "spent_code H" secDB "exchanges H" for H
proof
  show "\<not> exchanges H k w w'" if "spent_code H k s" "wDB w = secDB s" for k s w w'
    using that spent_code_refused [of H k s] unfolding exchanges_def redeem_code_def
    by (metis fst_conv old.sum.distinct(2))
qed (rule exchanges_spends)

lemma resets_spends:
  assumes "otp_inv s" and "resets H k w w'" and "wDB w = otpDB s" and "rtranclp (otp_step H) s t"
    and "otpDB t = wDB w'"
  shows "spent_otp H PurposePasswordReset k t"
proof -
  obtain x u where "ConsumeToken H x PurposePasswordReset k (wDB w) = (Inr u, wDB w')"
    using assms(2) by (auto simp: resets_def)
  then obtain row where row: "row \<in> set (otp_codes (wDB w))" "otp_key row = (hashCode H k, PurposePasswordReset)"
    "otp_codes (wDB w') = update_where (\<lambda>r. oID r = oID row) (\<lambda>r. r\<lparr>oConsumedAt := Some (clk x 1)\<rparr>)
      (otp_codes (wDB w))"
    by (cases rule: ConsumeToken_cases) (auto simp: otp_key_def)
  have ok: "otp_rows_ok (otpKeys t) (otp_codes (wDB w'))"
    using email_tokens.run_inv [OF assms(1,4)] assms(5) by (simp add: otp_inv_def)
  let ?row = "row\<lparr>oConsumedAt := Some (clk x 1)\<rparr>"
  have r: "?row \<in> set (otp_codes (wDB w'))" using row by (auto simp: mem_update_where)
  have key: "otp_key ?row = (hashCode H k, PurposePasswordReset)" "oPurpose ?row \<noteq> PurposeLoginOTP"
    using row(2) by (simp_all add: otp_key_def)
  have "(hashCode H k, PurposePasswordReset) \<in> otpKeys t"
    using ok r key(1) unfolding otp_rows_ok_def tracked_def by metis
  moreover have "oConsumedAt q \<noteq> None"
    if q: "q \<in> set (otp_codes (wDB w'))" "otp_key q = (hashCode H k, PurposePasswordReset)" for q
  proof -
    have "oID ?row = oID q" using ok r q key unfolding otp_rows_ok_def by metis
    then have "oID q = oID row" by simp
    moreover obtain p where "q = (if oID p = oID row then p\<lparr>oConsumedAt := Some (clk x 1)\<rparr> else p)"
      using q(1) unfolding row(3) mem_update_where by blast
    ultimately show ?thesis by (cases "oID p = oID row") simp_all
  qed
  ultimately show ?thesis by (simp add: spent_otp_def spent_rows_def assms(5))
qed

interpretation reset_pool: pool otp_start "otp_step H" otp_inv "spent_otp H PurposePasswordReset" otpDB "resets H" for H
proof
  show "\<not> resets H k w w'" if "spent_otp H PurposePasswordReset k s" "wDB w = otpDB s" for k s w w'
    using that spent_otp_refused [of H PurposePasswordReset k s] unfolding resets_def redeem_token_def
    by (metis fst_conv old.sum.distinct(2))
qed (rule resets_spends)

section \<open>Tasks behind their secret\<close>

lemma gated_skip: "refuses m \<Longrightarrow> (\<And>a. gated G P (f a)) \<Longrightarrow> gated G P (andthen (call m) f)"
  by (rule gated_andthen [OF gated_passes])

lemma gated_redeem:
  assumes "\<And>w. isl (fst (m (wDB w))) \<or> G w (w\<lparr>wDB := snd (m (wDB w))\<rparr>)" and "\<And>x. gated G P (f (Inl x))"
  shows "gated G P (andthen (call (run_db m)) f)"
proof (rule gated_andthen [where P = isl], rule gated_call)
  show "G w (snd (run_db m w)) \<or> (case fst (run_db m w) of Inl rep \<Rightarrow> error_reply rep | Inr a \<Rightarrow> isl a)" for w
    using assms(1) [of w] by (auto simp: run_db_def zoom_def case_prod_unfold)
qed (use assms(2) in \<open>auto simp: isl_def\<close>)

lemma redeems:
  "(\<And>x. gated (rotates H k) P (f (Inl x))) \<Longrightarrow> gated (rotates H k) P (andthen (call (run_db (Rotate H c k m))) f)"
  "(\<And>x. gated (exchanges H k) P (g (Inl x))) \<Longrightarrow> gated (exchanges H k) P (andthen (call (run_db (ConsumeAuthCode H c k))) g)"
  "(\<And>x. gated (resets H k) P (h (Inl x))) \<Longrightarrow>
   gated (resets H k) P (andthen (call (run_db (ConsumeToken H c PurposePasswordReset k))) h)"
  by (rule gated_redeem, simp add: rotates_def exchanges_def resets_def isl_def, metis prod.collapse sum.exhaust,
      assumption)+

lemma gated_refreshTask: "gated (rotates (srvLib S) (refreshTokenFrom S r)) P (refreshTask S e r)"
  unfolding refreshTask_def rotateTask_def Let_def
  by (rule gates redeems gated_skip gated_refuses refusal answering | (simp only: sum.distinct; fail))+

text \<open>The other two find their secret in the body, which is what \<open>decode\<close> makes of it.\<close>

lemma gated_decode:
  assumes "\<And>q. (\<exists>w. decode S r fs z w = (Inr q, w)) \<Longrightarrow> gated G P (f q)"
  shows "gated G P (andthen (call (decode S r fs z)) f)"
proof (rule gated_andthen [where P = "\<lambda>q. \<exists>w. decode S r fs z w = (Inr q, w)"], rule gated_call)
  fix w
  obtain v w' where v: "decode S r fs z w = (v, w')" by fastforce
  show "G w (snd (decode S r fs z w)) \<or> (case fst (decode S r fs z w) of Inl rep \<Rightarrow> error_reply rep |
      Inr q \<Rightarrow> \<exists>w. decode S r fs z w = (Inr q, w))"
  proof (cases v)
    case (Inl rep)
    with v refuses_decode [of S r fs z] show ?thesis by (auto simp: refuses_def)
  next
    case (Inr q)
    with v decode_Inr [of S r fs z w q w'] show ?thesis by auto
  qed
qed (rule assms)

lemma gated_exchangeTask:
  assumes "\<And>q w. decode S r exchangeReq_fields zero_exchangeReq w = (Inr q, w) \<Longrightarrow> xqCode q = k"
  shows "gated (exchanges (srvLib S) k) P (exchangeTask S e r)"
  unfolding exchangeTask_def
  by (rule gated_decode, elim exE, drule assms, hypsubst)
    (rule redeems gated_skip gates gated_refuses refusal answering | (simp only: sum.distinct; fail))+

lemma gated_resetTask:
  assumes "\<And>q w. decode S r resetReq_fields \<lparr>reToken = [], reNewPassword = []\<rparr> w = (Inr q, w) \<Longrightarrow> reToken q = k"
  shows "gated (resets (srvLib S) k) P (resetTask S e r)"
  unfolding resetTask_def
  by (rule gated_decode, elim exE, drule assms, hypsubst)
    (rule redeems gated_skip gates gated_refuses refusal answering | (simp only: sum.distinct; fail))+

section \<open>Calls the machine follows\<close>

text \<open>
  A step of a pool asks that the machine follows the call. With identifiers nobody drew before it
  always does: from \<open>s\<close> on, every call of the task can be followed, until it is done.
\<close>

inductive follows ::
  "('s \<Rightarrow> 's \<Rightarrow> bool) \<Rightarrow> ('s \<Rightarrow> DB) \<Rightarrow> ('s \<Rightarrow> 'a \<Rightarrow> bool) \<Rightarrow> 's \<Rightarrow> 'a task \<Rightarrow> bool" for step db Q where
  follows_Done: "(case v of Inl rep \<Rightarrow> True | Inr a \<Rightarrow> Q s a) \<Longrightarrow> follows step db Q s (Done v)"
| follows_Call: "(\<And>w. wDB w = db s \<Longrightarrow> \<exists>s'. rtranclp step s s' \<and> db s' = wDB (snd (f w)) \<and>
     follows step db Q s' (fst (f w))) \<Longrightarrow> follows step db Q s (Call f)"

lemma follows_andthen:
  "follows step db Q s t \<Longrightarrow> (\<And>s a. Q s a \<Longrightarrow> follows step db R s (k a)) \<Longrightarrow> follows step db R s (andthen t k)"
proof (induction rule: follows.induct)
  case (follows_Done v s)
  then show ?case by (cases v) (auto intro: follows.intros)
next
  case (follows_Call s f)
  then show ?case by (fastforce simp: case_prod_unfold intro: follows.follows_Call)
qed

lemma follows_call:
  assumes "\<And>w. wDB w = db s \<Longrightarrow> \<exists>s'. rtranclp step s s' \<and> db s' = wDB (snd (m w)) \<and>
    (case fst (m w) of Inl rep \<Rightarrow> True | Inr a \<Rightarrow> Q s' a)"
  shows "follows step db Q s (call m)"
  unfolding call_def using assms by (fastforce intro: follows.intros)

lemma follows_branches:
  "follows step db Q s t \<Longrightarrow> follows step db Q s u \<Longrightarrow> follows step db Q s (if b then t else u)"
  "(\<And>x. follows step db Q s (l x)) \<Longrightarrow> (\<And>y. follows step db Q s (r y)) \<Longrightarrow>
   follows step db Q s (case z of Inl x \<Rightarrow> l x | Inr y \<Rightarrow> r y)"
  "follows step db Q s t \<Longrightarrow> (\<And>y. follows step db Q s (n y)) \<Longrightarrow>
   follows step db Q s (case v of None \<Rightarrow> t | Some y \<Rightarrow> n y)"
  "follows step db Q s (k v') \<Longrightarrow> follows step db Q s (Let v' k)"
  by (simp_all split: sum.split option.split)

text \<open>Some calls ahead, and all of them.\<close>

primrec ahead :: "nat \<Rightarrow> 'a task \<Rightarrow> world \<Rightarrow> 'a task \<times> world" where
  "ahead 0 t w = (t, w)"
| "ahead (Suc n) t w = (case t of Done v \<Rightarrow> (t, w) | Call f \<Rightarrow> (case f w of (t', w') \<Rightarrow> ahead n t' w'))"

lemma ahead_alone: "alone t w = (v, w') \<Longrightarrow> \<exists>n. ahead n t w = (Done v, w')"
proof (induction t arbitrary: w rule: task_induct)
  case (Done u)
  then show ?case by (intro exI [of _ 0]) simp
next
  case (Call f)
  then have "alone (fst (f w)) (snd (f w)) = (v, w')" by (simp add: case_prod_unfold)
  then obtain n where "ahead n (fst (f w)) (snd (f w)) = (Done v, w')" using Call(1) by blast
  then show ?case by (intro exI [of _ "Suc n"]) (simp add: case_prod_unfold)
qed

lemma alone_ahead: "ahead n t w = (t', w') \<Longrightarrow> alone t w = alone t' w'"
  by (induction n arbitrary: t w) (auto split: task.splits prod.splits)

lemma pool_ahead:
  assumes "follows step db Q s t" and "ahead n t w = (t', w')" and "wDB w = db s"
    and "i < length ts" and "ts ! i = (t, w)"
  shows "\<exists>s'. rtranclp (pool_step step db) (s, ts) (s', ts[i := (t', w')]) \<and> db s' = wDB w' \<and>
    rtranclp step s s' \<and> follows step db Q s' t'"
  using assms
proof (induction n arbitrary: s t w ts)
  case 0
  then have "ts[i := (t', w')] = ts" by (metis ahead.simps(1) list_update_id)
  with 0 show ?case by auto
next
  case (Suc n)
  show ?case
  proof (cases t)
    case (Done v)
    with Suc.prems have "ts[i := (t', w')] = ts" by (metis ahead.simps(2) list_update_id task.case(1))
    with Suc.prems Done show ?thesis by auto
  next
    case (Call f)
    from Suc.prems(1)[unfolded Call] obtain s1 where s1: "rtranclp step s s1" "db s1 = wDB (snd (f w))"
      "follows step db Q s1 (fst (f w))"
      by cases (use Suc.prems(3) in blast)
    let ?ts = "ts[i := f w]"
    have "w\<lparr>wDB := db s\<rparr> = w" using Suc.prems(3) by simp
    then have "pool_step step db (s, ts) (s1, ?ts)"
      using pool_step.runs [OF Suc.prems(4), of f w db s "fst (f w)" "snd (f w)" step s1] Suc.prems(5) Call s1 by simp
    moreover have "\<exists>s'. rtranclp (pool_step step db) (s1, ?ts) (s', ?ts[i := (t', w')]) \<and> db s' = wDB w' \<and>
        rtranclp step s1 s' \<and> follows step db Q s' t'"
      using Suc.prems(2,4) Call s1 by (intro Suc.IH [of s1 "fst (f w)" "snd (f w)"]) (auto simp: case_prod_unfold)
    ultimately show ?thesis
      using s1(1) by (auto intro: converse_rtranclp_into_rtranclp rtranclp_trans)
  qed
qed

lemma pool_alone:
  assumes "follows step db Q s t" and "alone t (w\<lparr>wDB := db s\<rparr>) = (v, w')" and "t = Call f"
    and "i < length ts" and "ts ! i = (t, w)"
  shows "\<exists>s'. rtranclp (pool_step step db) (s, ts) (s', ts[i := (Done v, w')]) \<and> db s' = wDB w' \<and> rtranclp step s s'"
proof -
  let ?w = "w\<lparr>wDB := db s\<rparr>"
  from assms(1)[unfolded assms(3)] obtain s1 where s1: "rtranclp step s s1" "db s1 = wDB (snd (f ?w))"
    "follows step db Q s1 (fst (f ?w))"
    by cases (drule meta_spec [of _ ?w], auto)
  have "pool_step step db (s, ts) (s1, ts[i := f ?w])"
    using pool_step.runs [OF assms(4), of f w db s "fst (f ?w)" "snd (f ?w)" step s1] assms(3,5) s1 by simp
  moreover obtain n where "ahead n (fst (f ?w)) (snd (f ?w)) = (Done v, w')"
    using ahead_alone [of "fst (f ?w)" "snd (f ?w)" v w'] assms(2,3) by (auto simp: case_prod_unfold)
  then obtain s2 where "rtranclp (pool_step step db) (s1, ts[i := f ?w]) (s2, ts[i := f ?w, i := (Done v, w')])"
    "db s2 = wDB w'" "rtranclp step s1 s2"
    using pool_ahead [OF s1(3), of n "snd (f ?w)" "Done v" w' i "ts[i := f ?w]"] assms(4) s1(2) by auto
  ultimately show ?thesis
    using s1(1) by (auto intro: converse_rtranclp_into_rtranclp rtranclp_trans)
qed

section \<open>The calls of the tasks\<close>

definition quiet :: "'a handler \<Rightarrow> bool" where
  "quiet m \<longleftrightarrow> (\<forall>ss. kept (on_db (\<lambda>db. sessions db = ss)) m)"

lemma quietI: "(\<And>ss. kept (on_db (\<lambda>db. sessions db = ss)) m) \<Longrightarrow> quiet m"
  by (simp add: quiet_def)

lemma quietD: "quiet m \<Longrightarrow> sessions (wDB (snd (m w))) = sessions (wDB w)"
  by (auto simp: quiet_def kept_def on_db_def)

lemma quiet_calls:
  "quiet (writeErr st c msg)" "quiet (writeJSON st v)" "quiet internal" "quiet (read_db f)" "quiet (decode S r fs z)"
  "quiet (limit e site b n win)" "quiet (lookupClient e i)" "quiet (authenticate_client S e q)"
  "quiet (clearRefreshCookie S)" "quiet (respondWithTokens S e u a iss)" "quiet (answer_tokens n t)"
  "quiet (run_db (ConsumeAuthCode H x code))" "quiet (run_db (ConsumeToken H x p tk))"
  "quiet (run_db (SetPasswordHash x ui h))"
  unfolding decode_def limit_def lookupClient_def authenticate_client_def clearRefreshCookie_def
    respondWithTokens_def setRefreshCookie_def answer_tokens_def
  by (rule quietI, (rule keeps | (simp add: frame; fail))+)+

lemma quiet_seq: "quiet m \<Longrightarrow> (\<And>a. quiet (f a)) \<Longrightarrow> quiet (seq m f)"
  by (simp add: quiet_def kept_seq)

lemma quiet_if: "quiet m \<Longrightarrow> quiet n \<Longrightarrow> quiet (if b then m else n)"
  by simp

lemmas quiets = quiet_calls quiet_seq quiet_if

lemma idle_step: "sessions db = sessions (lDB g) \<Longrightarrow> session_step H g (g\<lparr>lDB := db\<rparr>)"
  using session_step.other [of db g "lIDs g" "lHashes g" H] by (cases g) simp

abbreviation "session_follows H \<equiv> follows (session_step H) lDB"

text \<open>A condition on what was drawn before does not depend on the database.\<close>

lemma quiet_follows:
  assumes "quiet m" and "N g" and "\<And>db. N g \<Longrightarrow> sessions db = sessions (lDB g) \<Longrightarrow> N (g\<lparr>lDB := db\<rparr>)"
  shows "session_follows H (\<lambda>g _. N g) g (call m)"
proof (rule follows_call)
  fix w :: world assume w: "wDB w = lDB g"
  let ?g = "g\<lparr>lDB := wDB (snd (m w))\<rparr>"
  have "session_step H g ?g" by (rule idle_step) (simp add: quietD [OF assms(1)] w)
  then show "\<exists>s'. rtranclp (session_step H) g s' \<and> lDB s' = wDB (snd (m w)) \<and>
      (case fst (m w) of Inl rep \<Rightarrow> True | Inr a \<Rightarrow> N s')"
    using assms(2,3) quietD [OF assms(1), of w] w
    by (intro exI [of _ ?g]) (simp add: r_into_rtranclp split: sum.split)
qed

lemma quiet_then:
  assumes "quiet m" and "N g" and "\<And>g a. N g \<Longrightarrow> session_follows H R g (k a)"
    and "\<And>g db. N g \<Longrightarrow> sessions db = sessions (lDB g) \<Longrightarrow> N (g\<lparr>lDB := db\<rparr>)"
  shows "session_follows H R g (andthen (call m) k)"
  by (rule follows_andthen [OF quiet_follows [of m N g]]) (use assms in auto)

lemmas quiet_rest = quiet_then [where N = "\<lambda>_. True", OF _ TrueI]

lemma quiet_last: "quiet m \<Longrightarrow> session_follows H (\<lambda>_ _. True) g (call m)"
  by (rule quiet_follows [where N = "\<lambda>_. True"]) simp_all

lemma drawing_follows:
  assumes "new_ctx H x g"
  shows "session_follows H (\<lambda>_ _. True) g (call (run_db (Rotate H x k meta)))"
    and "session_follows H (\<lambda>_ _. True) g (call (run_db (CreateSession H x u c meta)))"
  by (rule follows_call, rule exI, rule conjI, rule r_into_rtranclp, rule lineage_draws [OF assms],
      simp add: run_db_def zoom_def case_prod_unfold split: sum.split)+

lemma revoking_follows: "session_follows H (\<lambda>_ _. True) g (call (run_db (RevokeAllForUser x u)))"
  by (rule follows_call, rule exI, rule conjI, rule r_into_rtranclp,
      rule session_step.revoke_user [OF prod.collapse [symmetric]])
    (simp add: run_db_def zoom_def case_prod_unfold split: sum.split)

lemma new_ctx_DB: "new_ctx H x g \<Longrightarrow> new_ctx H x (g\<lparr>lDB := db\<rparr>)"
  by (simp add: new_ctx_def split: sum.splits)

lemma refreshed_follows: "session_follows H (\<lambda>_ _. True) g (refreshedTask S e iss)"
  unfolding refreshedTask_def
  by (rule quiet_rest follows_branches quiet_last quiets follows_andthen [OF revoking_follows] TrueI)+

lemma refresh_follows:
  assumes "new_ctx (srvLib S) (ctx e ''Rotate'') g"
  shows "session_follows (srvLib S) (\<lambda>_ _. True) g (refreshTask S e r)"
  unfolding refreshTask_def rotateTask_def Let_def
  by (rule follows_branches quiet_last quiets | rule quiet_then [where N = "new_ctx (srvLib S) (ctx e ''Rotate'')"]
      follows_andthen [OF drawing_follows(1)] refreshed_follows new_ctx_DB assms | assumption)+

lemma reset_follows: "session_follows (srvLib S) (\<lambda>_ _. True) g (resetTask S e r)"
  unfolding resetTask_def
  by (rule follows_branches quiet_rest quiet_last quiets follows_andthen [OF revoking_follows] TrueI)+

lemma exchange_follows:
  assumes "new_ctx (srvLib S) (ctx e ''CreateSession'') g"
  shows "session_follows (srvLib S) (\<lambda>_ _. True) g (exchangeTask S e r)"
  unfolding exchangeTask_def
  by (rule follows_branches quiet_last quiets follows_andthen [OF drawing_follows(2)] |
      rule quiet_then [where N = "new_ctx (srvLib S) (ctx e ''CreateSession'')"] new_ctx_DB assms | assumption)+

text \<open>A rotation that is refused draws nothing, so it can always be followed.\<close>

lemma refused_rotation:
  assumes "Rotate H x k m (lDB g) = (Inl err, db')"
  shows "session_step H g (g\<lparr>lDB := db'\<rparr>)"
proof (cases "err = ErrTokenReuse")
  case True
  with assms obtain row :: Session where "db' = revoke_where (\<lambda>s. sFamilyID s = sFamilyID row) (clk x 0) (lDB g)"
    by (auto elim: Rotate_reuse)
  then have "RevokeFamily (x\<lparr>flt := \<lambda>_. False\<rparr>) (sFamilyID row) (lDB g) = (Inr (), db')"
    by (simp add: RevokeFamily_def)
  then show ?thesis by (rule session_step.revoke_family)
next
  case False
  with assms have "db' = lDB g" using Rotate_other by metis
  then show ?thesis by (intro idle_step) simp
qed

lemma spent_rotate_follows:
  assumes "spent_token (srvLib S) k g"
  shows "session_follows (srvLib S) (\<lambda>_ _. True) g (rotateTask S e r k)"
  unfolding rotateTask_def
proof (rule follows_andthen [where Q = "\<lambda>_ _. True"], rule follows_call)
  fix w :: world assume w: "wDB w = lDB g"
  obtain res db' where run: "Rotate (srvLib S) (ctx e ''Rotate'') k (session_meta r) (lDB g) = (res, db')" by fastforce
  with Rotate_spent assms obtain err where "res = Inl err"
    unfolding spent_token_def by (metis fst_conv)
  with run refused_rotation have "session_step (srvLib S) g (g\<lparr>lDB := db'\<rparr>)" by blast
  with run w show "\<exists>s'. rtranclp (session_step (srvLib S)) g s' \<and>
      lDB s' = wDB (snd (run_db (Rotate (srvLib S) (ctx e ''Rotate'') k (session_meta r)) w)) \<and>
      (case fst (run_db (Rotate (srvLib S) (ctx e ''Rotate'') k (session_meta r)) w) of Inl rep \<Rightarrow> True | Inr a \<Rightarrow> True)"
    by (intro exI [of _ "g\<lparr>lDB := db'\<rparr>"]) (simp add: run_db_def zoom_def r_into_rtranclp split: sum.split)
qed (rule follows_branches quiet_last quiets refreshed_follows)+

section \<open>Properties\<close>

text \<open>C2: of any number of requests that present one refresh token at the same time, their calls of the
  store in any order and anything else done to the store in between, at most one is answered with
  tokens; every other one that is answered is answered with an error, and the token is spent.\<close>

theorem concurrent_refreshes:
  assumes "lineage_inv g"
    and "\<And>i. i \<in> T \<Longrightarrow> i < length ts \<and> (\<exists>e r. fst (ts ! i) = refreshTask S e r \<and> refreshTokenFrom S r = k)"
    and "rtranclp (pool_step (session_step (srvLib S)) lDB) (g, ts) (g', ts')"
    and "i \<in> T" and "fst (ts' ! i) = Done (Inl rep)" and "\<not> error_reply rep"
  shows "spent_token (srvLib S) k g' \<and>
    (\<forall>j \<in> T. \<forall>rep'. j \<noteq> i \<longrightarrow> fst (ts' ! j) = Done (Inl rep') \<longrightarrow> error_reply rep')"
  by (rule refresh_pool.at_most_one_passes [OF assms(1) _ assms(3-6)], drule assms(2)) (auto intro: gated_refreshTask)

text \<open>Two refreshes with the token of the example: the second passes the limiter, the first runs to its
  end, then the second goes on.\<close>

lemma andthen_call:
  "andthen (call m) k = Call (\<lambda>w. (case fst (m w) of Inl rep \<Rightarrow> Done (Inl rep) | Inr a \<Rightarrow> k a, snd (m w)))"
  by (simp add: call_def fun_eq_iff map_prod_def case_prod_unfold)

lemma demo_limit_again:
  "rate_limits (wDB w) = [\<lparr>rBucket = b, rWindowStart = Truncate 20 win, rCount = 1\<rparr>] \<Longrightarrow> 2 \<le> n \<Longrightarrow>
   limit demo_env site b n win w =
     (Inr (), w\<lparr>wDB := wDB w\<lparr>rate_limits := [\<lparr>rBucket = b, rWindowStart = Truncate 20 win, rCount = 2\<rparr>]\<rparr>\<rparr>)"
  by (simp add: limit_def run_db_def zoom_def Allow_def Let_def seq_def in_window_def demo_env_def max_int4_def)

definition one_counted :: DB where
  "one_counted = demo_db\<lparr>rate_limits := [\<lparr>rBucket = ''refresh:ip:'' @ clientIP refresh_request,
     rWindowStart = Truncate 20 hour, rCount = 1\<rparr>]\<rparr>"

lemma counted_refresh: "\<exists>t w1. handleRefresh (demo_server JNull None) demo_env refresh_request (on_world one_counted) =
    (Inl (Reply 200 (Tokens t)), w1)"
  by (simp add: handleRefresh_def refreshTokenFrom_def refresh_request_def seq_def demo_limit_again run_db_def
      zoom_def Rotate_def session_examples refreshed_def read_db_def UserByID_def scanUser_def ClientByID_def
      one_counted_def demo_db_def demo_user_def demo_client_def respondWithTokens_def SignAccess_def easy_jwx_def
      setRefreshCookie_def set_cookie_def answer_tokens_def writeJSON_def)

lemma answers_rotateTask: "answers (alone (rotateTask S e r k))"
  unfolding rotateTask_def
  by (simp only: alone_rules alone_refreshed) (unfold refreshed_def, (rule answering | assumption)+)

definition first_thread :: thread where
  "first_thread = (refreshTask (demo_server JNull None) demo_env refresh_request, on_world demo_db)"

lemma first_thread_call:
  "\<exists>f. first_thread = (Call f, on_world demo_db) \<and> f (on_world demo_db) =
     (rotateTask (demo_server JNull None) demo_env refresh_request (tok CHR ''a''), on_world one_counted)"
proof -
  let ?S = "demo_server JNull None"
  have raw: "refreshTokenFrom ?S refresh_request = tok CHR ''a''"
    by (simp add: refreshTokenFrom_def refresh_request_def)
  have "limit demo_env ''limit ip'' (''refresh:ip:'' @ clientIP refresh_request) 120 hour (on_world demo_db) =
      (Inr (), on_world one_counted)"
    by (subst demo_limit) (simp_all add: demo_db_def one_counted_def on_world_def)
  then show ?thesis
    unfolding first_thread_def refreshTask_def Let_def raw by (simp add: andthen_call)
qed

abbreviation late_thread :: thread where
  "late_thread \<equiv> (rotateTask (demo_server JNull None) demo_env refresh_request (tok CHR ''a''), on_world one_counted)"

abbreviation demo_pool :: "lineage_state \<times> thread list \<Rightarrow> lineage_state \<times> thread list \<Rightarrow> bool" where
  "demo_pool \<equiv> rtranclp (pool_step (session_step plain) lDB)"

lemma first_thread_ends:
  "\<exists>g t w. demo_pool (lineage_of demo_history, [first_thread, first_thread])
     (g, [(Done (Inl (Reply 200 (Tokens t))), w), late_thread])"
proof -
  let ?S = "demo_server JNull None" and ?g = "lineage_of demo_history"
  let ?g1 = "?g\<lparr>lDB := one_counted\<rparr>" and ?ts = "[first_thread, first_thread]" and ?ts1 = "[first_thread, late_thread]"
  obtain f where f: "first_thread = (Call f, on_world demo_db)" "f (on_world demo_db) = late_thread"
    using first_thread_call by blast
  have w: "on_world demo_db\<lparr>wDB := demo_db\<rparr> = on_world demo_db" by (simp add: on_world_def)
  have "session_step plain ?g ?g1" by (rule idle_step) (simp add: one_counted_def)
  then have run: "pool_step (session_step plain) lDB (?g, ?ts) (?g1, ?ts1)"
    using pool_step.runs [of 1 ?ts f "on_world demo_db" lDB ?g "fst late_thread" "on_world one_counted" "session_step plain" ?g1]
      f w by (simp add: r_into_rtranclp)
  have "new_ctx plain (ctx demo_env ''Rotate'') ?g1"
    by (rule unused_new_ctx [OF demo_unused]) simp
  then have fol: "session_follows plain (\<lambda>_ _. True) ?g1 (fst first_thread)"
    using refresh_follows [of ?S demo_env ?g1 refresh_request] by (simp add: first_thread_def)
  obtain t w' where "handleRefresh ?S demo_env refresh_request (on_world one_counted) = (Inl (Reply 200 (Tokens t)), w')"
    using counted_refresh by blast
  then have alone: "alone (fst first_thread) (on_world demo_db\<lparr>wDB := lDB ?g1\<rparr>) = (Inl (Reply 200 (Tokens t)), w')"
    by (simp add: first_thread_def alone_tasks on_world_def)
  have at: "0 < length ?ts1" "?ts1 ! 0 = (fst first_thread, on_world demo_db)" "fst first_thread = Call f"
    by (simp_all add: f(1))
  obtain g where "demo_pool (?g1, ?ts1) (g, [(Done (Inl (Reply 200 (Tokens t))), w'), late_thread])"
    using pool_alone [OF fol alone at(3,1,2)] by auto
  with run show ?thesis by (blast intro: converse_rtranclp_into_rtranclp)
qed

text \<open>What the late one is answered with, whatever it is.\<close>

lemma late_thread_ends:
  assumes "spent_token plain (tok CHR ''a'') g"
  shows "\<exists>g' rep w. demo_pool (g, [x, late_thread]) (g', [x, (Done (Inl rep), w)])"
proof -
  let ?t = "fst late_thread"
  have fol: "session_follows plain (\<lambda>_ _. True) g ?t"
    using spent_rotate_follows [of "demo_server JNull None" _ g] assms by simp
  obtain v w where v: "alone ?t (on_world one_counted\<lparr>wDB := lDB g\<rparr>) = (v, w)" by fastforce
  then obtain rep where rep: "v = Inl rep"
    using answers_rotateTask [of "demo_server JNull None" demo_env refresh_request]
    by (auto simp: answers_def isl_def) (metis fst_conv)
  obtain h where h: "?t = Call h" by (simp add: rotateTask_def andthen_call)
  show ?thesis using pool_alone [OF fol v h, of 1 "[x, late_thread]"] rep by auto
qed

theorem concurrent_refreshes_witness:
  "\<exists>g ts t rep. rtranclp (pool_step (session_step plain) lDB) (lineage_of demo_history, [first_thread, first_thread]) (g, ts) \<and>
     fst (ts ! 0) = Done (Inl (Reply 200 (Tokens t))) \<and> fst (ts ! 1) = Done (Inl rep) \<and> error_reply rep"
proof -
  let ?S = "demo_server JNull None" and ?k = "tok CHR ''a''" and ?start = "(lineage_of demo_history, [first_thread, first_thread])"
  obtain g2 t wA where run: "demo_pool ?start (g2, [(Done (Inl (Reply 200 (Tokens t))), wA), late_thread])"
    using first_thread_ends by blast
  have raw: "refreshTokenFrom ?S refresh_request = ?k"
    by (simp add: refreshTokenFrom_def refresh_request_def)
  have asked: "i < length [first_thread, first_thread] \<and> (\<exists>e r. fst ([first_thread, first_thread] ! i) =
      refreshTask ?S e r \<and> refreshTokenFrom ?S r = ?k)" if "i \<in> {0, 1}" for i :: nat
    using that raw by (intro conjI exI [of _ demo_env] exI [of _ refresh_request]) (auto simp: first_thread_def)
  have won: "spent_token plain ?k g' \<and> (\<forall>rep'. fst (ts' ! 1) = Done (Inl rep') \<longrightarrow> error_reply rep')"
    if "demo_pool ?start (g', ts')" "fst (ts' ! 0) = Done (Inl (Reply 200 (Tokens t)))" for g' ts'
  proof -
    have "spent_token (srvLib ?S) ?k g' \<and> (\<forall>j \<in> {0, 1}. \<forall>rep'. j \<noteq> 0 \<longrightarrow> fst (ts' ! j) = Done (Inl rep') \<longrightarrow>
        error_reply rep')"
      by (rule concurrent_refreshes [OF consistentD(3) [OF demo_consistent [of JNull None]] asked _ _ that(2)])
        (use that(1) in simp_all)
    then show ?thesis by simp
  qed
  have "spent_token plain ?k g2" using won [OF run] by simp
  then obtain g3 rep wB where "demo_pool (g2, [(Done (Inl (Reply 200 (Tokens t))), wA), late_thread])
      (g3, [(Done (Inl (Reply 200 (Tokens t))), wA), (Done (Inl rep), wB)])"
    using late_thread_ends by blast
  with run have end': "demo_pool ?start (g3, [(Done (Inl (Reply 200 (Tokens t))), wA), (Done (Inl rep), wB)])"
    by (rule rtranclp_trans)
  then have "error_reply rep" using won [OF end'] by simp
  with end' show ?thesis by fastforce
qed

text \<open>Likewise of the requests that present one authorization code.\<close>

theorem concurrent_exchanges:
  assumes "secrets_inv g"
    and "\<And>i. i \<in> T \<Longrightarrow> i < length ts \<and> (\<exists>e r. fst (ts ! i) = exchangeTask S e r \<and>
      (\<forall>q w. decode S r exchangeReq_fields zero_exchangeReq w = (Inr q, w) \<longrightarrow> xqCode q = k))"
    and "rtranclp (pool_step (flow_step (srvLib S)) secDB) (g, ts) (g', ts')"
    and "i \<in> T" and "fst (ts' ! i) = Done (Inl rep)" and "\<not> error_reply rep"
  shows "spent_code (srvLib S) k g' \<and>
    (\<forall>j \<in> T. \<forall>rep'. j \<noteq> i \<longrightarrow> fst (ts' ! j) = Done (Inl rep') \<longrightarrow> error_reply rep')"
  by (rule exchange_pool.at_most_one_passes [OF assms(1) _ assms(3-6)], drule assms(2))
    (elim conjE exE, simp, rule gated_exchangeTask, blast)

text \<open>And of those that present one reset token.\<close>

theorem concurrent_resets:
  assumes "otp_inv g"
    and "\<And>i. i \<in> T \<Longrightarrow> i < length ts \<and> (\<exists>e r. fst (ts ! i) = resetTask S e r \<and>
      (\<forall>q w. decode S r resetReq_fields \<lparr>reToken = [], reNewPassword = []\<rparr> w = (Inr q, w) \<longrightarrow> reToken q = k))"
    and "rtranclp (pool_step (otp_step (srvLib S)) otpDB) (g, ts) (g', ts')"
    and "i \<in> T" and "fst (ts' ! i) = Done (Inl rep)" and "\<not> error_reply rep"
  shows "spent_otp (srvLib S) PurposePasswordReset k g' \<and>
    (\<forall>j \<in> T. \<forall>rep'. j \<noteq> i \<longrightarrow> fst (ts' ! j) = Done (Inl rep') \<longrightarrow> error_reply rep')"
  by (rule reset_pool.at_most_one_passes [OF assms(1) _ assms(3-6)], drule assms(2))
    (elim conjE exE, simp, rule gated_resetTask, blast)

end
