(* ===== verification/Overlaps.thy ===== *)
theory Overlaps
  imports Interleaving
begin

text \<open>
  Handlers that overlap, with nothing else in between: a schedule says whose turn it is. A login that
  has read the old password before a reset gets its session after it.
\<close>

section \<open>Schedules\<close>

definition take_turn :: "nat \<Rightarrow> DB \<times> thread list \<Rightarrow> DB \<times> thread list" where
  "take_turn i = (\<lambda>(db, ts).
     let (t, w) = ts ! i; (t', w') = ahead 1 t (w\<lparr>wDB := db\<rparr>) in (wDB w', ts[i := (t', w')]))"

lemma turns_ahead:
  assumes "ahead n t (w\<lparr>wDB := db\<rparr>) = (t', w')" and "0 < n" and "i < length ts" and "ts ! i = (t, w)"
  shows "fold take_turn (replicate n i) (db, ts) = (wDB w', ts[i := (t', w')])"
  using assms
proof (induction n arbitrary: t w db ts)
  case (Suc n)
  obtain t1 w1 where one: "ahead 1 t (w\<lparr>wDB := db\<rparr>) = (t1, w1)" by fastforce
  then have rest: "ahead n t1 w1 = (t', w')"
    using Suc.prems(1) by (cases t) (auto split: prod.splits, cases n, auto)
  show ?case
  proof (cases n)
    case 0
    with rest one Suc.prems show ?thesis by (simp add: take_turn_def)
  next
    case (Suc m)
    have "fold take_turn (replicate n i) (wDB w1, ts[i := (t1, w1)]) = (wDB w', ts[i := (t1, w1), i := (t', w')])"
      by (rule Suc.IH) (use rest Suc Suc.prems in simp_all)
    with one Suc.prems show ?thesis by (simp add: take_turn_def)
  qed
qed simp

lemma ahead_andthen: "alone t w = (Inr a, w') \<Longrightarrow> \<exists>n. ahead n (andthen t k) w = (k a, w')"
proof (induction t arbitrary: w rule: task_induct)
  case (Done v)
  then show ?case by (intro exI [of _ 0]) simp
next
  case (Call f)
  then have "alone (fst (f w)) (snd (f w)) = (Inr a, w')" by (simp add: case_prod_unfold)
  then obtain n where "ahead n (andthen (fst (f w)) k) (snd (f w)) = (k a, w')" using Call(1) by blast
  then show ?case by (intro exI [of _ "Suc n"]) (simp add: case_prod_unfold)
qed

lemma alone_turns:
  assumes "alone t (w\<lparr>wDB := db\<rparr>) = (v, w')" and "t = Call f" and "i < length ts" and "ts ! i = (t, w)"
  shows "\<exists>n. fold take_turn (replicate n i) (db, ts) = (wDB w', ts[i := (Done v, w')])"
proof -
  obtain n where n: "ahead n t (w\<lparr>wDB := db\<rparr>) = (Done v, w')" using ahead_alone [OF assms(1)] by blast
  moreover from this assms(2) have "0 < n" by (cases n) simp_all
  ultimately show ?thesis using turns_ahead assms(3,4) by blast
qed

section \<open>A login beside a reset\<close>

lemma issued_session:
  assumes "issueSession S e r u c w = (Inr (Some t), w')"
  obtains s :: Session where "sessions (wDB w') = sessions (wDB w) @ [s]" "sUserID s = uID u" "sClientID s = cID c"
    "sTokenHash s = HashRefresh (srvLib S) (trRefreshToken t)" "sRevokedAt s = None" "sUsedAt s = None"
proof -
  obtain iss where iss: "trRefreshToken t = RefreshToken iss"
    "CreateSession (srvLib S) (ctx e ''CreateSession'') (uID u) (cID c) (session_meta r) (wDB w) = (Inr iss, wDB w')"
    using assms by (rule issueSession_Some)
  note ins = insertSession_Inr [OF iss(2) [unfolded CreateSession_def Let_def]]
  show thesis by (rule that [of "isSession iss"]) (simp_all add: ins(2,4) iss(1))
qed

text \<open>C28: a login that has checked the password when a reset comes in between is not affected by it: however
  complete the reset, and although it ends every session of the account, the login is answered with
  tokens of a new session, alive, beside those the reset has left.\<close>

theorem login_outlives_reset:
  assumes "alone (checkLogin S e r) w = (Inr (u, client), w1)"
    and "handlePasswordReset S e2 r2 (v\<lparr>wDB := wDB w1\<rparr>) = (Inl rep, v1)"
    and "issueSession S e r u client (w1\<lparr>wDB := wDB v1\<rparr>) = (Inr (Some t), w2)"
  shows "\<exists>schedule s. fold take_turn schedule (wDB w, [(loginTask S e r, w), (resetTask S e2 r2, v)]) =
      (wDB w2, [(Done (Inl (Reply 200 (Tokens t))), w2), (Done (Inl rep), v1)]) \<and>
    sessions (wDB w2) = sessions (wDB v1) @ [s] \<and> sUserID s = uID u \<and> sRevokedAt s = None \<and> sUsedAt s = None \<and>
    sTokenHash s = HashRefresh (srvLib S) (trRefreshToken t)"
proof -
  let ?issue = "call (seq (issueSession S e r u client) (answer_tokens 200))"
  let ?login = "loginTask S e r" and ?reset = "resetTask S e2 r2"
  obtain n where "ahead n ?login w = (?issue, w1)"
    using ahead_andthen [OF assms(1), of "\<lambda>(u, c). call (seq (issueSession S e r u c) (answer_tokens 200))"]
    unfolding loginTask_def by auto
  then have login: "fold take_turn (replicate n 0) (wDB w, [(?login, w), (?reset, v)]) = (wDB w1, [(?issue, w1), (?reset, v)])"
    using turns_ahead [of n ?login "wDB w" w ?issue w1 0] by (cases n) simp_all
  obtain f where f: "?reset = Call f" by (simp add: resetTask_def andthen_call)
  have "alone ?reset (v\<lparr>wDB := wDB w1\<rparr>) = (Inl rep, v1)" using assms(2) by (simp add: alone_tasks)
  then obtain m where reset: "fold take_turn (replicate m 1) (wDB w1, [(?issue, w1), (?reset, v)]) =
      (wDB v1, [(?issue, w1), (Done (Inl rep), v1)])"
    using alone_turns [OF _ f, of "wDB w1" v "Inl rep" v1 1 "[(?issue, w1), (?reset, v)]"] by auto
  have "alone ?issue (w1\<lparr>wDB := wDB v1\<rparr>) = (Inl (Reply 200 (Tokens t)), w2)"
    using assms(3) by (simp add: alone_call seq_def answer_tokens_def writeJSON_def)
  then obtain l where issue: "fold take_turn (replicate l 0) (wDB v1, [(?issue, w1), (Done (Inl rep), v1)]) =
      (wDB w2, [(Done (Inl (Reply 200 (Tokens t))), w2), (Done (Inl rep), v1)])"
    using alone_turns [of ?issue "wDB v1" w1 "Inl (Reply 200 (Tokens t))" w2 _ 0] by (fastforce simp: call_def)
  obtain s :: Session where "sessions (wDB w2) = sessions (wDB v1) @ [s]" "sUserID s = uID u" "sRevokedAt s = None"
    "sUsedAt s = None" "sTokenHash s = HashRefresh (srvLib S) (trRefreshToken t)"
    using issued_session [OF assms(3)] by auto
  with login reset issue show ?thesis
    by (intro exI [of _ "replicate n 0 @ replicate m 1 @ replicate l 0"] exI [of _ s]) simp
qed

text \<open>Ann's login reads the old password, a reset of her account is served, and the login goes on.\<close>

definition race_server :: server where
  "race_server = (demo_server login_body None)
     \<lparr>srvNext := \<lambda>s. if s = [] then JEnd else JValue (if hd s = CHR ''R'' then reset_body else login_body) []\<rparr>"

definition reset_request :: request where
  "reset_request = demo_request\<lparr>rqBody := ''R''\<rparr>"

lemma race_body:
  "decode race_server demo_request fs z w = decode (demo_server login_body None) demo_request fs z w"
  "decode race_server reset_request fs z w = decode (demo_server reset_body None) demo_request fs z w"
  by (simp_all add: decode_def race_server_def demo_server_def demo_request_def reset_request_def maxBody_def writeErr_def
      Let_def split: option.split)

lemma race_decode:
  "decode race_server demo_request registerReq_fields zero_registerReq w = (Inr demo_login, w)"
  "decode race_server reset_request resetReq_fields \<lparr>reToken = [], reNewPassword = []\<rparr> w = (Inr demo_reset, w)"
  by (simp_all add: race_body decode_login decode_reset)

lemma race_srv [simp]: "srvLib race_server = plain" "srvJwx race_server = easy_jwx None" "srvSigner race_server = demo_signer"
    "srvDummyHash race_server = []" "clientIP reset_request = ''ip''"
  by (simp_all add: race_server_def demo_server_def reset_request_def clientIP_def demo_request_def LastIndexByte_def)

lemma demo_limit_new:
  "\<forall>row \<in> set (rate_limits (wDB w)). rBucket row \<noteq> b \<Longrightarrow> 1 \<le> n \<Longrightarrow> limit demo_env site b n win w =
     (Inr (), w\<lparr>wDB := wDB w\<lparr>rate_limits := rate_limits (wDB w) @ [\<lparr>rBucket = b, rWindowStart = Truncate 20 win, rCount = 1\<rparr>]\<rparr>\<rparr>)"
proof -
  assume "\<forall>row \<in> set (rate_limits (wDB w)). rBucket row \<noteq> b" "1 \<le> n"
  moreover from this(1) have "select_one (in_window b k) (rate_limits (wDB w)) = None" for k
    by (simp add: select_one_None in_window_def)
  ultimately show ?thesis by (simp add: limit_def run_db_def zoom_def Allow_def Let_def seq_def)
qed

definition race_limits :: "RateRow list" where
  "race_limits = [\<lparr>rBucket = ''login:ip:ip'', rWindowStart = Truncate 20 (15 * minute), rCount = 1\<rparr>,
     \<lparr>rBucket = ''login:id:ann@x.io'', rWindowStart = Truncate 20 (15 * minute), rCount = 1\<rparr>]"

lemma race_check: "alone (checkLogin race_server demo_env demo_request) (on_world demo_db) =
    (Inr (demo_user, demo_client), on_world (demo_db\<lparr>rate_limits := race_limits\<rparr>))"
  unfolding checkLogin_def
  by (simp only: alone_rules alone_Let)
    (simp add: seq_def Let_def race_decode demo_login_def normalize_plain demo_limit demo_limit_other demo_clientIP
      lookupClient_def read_db_def ClientByID_def demo_db_def demo_client_def UserByEmail_def scanUser_def
      demo_user_def Verify_hashed race_limits_def on_world_def norows_def)

definition new_hash :: string where
  "new_hash = encode DefaultParams (replicate 16 CHR ''n'') (take 32 (''much better'' @ replicate 32 CHR ''0''))"

definition reset_user :: User where
  "reset_user = demo_user\<lparr>uPasswordHash := Some new_hash, uUpdatedAt := 20\<rparr>"

lemma Hash_new: "Hash plain (calm 20 ''N'' CHR ''n'') ''much better'' = Inr new_hash"
  by (simp add: Hash_def HashWithParams_def new_hash_def rand_read_def DefaultParams_def calm_def map_replicate_const)

lemma new_hash_refuses: "Verify plain new_hash ''correct horse'' = Inr False"
proof -
  have len: "length (take 32 (''much better'' @ replicate 32 CHR ''0'')) = 32" by simp
  show ?thesis
    unfolding new_hash_def by (subst Verify_encode) (simp_all add: DefaultParams_def len del: length_take take_append)
qed

lemma race_reset: "\<exists>v1. handlePasswordReset race_server demo_env reset_request
      (on_world demo_db\<lparr>wDB := demo_db\<lparr>rate_limits := race_limits\<rparr>\<rparr>) = (Inl (Reply 200 (BoolMap [(''password_reset'', True)])), v1) \<and>
    users (wDB v1) = [reset_user] \<and> sessions (wDB v1) = [first_session\<lparr>sRevokedAt := Some 20\<rparr>] \<and>
    app_clients (wDB v1) = [demo_client]"
  by (simp add: handlePasswordReset_def seq_def race_decode demo_limit_new race_limits_def demo_reset_def MinPasswordLen_def
      run_db_def zoom_def ConsumeToken_def demo_db_def issued_row_def hashCode_def Hash_new
      SetPasswordHash_def RevokeAllForUser_def revoke_where_def clearRefreshCookie_def set_cookie_def writeJSON_def
      on_world_def demo_user_def reset_user_def first_session_def coalesce_def)

lemma race_issue:
  assumes "users db = [reset_user]" and "sessions db = [first_session\<lparr>sRevokedAt := Some 20\<rparr>]" and "app_clients db = [demo_client]"
  shows "\<exists>t w2. issueSession race_server demo_env demo_request demo_user demo_client (on_world db) = (Inr (Some t), w2) \<and>
    users (wDB w2) = [reset_user]"
  using assms by (simp add: issue_examples reset_user_def demo_user_def demo_client_def run_db_def zoom_def seq_def)

theorem login_outlives_reset_witness:
  "\<exists>schedule db w v t s. fold take_turn schedule (demo_db, [(loginTask race_server demo_env demo_request, on_world demo_db),
      (resetTask race_server demo_env reset_request, on_world demo_db)]) =
     (db, [(Done (Inl (Reply 200 (Tokens t))), w), (Done (Inl (Reply 200 (BoolMap [(''password_reset'', True)]))), v)]) \<and>
   users db = [reset_user] \<and> Verify plain (the (uPasswordHash reset_user)) ''correct horse'' = Inr False \<and>
   sessions db = [first_session\<lparr>sRevokedAt := Some 20\<rparr>, s] \<and> sUserID s = uID reset_user \<and> sRevokedAt s = None"
proof -
  let ?w1 = "on_world (demo_db\<lparr>rate_limits := race_limits\<rparr>)"
  obtain v1 where v1: "handlePasswordReset race_server demo_env reset_request (on_world demo_db\<lparr>wDB := wDB ?w1\<rparr>) =
      (Inl (Reply 200 (BoolMap [(''password_reset'', True)])), v1)"
    "users (wDB v1) = [reset_user]" "sessions (wDB v1) = [first_session\<lparr>sRevokedAt := Some 20\<rparr>]"
    "app_clients (wDB v1) = [demo_client]"
    using race_reset by auto
  have "?w1\<lparr>wDB := wDB v1\<rparr> = on_world (wDB v1)" by (simp add: on_world_def)
  then obtain t w2 where w2: "issueSession race_server demo_env demo_request demo_user demo_client (?w1\<lparr>wDB := wDB v1\<rparr>) =
      (Inr (Some t), w2)" "users (wDB w2) = [reset_user]"
    using race_issue [OF v1(2-4)] by auto
  have u: "uID demo_user = uID reset_user" "uPasswordHash reset_user = Some new_hash" by (simp_all add: reset_user_def)
  from login_outlives_reset [OF race_check v1(1) w2(1)] v1(3) w2(2) u new_hash_refuses show ?thesis
    unfolding demo_srv by fastforce
qed

end
