(* ===== verification/Snapshots.thy ===== *)
theory Snapshots
  imports Example
begin

text \<open>
  One assumption of the model looked at closely. Statements are atomic here, but the service runs them
  at the default isolation of Postgres, \<open>READ COMMITTED\<close>: an \<open>UPDATE\<close> finds its rows as they were
  committed when it began, waits for transactions that hold one of them, and checks and changes the
  row as it is then. A row that such a transaction has inserted is not found.
\<close>

section \<open>An \<open>UPDATE\<close> that waits\<close>

text \<open>The rows the \<open>UPDATE\<close> found when it began, by primary key; and what it does to them when it goes on.\<close>

definition targets :: "(Session \<Rightarrow> bool) \<Rightarrow> DB \<Rightarrow> string set" where
  "targets P db = sID ` set (filter P (sessions db))"

definition revoke_found :: "string set \<Rightarrow> (Session \<Rightarrow> bool) \<Rightarrow> instant \<Rightarrow> DB \<Rightarrow> DB" where
  "revoke_found ids P now db = revoke_where (\<lambda>s. sID s \<in> ids \<and> P s) now db"

text \<open>With nothing in between it is the atomic one.\<close>

lemma revoke_at_once: "revoke_found (targets P db) P now db = revoke_where P now db"
proof -
  have "sID s \<in> targets P db \<and> P s \<longleftrightarrow> P s" if "s \<in> set (sessions db)" for s :: Session
    using that by (auto simp: targets_def)
  then show ?thesis by (simp add: revoke_found_def revoke_where_def update_where_def)
qed

lemma revocations_at_once:
  "\<not> flt x 0 \<Longrightarrow> RevokeFamily x f db =
     (Inr (), let P = \<lambda>s. sFamilyID s = f in revoke_found (targets P db) P (clk x 0) db)"
  "\<not> flt x 0 \<Longrightarrow> RevokeAllForUser x u db =
     (Inr (), let P = \<lambda>s. sUserID s = u \<and> sRevokedAt s = None in revoke_found (targets P db) P (clk x 0) db)"
  by (simp_all add: revoke_at_once RevokeFamily_def RevokeAllForUser_def)

section \<open>A rotation it waits for\<close>

lemma select_one_updated:
  "(\<And>r. Q (f r) = Q r) \<Longrightarrow>
   select_one Q (update_where P f t) = map_option (\<lambda>r. if P r then f r else r) (select_one Q t)"
  by (induction t) simp_all

text \<open>A revocation that comes first refuses the rotation.\<close>

lemma revoked_not_rotated:
  assumes "select_one (\<lambda>s. sTokenHash s = HashRefresh H k) (sessions db) = Some row" and "P row" and "sUsedAt row = None"
  shows "isl (fst (Rotate H x k m (revoke_where P now db)))"
proof -
  have "select_one (\<lambda>s. sTokenHash s = HashRefresh H k) (sessions (revoke_where P now db)) =
      Some (row\<lparr>sRevokedAt := coalesce (sRevokedAt row) now\<rparr>)"
    by (simp add: revoke_where_def select_one_updated assms)
  moreover have "coalesce (sRevokedAt row) now \<noteq> None" by (simp add: coalesce_def split: option.split)
  ultimately show ?thesis using assms(3) by (auto simp: Rotate_def norows_def)
qed

text \<open>C29: at the isolation level the service uses, a revocation of a family or of all sessions of a user
  (a logout, a reset, or the answer to reuse) that waits for a rotation leaves the successor alive,
  while done before the rotation it refuses it, and done after it ends the successor.\<close>

theorem revocation_misses_successor:
  assumes "Rotate H x k m db = (Inr iss, db')"
    and "P = (\<lambda>s. sFamilyID s = sFamilyID (isSession iss)) \<or>
      P = (\<lambda>s. sUserID s = sUserID (isSession iss) \<and> sRevokedAt s = None)"
  shows "isSession iss \<in> set (sessions (revoke_found (targets P db) P now db')) \<and>
      sUsedAt (isSession iss) = None \<and> sRevokedAt (isSession iss) = None \<and>
    isl (fst (Rotate H x k m (revoke_where P now db))) \<and>
    (\<forall>s \<in> set (sessions (revoke_where P now db')). sID s = sID (isSession iss) \<longrightarrow> sRevokedAt s \<noteq> None)"
proof -
  let ?new = "isSession iss"
  obtain row where row: "select_one (\<lambda>s. sTokenHash s = HashRefresh H k) (sessions db) = Some row"
    "sUsedAt row = None" "sRevokedAt row = None"
    and new: "?new = successor H x (RefreshToken iss) m row"
    and ok: "session_ok (db\<lparr>sessions := mark_used (sID row) (clk x 1) (sessions db)\<rparr>) ?new"
    and db': "db' = db\<lparr>sessions := mark_used (sID row) (clk x 1) (sessions db) @ [?new]\<rparr>"
    using assms(1) by (rule Rotate_Inr)
  have P: "P row" "P ?new" using assms(2) new row(3) by (auto simp: successor_def)
  have alive: "sUsedAt ?new = None" "sRevokedAt ?new = None" by (simp_all add: new successor_def)
  have marked: "sID ` set (mark_used (sID row) t (sessions db)) = sID ` set (sessions db)" for t
    using arg_cong [OF key_update_where [of "\<lambda>s. sID s = sID row" sID "\<lambda>s. s\<lparr>sUsedAt := Some t\<rparr>" "sessions db"], of set]
    by (simp add: mark_used_def)
  have fresh: "sID ?new \<notin> sID ` set (sessions db)"
    using ok marked by (simp add: session_ok_def)
  then have "sID ?new \<notin> targets P db" by (auto simp: targets_def)
  then have "?new \<in> set (sessions (revoke_found (targets P db) P now db'))"
    by (simp add: revoke_found_def revoke_where_def update_where_def db')
  moreover have "sRevokedAt s \<noteq> None"
    if "s \<in> set (sessions (revoke_where P now db'))" "sID s = sID ?new" for s
  proof -
    from that(1) obtain s0 :: Session where s0: "s0 \<in> set (sessions db')"
      "s = (if P s0 then s0\<lparr>sRevokedAt := coalesce (sRevokedAt s0) now\<rparr> else s0)"
      by (auto simp: revoke_where_def mem_update_where)
    then have same: "sID s0 = sID ?new" using that(2) by (cases "P s0") simp_all
    have "s0 \<notin> set (mark_used (sID row) (clk x 1) (sessions db))"
      using fresh same marked [of "clk x 1"] by (metis image_eqI)
    with s0(1) have "s0 = ?new" by (simp add: db')
    with s0(2) P(2) show ?thesis by (simp add: coalesce_def split: option.split)
  qed
  ultimately show ?thesis using alive revoked_not_rotated [where P = P, OF row(1) P(1) row(2)] by blast
qed

text \<open>The second session of the example is the successor of the first, which is being logged out.\<close>

theorem revocation_misses_successor_witness:
  "let P = \<lambda>s. sFamilyID s = ''S1'' in
   second_session \<in> set (sessions (revoke_found (targets P signed_in_db) P 25 rotated_db)) \<and>
   RevokeFamily (calm 25 ''N'' CHR ''n'') ''S1'' signed_in_db =
     (Inr (), revoke_found (targets P signed_in_db) P 25 signed_in_db) \<and> sRevokedAt second_session = None"
proof -
  have "sFamilyID second_session = ''S1''" by (simp add: second_session_def)
  then show ?thesis
    using revocation_misses_successor [OF rotate_first disjI1 [OF refl], of 25]
    by (simp add: Let_def revocations_at_once)
qed

end
