(* ===== verification/SdkNet.thy ===== *)
theory SdkNet
  imports OAuth
begin

text \<open>
  \<open>sdk/go\<close>, the client library of the service: its configuration (\<open>authsdk.go\<close>), its requests with
  failover to a second address (\<open>keys.go\<close>, \<open>client.go\<close>), and the calls that trade a code, a refresh
  token or a password for a session. The network answers a request depending on what was sent
  before it; a call returns its result and the log of what was sent.
\<close>

section \<open>Configuration: \<open>authsdk.go\<close>\<close>

text \<open>\<open>scReports\<close>: \<open>OnError\<close> is set. The HTTP client is part of the network.\<close>

record sdk_config =
  scBaseURL :: string
  scFallbackURL :: string
  scClientID :: string
  scClientSecret :: string
  scAudience :: string
  scIssuer :: string
  scJWKSRefresh :: duration
  scJWKSMaxStale :: duration
  scSignInURL :: string
  scReports :: bool

text \<open>The errors of the package: its sentinels, failures below HTTP, an answer that is not a 2xx, and
  the wrappers of \<open>fmt.Errorf\<close> with the error they wrap by \<open>%w\<close> last.\<close>

datatype sdk_error =
    ErrNoBaseURL
  | ErrNoKeys "sdk_error option"
  | ErrKeysTooStale
  | BadRequestURL
  | TransportFails
  | httpStatusError int string
  | BothFailed sdk_error sdk_error
  | JwksUnreadable
  | JwksEmpty
  | SecretRequired
  | BadReply
  | BadToken

definition DefaultJWKSMaxStale :: duration where
  "DefaultJWKSMaxStale = 7 * 24 * hour"

definition NoMaxStale :: duration where
  "NoMaxStale = -1"

text \<open>\<open>New\<close>, as far as the configuration goes; the key cache it warms is in \<open>SdkKeys\<close>.\<close>

definition New_config :: "sdk_config \<Rightarrow> sdk_error + sdk_config" where
  "New_config cfg =
     (if scBaseURL cfg = [] then Inl ErrNoBaseURL
      else
        let base = TrimRight (scBaseURL cfg) ''/'' in
        Inr (cfg\<lparr>
          scBaseURL := base,
          scFallbackURL := TrimRight (scFallbackURL cfg) ''/'',
          scAudience := (if scAudience cfg = [] then scClientID cfg else scAudience cfg),
          scIssuer := (if scIssuer cfg = [] then base else scIssuer cfg),
          scJWKSRefresh := (if scJWKSRefresh cfg \<le> 0 then 15 * minute else scJWKSRefresh cfg),
          scJWKSMaxStale := (if scJWKSMaxStale cfg = 0 then DefaultJWKSMaxStale else scJWKSMaxStale cfg)\<rparr>))"

section \<open>Requests with failover: \<open>keys.go\<close>, \<open>client.go\<close>\<close>

text \<open>A body is the JSON value that is encoded.\<close>

datatype http_call = Get string | Post string json

record net =
  ntURLok :: "string \<Rightarrow> bool"
  ntAnswer :: "http_call list \<Rightarrow> http_call \<Rightarrow> http_outcome"

definition maxRespBody :: nat where
  "maxRespBody = 2 ^ 20"

text \<open>\<open>Client.do\<close> and the two makers of requests.\<close>

definition do_request :: "net \<Rightarrow> http_call \<Rightarrow> http_call list \<Rightarrow> (sdk_error + string) \<times> http_call list" where
  "do_request N c sent =
     ((case ntAnswer N sent c of
         DoFails \<Rightarrow> Inl TransportFails
       | BodyFails \<Rightarrow> Inl TransportFails
       | Answer status raw \<Rightarrow>
           let body = take maxRespBody raw in
           if status < 200 \<or> 299 < status then Inl (httpStatusError status body) else Inr body),
      sent @ [c])"

definition getOnce :: "net \<Rightarrow> string \<Rightarrow> http_call list \<Rightarrow> (sdk_error + string) \<times> http_call list" where
  "getOnce N url sent = (if ntURLok N url then do_request N (Get url) sent else (Inl BadRequestURL, sent))"

definition postOnce :: "net \<Rightarrow> string \<Rightarrow> json \<Rightarrow> http_call list \<Rightarrow> (sdk_error + string) \<times> http_call list" where
  "postOnce N url v sent = (if ntURLok N url then do_request N (Post url v) sent else (Inl BadRequestURL, sent))"

text \<open>\<open>errors.As\<close> looks through the error a wrapper wraps.\<close>

fun shouldFailOver :: "sdk_error \<Rightarrow> bool" where
  "shouldFailOver (httpStatusError status body) = (500 \<le> status)"
| "shouldFailOver (BothFailed e1 e2) = shouldFailOver e2"
| "shouldFailOver e = True"

definition getWithFallback ::
  "net \<Rightarrow> sdk_config \<Rightarrow> string \<Rightarrow> http_call list \<Rightarrow> (sdk_error + string) \<times> http_call list" where
  "getWithFallback N cfg path sent =
     (case getOnce N (scBaseURL cfg @ path) sent of
        (Inr body, sent1) \<Rightarrow> (Inr body, sent1)
      | (Inl err, sent1) \<Rightarrow>
          if scFallbackURL cfg = [] \<or> \<not> shouldFailOver err then (Inl err, sent1)
          else
            (case getOnce N (scFallbackURL cfg @ path) sent1 of
               (Inl ferr, sent2) \<Rightarrow> (Inl (BothFailed err ferr), sent2)
             | (Inr body, sent2) \<Rightarrow> (Inr body, sent2)))"

text \<open>\<open>into\<close> stores the answer's JSON value into \<open>out\<close>; every caller passes one.\<close>

definition postWithFallback ::
  "net \<Rightarrow> (string \<Rightarrow> json option) \<Rightarrow> sdk_config \<Rightarrow> string \<Rightarrow> json \<Rightarrow> (json \<Rightarrow> 'r option) \<Rightarrow> http_call list \<Rightarrow>
   (sdk_error + 'r) \<times> http_call list" where
  "postWithFallback N J cfg path payload into sent =
     (let (first, sent1) = postOnce N (scBaseURL cfg @ path) payload sent;
          (answer, sent2) =
            (case first of
               Inr body \<Rightarrow> (Inr body, sent1)
             | Inl err \<Rightarrow>
                 if scFallbackURL cfg \<noteq> [] \<and> shouldFailOver err
                 then postOnce N (scFallbackURL cfg @ path) payload sent1
                 else (Inl err, sent1))
      in (case answer of
            Inl err \<Rightarrow> Inl err
          | Inr body \<Rightarrow>
              (case Option.bind (J body) into of None \<Rightarrow> Inl BadReply | Some r \<Rightarrow> Inr r),
          sent2))"

section \<open>Sessions: \<open>client.go\<close>\<close>

record SdkUser =
  suID :: string
  suEmail :: string
  suEmailVerified :: bool
  suRoles :: "string list"
  suSessionID :: string
  suExpiresAt :: instant

text \<open>The fields with a JSON name; \<open>SessionID\<close> and \<open>ExpiresAt\<close> have none.\<close>

definition SdkUser_fields :: "SdkUser fields" where
  "SdkUser_fields =
     [(''id'', into_string (\<lambda>s u. u\<lparr>suID := s\<rparr>)), (''email'', into_string (\<lambda>s u. u\<lparr>suEmail := s\<rparr>)),
      (''email_verified'', into_bool (\<lambda>b u. u\<lparr>suEmailVerified := b\<rparr>)),
      (''roles'', (\<lambda>v u. map_option (\<lambda>rs. u\<lparr>suRoles := rs\<rparr>) (into_slice (into_string (\<lambda>s _. s)) [] v)))]"

definition zero_SdkUser :: SdkUser where
  "zero_SdkUser = \<lparr>suID = [], suEmail = [], suEmailVerified = False, suRoles = [], suSessionID = [], suExpiresAt = 0\<rparr>"

record SdkSession =
  ssAccessToken :: string
  ssRefreshToken :: string
  ssTokenType :: string
  ssExpiresIn :: int
  ssUser :: SdkUser

definition SdkSession_fields :: "SdkSession fields" where
  "SdkSession_fields =
     [(''access_token'', into_string (\<lambda>s x. x\<lparr>ssAccessToken := s\<rparr>)),
      (''refresh_token'', into_string (\<lambda>s x. x\<lparr>ssRefreshToken := s\<rparr>)),
      (''token_type'', into_string (\<lambda>s x. x\<lparr>ssTokenType := s\<rparr>)),
      (''expires_in'', into_int64 (\<lambda>n x. x\<lparr>ssExpiresIn := n\<rparr>)),
      (''user'', (\<lambda>v x. map_option (\<lambda>u. x\<lparr>ssUser := u\<rparr>) (into_struct False SdkUser_fields v (ssUser x))))]"

definition zero_SdkSession :: SdkSession where
  "zero_SdkSession = \<lparr>ssAccessToken = [], ssRefreshToken = [], ssTokenType = [], ssExpiresIn = 0, ssUser = zero_SdkUser\<rparr>"

definition into_session :: "json \<Rightarrow> SdkSession option" where
  "into_session v = into_struct False SdkSession_fields v zero_SdkSession"

text \<open>A \<open>map[string]string\<close> is encoded with its keys in order.\<close>

definition exchange_payload :: "sdk_config \<Rightarrow> string \<Rightarrow> json" where
  "exchange_payload cfg code =
     JObj [(''client_id'', JStr (scClientID cfg)), (''client_secret'', JStr (scClientSecret cfg)), (''code'', JStr code)]"

definition refresh_payload :: "string \<Rightarrow> json" where
  "refresh_payload tk = JObj [(''refresh_token'', JStr tk)]"

definition login_payload :: "sdk_config \<Rightarrow> string \<Rightarrow> string \<Rightarrow> json" where
  "login_payload cfg email password =
     JObj [(''client_id'', JStr (scClientID cfg)), (''email'', JStr email), (''password'', JStr password)]"

definition SdkExchange ::
  "net \<Rightarrow> (string \<Rightarrow> json option) \<Rightarrow> sdk_config \<Rightarrow> string \<Rightarrow> http_call list \<Rightarrow> (sdk_error + SdkSession) \<times> http_call list" where
  "SdkExchange N J cfg code sent =
     (if scClientSecret cfg = [] then (Inl SecretRequired, sent)
      else postWithFallback N J cfg ''/v1/token/exchange'' (exchange_payload cfg code) into_session sent)"

definition SdkRefresh ::
  "net \<Rightarrow> (string \<Rightarrow> json option) \<Rightarrow> sdk_config \<Rightarrow> string \<Rightarrow> http_call list \<Rightarrow> (sdk_error + SdkSession) \<times> http_call list" where
  "SdkRefresh N J cfg tk sent =
     postWithFallback N J cfg ''/v1/token/refresh'' (refresh_payload tk) into_session sent"

definition SdkLogin ::
  "net \<Rightarrow> (string \<Rightarrow> json option) \<Rightarrow> sdk_config \<Rightarrow> string \<Rightarrow> string \<Rightarrow> http_call list \<Rightarrow>
   (sdk_error + SdkSession) \<times> http_call list" where
  "SdkLogin N J cfg email password sent =
     postWithFallback N J cfg ''/v1/auth/login'' (login_payload cfg email password) into_session sent"

text \<open>\<open>url.QueryEscape\<close>: letters, digits and four marks stand for themselves, a space is a plus, any
  other byte is its two hexadecimal digits.\<close>

definition unreserved :: "char \<Rightarrow> bool" where
  "unreserved c \<longleftrightarrow>
     c \<in> set ''ABCDEFGHIJKLMNOPQRSTUVWXYZabcdefghijklmnopqrstuvwxyz0123456789-_.~''"

definition hex_digit :: "nat \<Rightarrow> char" where
  "hex_digit n = ''0123456789ABCDEF'' ! n"

definition escape_byte :: "char \<Rightarrow> string" where
  "escape_byte c =
     (if unreserved c then [c] else if c = CHR '' '' then ''+''
      else [CHR ''%'', hex_digit (byte c div 16), hex_digit (byte c mod 16)])"

definition urlEscape :: "string \<Rightarrow> string" where
  "urlEscape s = concat (map escape_byte s)"

definition StartURL :: "sdk_config \<Rightarrow> string \<Rightarrow> string \<Rightarrow> string \<Rightarrow> string" where
  "StartURL cfg provider redirectURI state =
     scBaseURL cfg @ ''/v1/oauth/'' @ urlEscape provider @ ''/start?client_id='' @ urlEscape (scClientID cfg) @
     ''&redirect_uri='' @ urlEscape redirectURI @ ''&state='' @ urlEscape state"

section \<open>Facts\<close>

lemma TrimRight_end: "TrimRight s cs = [] \<or> last (TrimRight s cs) \<notin> set cs"
  unfolding TrimRight_def by (metis hd_dropWhile last_rev rev_is_Nil_conv)

lemma TrimRight_idem: "TrimRight (TrimRight s cs) cs = TrimRight s cs"
  by (simp add: TrimRight_def dropWhile_idem)

lemma New_config_Inr:
  assumes "New_config cfg = Inr cfg'"
  shows "scBaseURL cfg' = TrimRight (scBaseURL cfg) ''/''" "0 < scJWKSRefresh cfg'" "scJWKSMaxStale cfg' \<noteq> 0"
    "scClientID cfg' = scClientID cfg"
    "scIssuer cfg = [] \<Longrightarrow> scIssuer cfg' = TrimRight (scBaseURL cfg) ''/''"
    "scAudience cfg = [] \<Longrightarrow> scAudience cfg' = scClientID cfg"
  using assms by (auto simp: New_config_def Let_def DefaultJWKSMaxStale_def split: if_splits)

text \<open>What one request sends and may come to.\<close>

lemma do_request_sent: "snd (do_request N c sent) = sent @ [c]"
  by (simp add: do_request_def)

text \<open>No parameter of a start URL can end early or begin another.\<close>

lemma hex_digit: "n < 16 \<Longrightarrow> unreserved (hex_digit n)"
proof -
  assume "n < 16"
  then have "hex_digit n \<in> set ''0123456789ABCDEF''" unfolding hex_digit_def by (intro nth_mem) simp
  then show ?thesis by (auto simp: unreserved_def)
qed

lemma escape_byte_chars:
  assumes "c \<in> set (escape_byte d)"
  shows "unreserved c \<or> c = CHR ''+'' \<or> c = CHR ''%''"
proof -
  have "byte d < 16 * 16" using byte_less [of d] by linarith
  then have "unreserved (hex_digit (byte d div 16))" by (intro hex_digit less_mult_imp_div_less)
  moreover have "unreserved (hex_digit (byte d mod 16))" by (rule hex_digit) simp
  ultimately show ?thesis using assms by (auto simp: escape_byte_def split: if_splits)
qed

lemma urlEscape_chars: "c \<in> set (urlEscape s) \<Longrightarrow> unreserved c \<or> c = CHR ''+'' \<or> c = CHR ''%''"
  using escape_byte_chars by (fastforce simp: urlEscape_def)

section \<open>Properties\<close>

lemma postOnce_ok:
  assumes "ntURLok N url"
  shows "postOnce N url p sent =
    ((case ntAnswer N sent (Post url p) of
        Answer st raw \<Rightarrow> if st < 200 \<or> 299 < st then Inl (httpStatusError st (take maxRespBody raw))
          else Inr (take maxRespBody raw)
      | _ \<Rightarrow> Inl TransportFails), sent @ [Post url p])"
  using assms by (simp add: postOnce_def do_request_def Let_def split: http_outcome.split)

text \<open>C37: failover is bounded and never overrides an answer: a post goes to the base address, and a
  second time, with the same payload, to the fallback only when one is configured and the first
  came to nothing below HTTP or to a 5xx; a refusal of the service (3xx, 4xx) is final; and what is
  returned is read from the 2xx answer to the last request sent.\<close>

theorem failover_is_bounded:
  assumes "ntURLok N (scBaseURL cfg @ path)" and "ntURLok N (scFallbackURL cfg @ path)"
    and "postWithFallback N J cfg path payload into sent = (res, sent')"
  shows "(let first = Post (scBaseURL cfg @ path) payload; second = Post (scFallbackURL cfg @ path) payload in
    (sent' = sent @ [first] \<or>
      sent' = sent @ [first, second] \<and> scFallbackURL cfg \<noteq> [] \<and>
        (case ntAnswer N sent first of Answer st _ \<Rightarrow> 500 \<le> st | _ \<Rightarrow> True)) \<and>
    (\<forall>st raw. ntAnswer N sent first = Answer st raw \<longrightarrow> 300 \<le> st \<longrightarrow> st < 500 \<longrightarrow>
       res = Inl (httpStatusError st (take maxRespBody raw)) \<and> sent' = sent @ [first]) \<and>
    (\<forall>r. res = Inr r \<longrightarrow> (\<exists>st raw v. ntAnswer N (butlast sent') (last sent') = Answer st raw \<and>
       200 \<le> st \<and> st \<le> 299 \<and> J (take maxRespBody raw) = Some v \<and> into v = Some r)))"
proof -
  note once = postOnce_ok [OF assms(1)] postOnce_ok [OF assms(2)]
  show ?thesis
  proof (cases "ntAnswer N sent (Post (scBaseURL cfg @ path) payload)")
    case (Answer st raw)
    then show ?thesis
      using assms(3) unfolding postWithFallback_def once Let_def
      by (auto simp: bind_eq_Some_conv butlast_append split: if_splits option.splits http_outcome.splits)
  qed (use assms(3) in \<open>auto simp: postWithFallback_def once Let_def bind_eq_Some_conv butlast_append
        split: if_splits option.splits http_outcome.splits\<close>)
qed

text \<open>The base address is down, the fallback answers.\<close>

definition half_net :: net where
  "half_net = \<lparr>ntURLok = (\<lambda>_. True), ntAnswer = (\<lambda>sent c. if sent = [] then DoFails else Answer 200 ''{}'')\<rparr>"

definition demo_sdk :: sdk_config where
  "demo_sdk = \<lparr>scBaseURL = ''https://a'', scFallbackURL = ''https://b'', scClientID = ''app'', scClientSecret = ''secret'',
     scAudience = ''app'', scIssuer = ''iss'', scJWKSRefresh = 15 * minute, scJWKSMaxStale = DefaultJWKSMaxStale,
     scSignInURL = ''/login'', scReports = True\<rparr>"

theorem failover_is_bounded_witness:
  "\<exists>res sent'. SdkRefresh half_net (\<lambda>_. Some (JObj [])) demo_sdk ''t'' [] = (res, sent') \<and>
    (sent' = [Post ''https://a/v1/token/refresh'' (refresh_payload ''t'')] \<or>
     sent' = [Post ''https://a/v1/token/refresh'' (refresh_payload ''t''),
       Post ''https://b/v1/token/refresh'' (refresh_payload ''t'')])"
proof -
  obtain res sent' where run: "postWithFallback half_net (\<lambda>_. Some (JObj [])) demo_sdk ''/v1/token/refresh''
      (refresh_payload ''t'') into_session [] = (res, sent')" by force
  have "ntURLok half_net u" for u by (simp add: half_net_def)
  from failover_is_bounded [OF this this run] run show ?thesis
    by (auto simp: Let_def SdkRefresh_def demo_sdk_def)
qed

end
