(* ===== verification/SdkKeys.thy ===== *)
theory SdkKeys
  imports SdkNet Token Machine
begin

text \<open>
  \<open>sdk/go/keys.go\<close>: the key cache of the client library. Reads never wait for the network; a refresh
  runs beside them, at most one at a time. A refresh is two steps here, the taking of the lock and
  the storing of what came back, so that reads, ticks and other attempts may come between. What
  \<open>jwk.Parse\<close> makes of a body is the parameter \<open>P\<close>.
\<close>

section \<open>The cache\<close>

record key_cache =
  kcSet :: "Key list option"
  kcFetchedAt :: instant
  kcLastErr :: "sdk_error option"
  kcRefreshing :: bool
  kcReported :: "sdk_error list"

definition newKeyCache :: key_cache where
  "newKeyCache = \<lparr>kcSet = None, kcFetchedAt = 0, kcLastErr = None, kcRefreshing = False, kcReported = []\<rparr>"

text \<open>\<open>get\<close>: the keys or an error, and whether it starts a refresh in the background.\<close>

definition get_keys :: "sdk_config \<Rightarrow> instant \<Rightarrow> key_cache \<Rightarrow> (sdk_error + Key list) \<times> bool" where
  "get_keys cfg now k =
     (case kcSet k of
        None \<Rightarrow> (Inl (ErrNoKeys (kcLastErr k)), True)
      | Some ks \<Rightarrow>
          let age = now - kcFetchedAt k;
              kick = (scJWKSRefresh cfg < age);
              max_stale = scJWKSMaxStale cfg
          in if 0 < max_stale \<and> max_stale < age then (Inl ErrKeysTooStale, kick) else (Inr ks, kick))"

text \<open>\<open>fetch\<close>, given what \<open>getWithFallback\<close> returned; the error it returns is the one it records.\<close>

definition fetch ::
  "(string \<Rightarrow> Key list option) \<Rightarrow> instant \<Rightarrow> sdk_error + string \<Rightarrow> key_cache \<Rightarrow> sdk_error option \<times> key_cache" where
  "fetch P now answer k =
     (case answer of
        Inl err \<Rightarrow> (Some err, k\<lparr>kcLastErr := Some err\<rparr>)
      | Inr body \<Rightarrow>
          (case P body of
             None \<Rightarrow> (Some JwksUnreadable, k\<lparr>kcLastErr := Some JwksUnreadable\<rparr>)
           | Some ks \<Rightarrow>
               if ks = [] then (Some JwksEmpty, k\<lparr>kcLastErr := Some JwksEmpty\<rparr>)
               else (None, k\<lparr>kcSet := Some ks, kcFetchedAt := now, kcLastErr := None\<rparr>)))"

definition report :: "sdk_config \<Rightarrow> sdk_error option \<Rightarrow> key_cache \<Rightarrow> key_cache" where
  "report cfg err k =
     (case err of
        None \<Rightarrow> k
      | Some e \<Rightarrow> if scReports cfg then k\<lparr>kcReported := kcReported k @ [e]\<rparr> else k)"

definition jwks_path :: string where
  "jwks_path = ''/.well-known/jwks.json''"

text \<open>\<open>warm\<close>, and \<open>refresh\<close> in two steps: \<open>None\<close> when another refresh holds the lock.\<close>

definition warm ::
  "(string \<Rightarrow> Key list option) \<Rightarrow> sdk_config \<Rightarrow> instant \<Rightarrow> sdk_error + string \<Rightarrow> key_cache \<Rightarrow> key_cache" where
  "warm P cfg now answer k = (let (err, k') = fetch P now answer k in report cfg err k')"

definition begin_refresh :: "key_cache \<Rightarrow> key_cache option" where
  "begin_refresh k = (if kcRefreshing k then None else Some (k\<lparr>kcRefreshing := True\<rparr>))"

definition end_refresh ::
  "(string \<Rightarrow> Key list option) \<Rightarrow> sdk_config \<Rightarrow> instant \<Rightarrow> sdk_error + string \<Rightarrow> key_cache \<Rightarrow> key_cache" where
  "end_refresh P cfg now answer k = (warm P cfg now answer k)\<lparr>kcRefreshing := False\<rparr>"

text \<open>\<open>New\<close>: the configuration is completed and the cache warmed, whatever the service answers; what
  was sent is the log.\<close>

definition NewClient ::
  "net \<Rightarrow> (string \<Rightarrow> Key list option) \<Rightarrow> instant \<Rightarrow> sdk_config \<Rightarrow> http_call list \<Rightarrow>
   sdk_error + (sdk_config \<times> key_cache \<times> http_call list)" where
  "NewClient N P now cfg sent =
     (case New_config cfg of
        Inl e \<Rightarrow> Inl e
      | Inr cfg' \<Rightarrow>
          let (answer, sent') = getWithFallback N cfg' jwks_path sent
          in Inr (cfg', warm P cfg' now answer newKeyCache, sent'))"

definition errorIsKeyProblem :: "sdk_error \<Rightarrow> bool" where
  "errorIsKeyProblem err \<longleftrightarrow> (case err of ErrNoKeys _ \<Rightarrow> True | ErrKeysTooStale \<Rightarrow> True | _ \<Rightarrow> False)"

section \<open>The cache as a machine\<close>

text \<open>The clock, the cache, and the key sets the service has answered with so far and when.\<close>

record cache_state =
  csNow :: instant
  csCache :: key_cache
  csServed :: "(instant \<times> Key list) set"

definition served_keys :: "(string \<Rightarrow> Key list option) \<Rightarrow> instant \<Rightarrow> sdk_error + string \<Rightarrow> (instant \<times> Key list) set" where
  "served_keys P now answer =
     (case answer of Inl _ \<Rightarrow> {} | Inr body \<Rightarrow> (case P body of None \<Rightarrow> {} | Some ks \<Rightarrow> {(now, ks)}))"

inductive cache_step ::
  "(string \<Rightarrow> Key list option) \<Rightarrow> sdk_config \<Rightarrow> cache_state \<Rightarrow> cache_state \<Rightarrow> bool" for P cfg where
  time_passes: "csNow c \<le> now \<Longrightarrow> cache_step P cfg c (c\<lparr>csNow := now\<rparr>)"
| locks: "begin_refresh (csCache c) = Some k \<Longrightarrow> cache_step P cfg c (c\<lparr>csCache := k\<rparr>)"
| answered: "kcRefreshing (csCache c) \<Longrightarrow>
     cache_step P cfg c (c\<lparr>csCache := end_refresh P cfg (csNow c) answer (csCache c),
       csServed := csServed c \<union> served_keys P (csNow c) answer\<rparr>)"

definition cache_start :: "(string \<Rightarrow> Key list option) \<Rightarrow> sdk_config \<Rightarrow> cache_state \<Rightarrow> bool" where
  "cache_start P cfg c \<longleftrightarrow>
     (\<exists>answer. csCache c = warm P cfg (csNow c) answer newKeyCache \<and> csServed c = served_keys P (csNow c) answer)"

text \<open>What is cached is a set the service answered with, not empty, and nothing newer was answered but
  empty sets.\<close>

definition cache_inv :: "cache_state \<Rightarrow> bool" where
  "cache_inv c \<longleftrightarrow> (\<forall>(t, ks) \<in> csServed c. t \<le> csNow c) \<and>
     (case kcSet (csCache c) of
        None \<Rightarrow> \<forall>(t, ks) \<in> csServed c. ks = []
      | Some ks \<Rightarrow> ks \<noteq> [] \<and> (kcFetchedAt (csCache c), ks) \<in> csServed c \<and>
          (\<forall>(t, ls) \<in> csServed c. ls \<noteq> [] \<longrightarrow> t \<le> kcFetchedAt (csCache c)))"

lemma report_simps [simp]:
  "kcSet (report cfg e k) = kcSet k" "kcFetchedAt (report cfg e k) = kcFetchedAt k"
  "kcLastErr (report cfg e k) = kcLastErr k" "kcRefreshing (report cfg e k) = kcRefreshing k"
  by (simp_all add: report_def split: option.split)

text \<open>What a refresh leaves in the cache: the set it was answered with, or what was there.\<close>

definition usable :: "(string \<Rightarrow> Key list option) \<Rightarrow> sdk_error + string \<Rightarrow> Key list option" where
  "usable P answer =
     (case answer of
        Inl _ \<Rightarrow> None
      | Inr body \<Rightarrow> (case P body of None \<Rightarrow> None | Some ks \<Rightarrow> if ks = [] then None else Some ks))"

lemma warm_set:
  "kcSet (warm P cfg now answer k) = (case usable P answer of None \<Rightarrow> kcSet k | Some ks \<Rightarrow> Some ks)"
  "kcFetchedAt (warm P cfg now answer k) = (case usable P answer of None \<Rightarrow> kcFetchedAt k | Some _ \<Rightarrow> now)"
  by (simp_all add: warm_def fetch_def usable_def split: sum.split option.split)

lemma end_refresh_set [simp]:
  "kcSet (end_refresh P cfg now answer k) = kcSet (warm P cfg now answer k)"
  "kcFetchedAt (end_refresh P cfg now answer k) = kcFetchedAt (warm P cfg now answer k)"
  "\<not> kcRefreshing (end_refresh P cfg now answer k)"
  by (simp_all add: end_refresh_def)

lemma served_usable: "usable P answer = Some ks \<Longrightarrow> served_keys P now answer = {(now, ks)} \<and> ks \<noteq> []"
  by (auto simp: usable_def served_keys_def split: sum.splits option.splits if_splits)

lemma served_unusable: "usable P answer = None \<Longrightarrow> \<forall>(t, ks) \<in> served_keys P now answer. t = now \<and> ks = []"
  by (auto simp: usable_def served_keys_def split: sum.splits option.splits if_splits)

lemma cache_answer:
  assumes "cache_inv c"
  shows "cache_inv (c\<lparr>csCache := end_refresh P cfg (csNow c) answer (csCache c),
    csServed := csServed c \<union> served_keys P (csNow c) answer\<rparr>)"
proof (cases "usable P answer")
  case None
  note new = served_unusable [OF None, of "csNow c"]
  show ?thesis
    using assms new
    by (cases "kcSet (csCache c)") (auto simp: cache_inv_def warm_set None)
next
  case (Some ks)
  note new = served_usable [OF Some, of "csNow c"]
  show ?thesis
    using assms new by (cases "kcSet (csCache c)") (auto simp: cache_inv_def warm_set Some)
qed

interpretation cache: machine "cache_start P cfg" "cache_step P cfg" cache_inv for P cfg
proof
  fix c assume "cache_start P cfg c"
  then obtain answer where c: "csCache c = warm P cfg (csNow c) answer newKeyCache"
    "csServed c = served_keys P (csNow c) answer"
    by (auto simp: cache_start_def)
  show "cache_inv c"
    using served_unusable [of P answer "csNow c"] served_usable [of P answer _ "csNow c"]
    by (cases "usable P answer") (auto simp: cache_inv_def c warm_set newKeyCache_def)
next
  fix c d assume inv: "cache_inv c" and "cache_step P cfg c d"
  from this(2) show "cache_inv d"
  proof cases
    case (time_passes now)
    with inv show ?thesis unfolding cache_inv_def by (fastforce split: option.splits)
  next
    case (locks k)
    with inv show ?thesis unfolding cache_inv_def
      by (auto simp: begin_refresh_def split: if_splits option.splits)
  next
    case (answered answer)
    with inv show ?thesis by (simp add: cache_answer)
  qed
qed

text \<open>A cache that has keys has keys for ever, and never older ones.\<close>

definition keys_since :: "instant \<Rightarrow> cache_state \<Rightarrow> bool" where
  "keys_since t c \<longleftrightarrow> kcSet (csCache c) \<noteq> None \<and> t \<le> kcFetchedAt (csCache c) \<and> kcFetchedAt (csCache c) \<le> csNow c"

interpretation keeps_keys: absorbing "cache_start P cfg" "cache_step P cfg" cache_inv keys_since for P cfg
proof
  fix c d t assume "keys_since t c" and "cache_step P cfg c d"
  from this(2,1) show "keys_since t d"
  proof cases
    case (answered answer)
    with \<open>keys_since t c\<close> show ?thesis by (auto simp: keys_since_def warm_set split: option.split)
  qed (auto simp: keys_since_def begin_refresh_def split: if_splits)
qed

lemma get_keys_Inr:
  assumes "get_keys cfg now k = (Inr ks, kick)"
  shows "kcSet k = Some ks" "0 < scJWKSMaxStale cfg \<Longrightarrow> now - kcFetchedAt k \<le> scJWKSMaxStale cfg"
  using assms by (auto simp: get_keys_def Let_def split: option.splits if_splits)

section \<open>Properties\<close>

text \<open>C36: the cache fails closed: over any run of reads and refreshes, keys are handed out only when they
  are a key set the service answered with, not an empty one, no newer one was answered, and, with a
  staleness bound, the answer is no older than that bound; and once there are keys, a run of failed
  refreshes does not take them away before the bound.\<close>

theorem cached_keys_are_trusted:
  assumes "cache_start P cfg c0" and "rtranclp (cache_step P cfg) c0 c"
  shows "(\<forall>ks kick. get_keys cfg (csNow c) (csCache c) = (Inr ks, kick) \<longrightarrow>
      ks \<noteq> [] \<and> (\<exists>t. (t, ks) \<in> csServed c \<and> (\<forall>(t', ls) \<in> csServed c. ls \<noteq> [] \<longrightarrow> t' \<le> t) \<and>
        (0 < scJWKSMaxStale cfg \<longrightarrow> csNow c - t \<le> scJWKSMaxStale cfg))) \<and>
    (\<forall>d. kcSet (csCache c) \<noteq> None \<longrightarrow> rtranclp (cache_step P cfg) c d \<longrightarrow>
      scJWKSMaxStale cfg \<le> 0 \<or> csNow d - kcFetchedAt (csCache c) \<le> scJWKSMaxStale cfg \<longrightarrow>
      (\<exists>ks kick. get_keys cfg (csNow d) (csCache d) = (Inr ks, kick)))"
proof (intro conjI allI impI)
  have inv: "cache_inv c" by (rule cache.reach_inv [OF assms])
  fix ks kick assume "get_keys cfg (csNow c) (csCache c) = (Inr ks, kick)"
  note got = get_keys_Inr [OF this]
  show "ks \<noteq> []" using inv got(1) by (simp add: cache_inv_def)
  show "\<exists>t. (t, ks) \<in> csServed c \<and> (\<forall>(t', ls) \<in> csServed c. ls \<noteq> [] \<longrightarrow> t' \<le> t) \<and>
      (0 < scJWKSMaxStale cfg \<longrightarrow> csNow c - t \<le> scJWKSMaxStale cfg)"
    using inv got by (intro exI [of _ "kcFetchedAt (csCache c)"]) (simp add: cache_inv_def)
next
  fix d assume d: "kcSet (csCache c) \<noteq> None" "rtranclp (cache_step P cfg) c d"
    "scJWKSMaxStale cfg \<le> 0 \<or> csNow d - kcFetchedAt (csCache c) \<le> scJWKSMaxStale cfg"
  have inv: "cache_inv c" by (rule cache.reach_inv [OF assms])
  then have "keys_since (kcFetchedAt (csCache c)) c"
    using d(1) by (auto simp: keys_since_def cache_inv_def split: option.splits)
  then have "keys_since (kcFetchedAt (csCache c)) d" by (rule keeps_keys.dead_run [OF d(2) inv])
  then show "\<exists>ks kick. get_keys cfg (csNow d) (csCache d) = (Inr ks, kick)"
    using d(3) by (auto simp: keys_since_def get_keys_def Let_def)
qed

text \<open>A cache warmed at 10, refreshed in vain at 20, read at 30.\<close>

definition demo_parse :: "string \<Rightarrow> Key list option" where
  "demo_parse body = (if body = ''keys'' then Some [public_half demo_key] else if body = ''none'' then Some [] else None)"

definition cache_at :: "instant \<Rightarrow> bool \<Rightarrow> sdk_error list \<Rightarrow> (instant \<times> Key list) set \<Rightarrow> cache_state" where
  "cache_at now busy errs asked = \<lparr>csNow = now,
     csCache = \<lparr>kcSet = Some [public_half demo_key], kcFetchedAt = 10,
       kcLastErr = (if errs = [] then None else Some (last errs)), kcRefreshing = busy, kcReported = errs\<rparr>,
     csServed = insert (10, [public_half demo_key]) asked\<rparr>"

lemma cache_at_run:
  "cache_start demo_parse demo_sdk (cache_at 10 False [] {})"
  "rtranclp (cache_step demo_parse demo_sdk) (cache_at 10 False [] {}) (cache_at 30 False [JwksEmpty] {(20, [])})"
proof -
  show "cache_start demo_parse demo_sdk (cache_at 10 False [] {})"
    unfolding cache_start_def
    by (rule exI [of _ "Inr ''keys''"])
      (simp add: cache_at_def warm_def fetch_def report_def demo_parse_def newKeyCache_def served_keys_def)
  let ?step = "cache_step demo_parse demo_sdk"
  have "?step (cache_at 10 False [] {}) (cache_at 20 False [] {})"
    using time_passes [of "cache_at 10 False [] {}" 20] by (simp add: cache_at_def)
  moreover have "?step (cache_at 20 False [] {}) (cache_at 20 True [] {})"
    using locks [of "cache_at 20 False [] {}" "csCache (cache_at 20 True [] {})"]
    by (simp add: cache_at_def begin_refresh_def)
  moreover have "?step (cache_at 20 True [] {}) (cache_at 20 False [JwksEmpty] {(20, [])})"
    using answered [of "cache_at 20 True [] {}" demo_parse demo_sdk "Inr ''none''"]
    by (simp add: cache_at_def end_refresh_def warm_def fetch_def report_def demo_parse_def demo_sdk_def
        served_keys_def insert_commute)
  moreover have "?step (cache_at 20 False [JwksEmpty] {(20, [])}) (cache_at 30 False [JwksEmpty] {(20, [])})"
    using time_passes [of "cache_at 20 False [JwksEmpty] {(20, [])}" 30] by (simp add: cache_at_def)
  ultimately show "rtranclp ?step (cache_at 10 False [] {}) (cache_at 30 False [JwksEmpty] {(20, [])})"
    by (blast intro: converse_rtranclp_into_rtranclp)
qed

theorem cached_keys_are_trusted_witness:
  "\<exists>ks kick. get_keys demo_sdk 30 (csCache (cache_at 30 False [JwksEmpty] {(20, [])})) = (Inr ks, kick) \<and> ks \<noteq> []"
proof -
  have "\<exists>ks kick. get_keys demo_sdk (csNow (cache_at 30 False [JwksEmpty] {(20, [])}))
      (csCache (cache_at 30 False [JwksEmpty] {(20, [])})) = (Inr ks, kick)"
    by (rule cached_keys_are_trusted [OF cache_at_run(1) rtranclp.rtrancl_refl, THEN conjunct2, rule_format,
          OF _ cache_at_run(2)])
      (simp_all add: cache_at_def demo_sdk_def DefaultJWKSMaxStale_def)
  then obtain ks kick where got: "get_keys demo_sdk (csNow (cache_at 30 False [JwksEmpty] {(20, [])}))
      (csCache (cache_at 30 False [JwksEmpty] {(20, [])})) = (Inr ks, kick)" by blast
  have "ks \<noteq> []"
    using cached_keys_are_trusted [OF cache_at_run, THEN conjunct1, rule_format, OF got] by blast
  then show ?thesis using got by (auto simp: cache_at_def)
qed

end
