(* ===== verification/Sdk.thy ===== *)
theory Sdk
  imports SdkKeys Http
begin

text \<open>
  \<open>sdk/go\<close>: what an application builds on: local verification of access tokens and the guards of its
  handlers (\<open>middleware.go\<close>), the handler of its redirect URI (\<open>callback.go\<close>), and the page shown
  when a login failed (\<open>errors.go\<close>).
\<close>

section \<open>\<open>middleware.go\<close>\<close>

definition HasRole :: "SdkUser \<Rightarrow> string \<Rightarrow> bool" where
  "HasRole u role \<longleftrightarrow> list_ex (\<lambda>r. r = role) (suRoles u)"

definition sdk_user_of :: "jwt \<Rightarrow> SdkUser" where
  "sdk_user_of t =
     \<lparr>suID = jSubject t, suEmail = str_claim t ''email'', suEmailVerified = bool_claim t ''email_verified'',
      suRoles = roles_claim t, suSessionID = str_claim t ''sid'', suExpiresAt = jExpiration t\<rparr>"

text \<open>\<open>Verify\<close>: the user or an error, and whether a refresh was started.\<close>

definition SdkVerify :: "jwx \<Rightarrow> sdk_config \<Rightarrow> instant \<Rightarrow> key_cache \<Rightarrow> string \<Rightarrow> (sdk_error + SdkUser) \<times> bool" where
  "SdkVerify W cfg now k raw =
     (case get_keys cfg now k of
        (Inl err, kick) \<Rightarrow> (Inl err, kick)
      | (Inr ks, kick) \<Rightarrow>
          (case jwt_parse W ks (scIssuer cfg) (scAudience cfg) now raw of
             None \<Rightarrow> Inl BadToken
           | Some t \<Rightarrow> Inr (sdk_user_of t), kick))"

definition bearerToken :: "request \<Rightarrow> string" where
  "bearerToken r =
     (let h = rqHeader r ''Authorization'' in
      if 7 < length h \<and> EqualFold (take 7 h) ''bearer '' then TrimSpace (drop 7 h) else [])"

text \<open>What a guard does: it answers with an error, or lets the handler behind it run, for
  \<open>RequireUser\<close> with the user in its context.\<close>

datatype 'a guard_outcome = Refused int string string | Admitted 'a

definition SdkRequireUser :: "jwx \<Rightarrow> sdk_config \<Rightarrow> instant \<Rightarrow> key_cache \<Rightarrow> request \<Rightarrow> SdkUser guard_outcome" where
  "SdkRequireUser W cfg now k r =
     (let raw = bearerToken r in
      if raw = [] then Refused 401 ''unauthorized'' ''missing bearer token''
      else
        case fst (SdkVerify W cfg now k raw) of
          Inl err \<Rightarrow>
            if errorIsKeyProblem err then Refused 503 ''keys_unavailable'' ''cannot verify tokens right now''
            else Refused 401 ''unauthorized'' ''invalid or expired token''
        | Inr u \<Rightarrow> Admitted u)"

definition RequireRole :: "string list \<Rightarrow> SdkUser option \<Rightarrow> unit guard_outcome" where
  "RequireRole roles user =
     (case user of
        None \<Rightarrow> Refused 401 ''unauthorized'' ''not authenticated''
      | Some u \<Rightarrow>
          if list_ex (HasRole u) roles then Admitted () else Refused 403 ''forbidden'' ''insufficient role'')"

section \<open>\<open>errors.go\<close>\<close>

definition ErrCodeManualLinkRequired :: string where "ErrCodeManualLinkRequired = ''manual_link_required''"
definition ErrCodeAlreadyLinked :: string where "ErrCodeAlreadyLinked = ''already_linked''"
definition ErrCodeAccessDenied :: string where "ErrCodeAccessDenied = ''access_denied''"
definition ErrCodeAccountDisabled :: string where "ErrCodeAccountDisabled = ''account_disabled''"
definition ErrCodeExchangeFailed :: string where "ErrCodeExchangeFailed = ''exchange_failed''"
definition ErrCodeMissingCode :: string where "ErrCodeMissingCode = ''missing_code''"
definition ErrCodeLoginFailed :: string where "ErrCodeLoginFailed = ''login_failed''"

lemmas callback_codes = ErrCodeManualLinkRequired_def ErrCodeAlreadyLinked_def ErrCodeAccessDenied_def
  ErrCodeAccountDisabled_def ErrCodeExchangeFailed_def ErrCodeMissingCode_def ErrCodeLoginFailed_def

definition Message :: "string \<Rightarrow> string \<times> string" where
  "Message c =
     (if c = ErrCodeManualLinkRequired then
        (''You already have an account with this email'',
         ''Sign in with your password, then connect this account from your '' @
         ''settings. We don't link them automatically because we can't yet '' @
         ''confirm both accounts belong to you.'')
      else if c = ErrCodeAlreadyLinked then
        (''That account is already connected to someone else'',
         ''This provider account is linked to a different user. Sign in with '' @
         ''that account, or disconnect it there first.'')
      else if c = ErrCodeAccessDenied then
        (''Sign-in was cancelled'', ''You can try again, or sign in with your email and password instead.'')
      else if c = ErrCodeAccountDisabled then
        (''This account is disabled'', ''Get in touch if you think that's a mistake.'')
      else if c \<in> set [ErrCodeMissingCode, ErrCodeExchangeFailed, ErrCodeLoginFailed] then
        (''Sign-in didn't complete'', ''Something went wrong on our end. Please try again.'')
      else (''Sign-in didn't complete'', ''Please try again.''))"

definition Retryable :: "string \<Rightarrow> bool" where
  "Retryable c \<longleftrightarrow> c \<notin> set [ErrCodeManualLinkRequired, ErrCodeAlreadyLinked, ErrCodeAccountDisabled]"

text \<open>\<open>html.EscapeString\<close>.\<close>

definition html_escape_byte :: "char \<Rightarrow> string" where
  "html_escape_byte c =
     (if c = CHR ''<'' then ''&lt;'' else if c = CHR ''>'' then ''&gt;'' else if c = CHR ''&'' then ''&amp;''
      else if c = CHR 0x27 then ''&#39;'' else if c = CHR 0x22 then ''&#34;'' else [c])"

definition html_escape :: "string \<Rightarrow> string" where
  "html_escape s = concat (map html_escape_byte s)"

definition page_lines :: "string list \<Rightarrow> string" where
  "page_lines ls = concat (map (\<lambda>l. l @ [CHR 0x0A]) ls)"

text \<open>The page \<open>WriteErrorPage\<close> writes: status and body; its headers are fixed.\<close>

definition error_style :: "string list" where
  "error_style =
    [''<style>'',
     ''  :root { color-scheme: light dark; }'',
     ''  body { font: 16px/1.6 system-ui, sans-serif; max-width: 32rem;'',
     ''         margin: 12vh auto; padding: 0 1.5rem; }'',
     ''  h1 { font-size: 1.4rem; margin: 0 0 .6rem; }'',
     ''  p { margin: 0 0 1rem; opacity: .85; }'',
     ''  .btn { display: inline-block; padding: .55rem 1.1rem; border-radius: .4rem;'',
     ''         background: #2563eb; color: #fff; text-decoration: none; }'',
     ''</style>'']"

definition error_action :: "string \<Rightarrow> string \<Rightarrow> string" where
  "error_action code signInURL =
     (if signInURL \<noteq> [] then
        ''<p><a class=\"btn\" href=\"'' @ html_escape signInURL @ ''\">'' @
        (if \<not> Retryable code then ''Sign in another way'' else ''Try again'') @ ''</a></p>''
      else [])"

definition WriteErrorPage :: "int \<Rightarrow> string \<Rightarrow> string \<Rightarrow> int \<times> string" where
  "WriteErrorPage status code signInURL =
     (status,
      page_lines
        ([''<!doctype html>'',
          ''<meta charset=\"utf-8\">'',
          ''<meta name=\"viewport\" content=\"width=device-width,initial-scale=1\">'',
          ''<title>'' @ html_escape (fst (Message code)) @ ''</title>''] @
         error_style @
         [''<h1>'' @ html_escape (fst (Message code)) @ ''</h1>'',
          ''<p>'' @ html_escape (snd (Message code)) @ ''</p>'' @ error_action code signInURL]))"

section \<open>\<open>callback.go\<close>\<close>

text \<open>The handler ends in the application's error handler or in its session handler.\<close>

datatype callback_outcome = CallbackFailed string "sdk_error option" | CallbackSession SdkSession

definition HandleCallbackWithError ::
  "net \<Rightarrow> (string \<Rightarrow> json option) \<Rightarrow> sdk_config \<Rightarrow> request \<Rightarrow> http_call list \<Rightarrow> callback_outcome \<times> http_call list" where
  "HandleCallbackWithError N J cfg r sent =
     (if rqQuery r ''error'' \<noteq> [] then (CallbackFailed (rqQuery r ''error'') None, sent)
      else if rqQuery r ''code'' = [] then (CallbackFailed ErrCodeMissingCode None, sent)
      else
        (case SdkExchange N J cfg (rqQuery r ''code'') sent of
           (Inl err, sent') \<Rightarrow> (CallbackFailed ErrCodeExchangeFailed (Some err), sent')
         | (Inr s, sent') \<Rightarrow> (CallbackSession s, sent')))"

text \<open>\<open>HandleCallback\<close>, without an error handler: the page, or the session.\<close>

definition HandleCallback ::
  "net \<Rightarrow> (string \<Rightarrow> json option) \<Rightarrow> sdk_config \<Rightarrow> request \<Rightarrow> http_call list \<Rightarrow> (int \<times> string + SdkSession) \<times> http_call list" where
  "HandleCallback N J cfg r sent =
     (case HandleCallbackWithError N J cfg r sent of
        (CallbackFailed code err, sent') \<Rightarrow> (Inl (WriteErrorPage 401 code (scSignInURL cfg)), sent')
      | (CallbackSession s, sent') \<Rightarrow> (Inr s, sent'))"

definition CallbackState :: "request \<Rightarrow> string" where
  "CallbackState r = rqQuery r ''state''"

section \<open>Facts\<close>

lemma html_escape_inert: "c \<in> set (html_escape s) \<Longrightarrow> c \<notin> {CHR ''<'', CHR ''>'', CHR 0x22, CHR 0x27}"
  by (auto simp: html_escape_def html_escape_byte_def split: if_splits)

text \<open>A page depends on its code through one of a few messages only.\<close>

definition known_codes :: "string list" where
  "known_codes = [ErrCodeManualLinkRequired, ErrCodeAlreadyLinked, ErrCodeAccessDenied, ErrCodeAccountDisabled,
     ErrCodeExchangeFailed, ErrCodeMissingCode, ErrCodeLoginFailed]"

lemma unknown_code:
  assumes "c \<notin> set known_codes"
  shows "WriteErrorPage st c url = WriteErrorPage st [] url"
proof -
  have "Message c = Message []" "Retryable c = Retryable []"
    using assms by (simp_all add: Message_def Retryable_def known_codes_def callback_codes)
  then show ?thesis by (simp add: WriteErrorPage_def error_action_def)
qed

text \<open>The guard of an application, on every branch: a bad token is told from missing keys.\<close>

lemma sdk_guard_decides:
  "SdkRequireUser W cfg now k r =
     (if bearerToken r = [] then Refused 401 ''unauthorized'' ''missing bearer token''
      else case kcSet k of
        None \<Rightarrow> Refused 503 ''keys_unavailable'' ''cannot verify tokens right now''
      | Some ks \<Rightarrow>
          if 0 < scJWKSMaxStale cfg \<and> scJWKSMaxStale cfg < now - kcFetchedAt k
          then Refused 503 ''keys_unavailable'' ''cannot verify tokens right now''
          else case jwt_parse W ks (scIssuer cfg) (scAudience cfg) now (bearerToken r) of
            None \<Rightarrow> Refused 401 ''unauthorized'' ''invalid or expired token''
          | Some t \<Rightarrow> Admitted (sdk_user_of t))"
  by (cases "kcSet k")
    (simp_all add: SdkRequireUser_def SdkVerify_def get_keys_def errorIsKeyProblem_def Let_def split: option.split)

section \<open>Properties\<close>

text \<open>C38: the page of a failed callback reflects nothing of the request: whatever the query says, the
  application shows, with status 401, the page of one of the seven known codes or the default page; a
  code is exchanged only when the query has no error, and a session is handed over only when the
  service gave it.\<close>

theorem callback_reflects_nothing:
  "case HandleCallback N J cfg r sent of
     (Inl page, sent') \<Rightarrow> (\<exists>c \<in> set ([] # known_codes). page = WriteErrorPage 401 c (scSignInURL cfg)) \<and>
       (rqQuery r ''error'' \<noteq> [] \<longrightarrow> sent' = sent)
   | (Inr s, sent') \<Rightarrow> rqQuery r ''error'' = [] \<and> rqQuery r ''code'' \<noteq> [] \<and>
       SdkExchange N J cfg (rqQuery r ''code'') sent = (Inr s, sent')"
proof -
  have page: "\<exists>c \<in> set ([] # known_codes). WriteErrorPage 401 code url = WriteErrorPage 401 c url" for code url
    using unknown_code [of code 401 url] by (cases "code \<in> set known_codes") auto
  show ?thesis
    unfolding HandleCallback_def HandleCallbackWithError_def
    using page by (simp split: prod.split sum.split callback_outcome.split)
qed

text \<open>A query that names a script as its error.\<close>

definition script_request :: request where
  "script_request = \<lparr>rqHeader = (\<lambda>_. []), rqRemoteAddr = [], rqBody = [], rqCookie = (\<lambda>_. None),
     rqQuery = (\<lambda>k. if k = ''error'' then ''<script>'' else []), rqPathValue = (\<lambda>_. [])\<rparr>"

theorem callback_reflects_nothing_witness:
  "\<exists>c \<in> set ([] # known_codes).
     HandleCallback half_net (\<lambda>_. None) demo_sdk script_request [] = (Inl (WriteErrorPage 401 c ''/login''), [])"
proof -
  have "HandleCallback half_net (\<lambda>_. None) demo_sdk script_request [] =
      (Inl (WriteErrorPage 401 ''<script>'' ''/login''), [])"
    by (simp add: HandleCallback_def HandleCallbackWithError_def script_request_def demo_sdk_def)
  moreover from this have "\<exists>c \<in> set ([] # known_codes). WriteErrorPage 401 ''<script>'' ''/login'' = WriteErrorPage 401 c ''/login''"
    using callback_reflects_nothing [where N = half_net and J = "\<lambda>_. None" and cfg = demo_sdk and r = script_request and sent = "[]"] by (simp add: demo_sdk_def)
  ultimately show ?thesis by (metis (no_types, lifting))
qed

end
