(* ===== verification/SdkService.thy ===== *)
theory SdkService
  imports Sdk Example
begin

text \<open>
  The client library and the service together: what the library sends is what the service's handlers
  read, what the service answers is what the library reads, and the tokens the service mints are
  the ones the library's guard admits, in the application they were minted for.
\<close>

section \<open>What crosses the wire\<close>

text \<open>The encoding of a token response, by the JSON names of its fields.\<close>

definition user_json :: "userView \<Rightarrow> json" where
  "user_json u = JObj [(''id'', JStr (uvID u)), (''email'', JStr (uvEmail u)),
     (''email_verified'', JBool (uvEmailVerified u))]"

definition tokens_json :: "tokenResponse \<Rightarrow> json" where
  "tokens_json t = JObj [(''access_token'', JStr (trAccessToken t)), (''refresh_token'', JStr (trRefreshToken t)),
     (''token_type'', JStr (trTokenType t)), (''expires_in'', JNum (FormatInt (trExpiresIn t))),
     (''user'', user_json (trUser t))]"

text \<open>A request whose body is exactly one JSON value.\<close>

definition carries :: "server \<Rightarrow> request \<Rightarrow> json \<Rightarrow> bool" where
  "carries S r v \<longleftrightarrow> length (rqBody r) \<le> maxBody \<and> (\<exists>rest. srvNext S (rqBody r) = JValue v rest \<and> srvNext S rest = JEnd)"

lemma carries_decode:
  "carries S r v \<Longrightarrow> into_struct True fs v z = Some q \<Longrightarrow> decode S r fs z w = (Inr q, w)"
  by (auto simp: carries_def decode_def Let_def act)

lemma ParseInt64_FormatInt: "- (2 ^ 63) \<le> n \<Longrightarrow> n < 2 ^ 63 \<Longrightarrow> ParseInt64 (FormatInt n) = Some n"
proof -
  have digit: "\<not> HasPrefix (digits m) ''-''" for m
  proof -
    obtain c s where "digits m = c # s" by (cases "digits m") auto
    with digits_chars [of m] show ?thesis by (auto simp: HasPrefix_def is_digit_def)
  qed
  have all: "list_all is_digit (digits m)" for m by (rule digits_chars)
  assume "- (2 ^ 63) \<le> n" "n < 2 ^ 63"
  then show ?thesis
    using digit [of "nat n"] all
    by (cases "n < 0") (simp_all add: ParseInt64_def FormatInt_def HasPrefix_def decimal_digits Let_def)
qed

text \<open>The session an application is handed for a token response.\<close>

definition session_of :: "tokenResponse \<Rightarrow> SdkSession" where
  "session_of t = \<lparr>ssAccessToken = trAccessToken t, ssRefreshToken = trRefreshToken t, ssTokenType = trTokenType t,
     ssExpiresIn = trExpiresIn t, ssUser = \<lparr>suID = uvID (trUser t), suEmail = uvEmail (trUser t),
       suEmailVerified = uvEmailVerified (trUser t), suRoles = [], suSessionID = [], suExpiresAt = 0\<rparr>\<rparr>"

lemma into_session_tokens:
  assumes "- (2 ^ 63) \<le> trExpiresIn t" and "trExpiresIn t < 2 ^ 63"
  shows "into_session (tokens_json t) = Some (session_of t)"
  using ParseInt64_FormatInt [OF assms]
  by (simp add: into_session_def tokens_json_def user_json_def into_struct_def field_for_def SdkSession_fields_def
      SdkUser_fields_def zero_SdkSession_def zero_SdkUser_def session_of_def into_string_def into_bool_def into_int64_def)

section \<open>Laws of the JWT library\<close>

text \<open>A token that parses is in force, of the issuer and for the audience asked, and has the content that
  was signed.\<close>

definition tokens_bind :: "jwx \<Rightarrow> bool" where
  "tokens_bind W \<longleftrightarrow> (\<forall>t k ks iss aud now raw t'. jwt_sign W t k = Some raw \<longrightarrow>
     jwt_parse W ks iss aud now raw = Some t' \<longrightarrow>
     t' = on_the_wire t \<and> jIssuer t = iss \<and> aud \<in> set (jAudience t) \<and> now < jExpiration t)"

lemma respond_signs:
  assumes "respondWithTokens S e u aud iss w = (Inr (Some t), w')"
  shows "SignAccess (srvJwx S) (srvSigner S) (ctx e ''SignAccess'') (access_claims u aud (isSession iss)) =
    Inr (trAccessToken t)"
  using assms by (auto simp: respondWithTokens_def seq_def setRefreshCookie_def set_cookie_def act split: sum.splits)

section \<open>An example\<close>

text \<open>A library that signs one token, for Ann at the application, and knows it again while it is in force,
  for its issuer and audience; a service that uses it; the environment the token is minted in.\<close>

abbreviation anns_jwt :: jwt where
  "anns_jwt \<equiv> access_jwt demo_signer (calm 10 ''J'' CHR ''a'') demo_claims"

definition strict_jwx :: jwx where
  "strict_jwx = demo_jwx\<lparr>jwt_parse := (\<lambda>ks i a now raw.
     if raw = ''raw'' \<and> i = ''iss'' \<and> a = ''app'' \<and> in_force anns_jwt now then Some (on_the_wire anns_jwt) else None)\<rparr>"

definition strict_server :: server where
  "strict_server = (demo_server JNull None)\<lparr>srvJwx := strict_jwx\<rparr>"

definition mint_env :: env where
  "mint_env = \<lparr>ctx = (\<lambda>_. calm 10 ''J'' CHR ''a''), delivers = (\<lambda>_. True)\<rparr>"

definition raw_request :: request where
  "raw_request = demo_request\<lparr>rqHeader := (\<lambda>h. if h = ''Authorization'' then ''Bearer raw'' else [])\<rparr>"

lemma strict_laws: "signatures_verify strict_jwx" "keys_collect strict_jwx" "tokens_bind strict_jwx"
  by (auto simp: signatures_verify_def keys_collect_def tokens_bind_def strict_jwx_def demo_jwx_def access_jwt_def
      demo_signer_def demo_claims_def in_force_def Truncate_def Let_def split: if_splits)

text \<open>What a signer is made of does not depend on how tokens are parsed.\<close>

lemma NewSigner_parse [simp]: "NewSigner H (W\<lparr>jwt_parse := f\<rparr>) c = NewSigner H W c"
proof -
  have "parseKey H (W\<lparr>jwt_parse := f\<rparr>) s = parseKey H W s" for s
    by (simp add: parseKey_def Let_def split: option.split)
  moreover have "addPublic (W\<lparr>jwt_parse := f\<rparr>) ks k = addPublic W ks k" for ks k
    by (simp add: addPublic_def)
  ultimately show ?thesis unfolding NewSigner_def by presburger
qed

lemma strict_NewSigner: "NewSigner plain strict_jwx demo_config = Inr demo_signer"
  by (simp add: strict_jwx_def demo_NewSigner)

lemma strict_server_simps [simp]:
  "srvLib strict_server = plain" "srvJwx strict_server = strict_jwx" "srvSigner strict_server = demo_signer"
  "ctx mint_env site = calm 10 ''J'' CHR ''a''"
  by (simp_all add: strict_server_def demo_server_def mint_env_def)

definition first_issued :: IssuedSession where
  "first_issued = \<lparr>isSession = first_session, RefreshToken = ''r''\<rparr>"

lemma anns_claims: "access_claims demo_user ''app'' (isSession first_issued) = demo_claims"
  by (simp add: access_claims_def demo_user_def first_issued_def first_session_def demo_claims_def EmailVerified_def)

lemma raw_answer: "\<exists>t w'. respondWithTokens strict_server mint_env demo_user ''app'' first_issued (on_world demo_db) =
    (Inr (Some t), w') \<and> trAccessToken t = ''raw''"
  by (simp add: respondWithTokens_def anns_claims SignAccess_def strict_jwx_def demo_jwx_def seq_def setRefreshCookie_def
      set_cookie_def act)

lemma raw_bearer: "bearerToken raw_request = ''raw''"
  by code_simp

section \<open>Properties\<close>

text \<open>C35: the library and the service speak the same protocol: a body that carries the library's payload is
  read by the exchange, login and refresh handlers as exactly the code, credentials or refresh token
  the application gave, unknown fields refused; and the library reads from the service's answer
  exactly its tokens and its user.\<close>

theorem sdk_speaks_the_protocol:
  assumes "- (2 ^ 63) \<le> trExpiresIn t" and "trExpiresIn t < 2 ^ 63"
  shows "(carries S r (exchange_payload cfg code) \<longrightarrow> decode S r exchangeReq_fields zero_exchangeReq w =
      (Inr \<lparr>xqCode = code, xqClientID = scClientID cfg, xqClientSecret = scClientSecret cfg\<rparr>, w)) \<and>
    (carries S r (login_payload cfg email password) \<longrightarrow> decode S r registerReq_fields zero_registerReq w =
      (Inr \<lparr>rrClientID = scClientID cfg, rrEmail = email, rrPassword = password\<rparr>, w)) \<and>
    (carries S r (refresh_payload tk) \<longrightarrow> rqCookie r RefreshCookie = None \<longrightarrow> refreshTokenFrom S r = tk) \<and>
    into_session (tokens_json t) = Some (session_of t)"
proof (intro conjI impI)
  assume "carries S r (exchange_payload cfg code)"
  then show "decode S r exchangeReq_fields zero_exchangeReq w =
      (Inr \<lparr>xqCode = code, xqClientID = scClientID cfg, xqClientSecret = scClientSecret cfg\<rparr>, w)"
    by (rule carries_decode)
      (simp add: exchange_payload_def into_struct_def field_for_def exchangeReq_fields_def zero_exchangeReq_def
        into_string_def)
next
  assume "carries S r (login_payload cfg email password)"
  then show "decode S r registerReq_fields zero_registerReq w =
      (Inr \<lparr>rrClientID = scClientID cfg, rrEmail = email, rrPassword = password\<rparr>, w)"
    by (rule carries_decode)
      (simp add: login_payload_def into_struct_def field_for_def registerReq_fields_def zero_registerReq_def
        into_string_def)
next
  assume "carries S r (refresh_payload tk)" and "rqCookie r RefreshCookie = None"
  then show "refreshTokenFrom S r = tk"
    by (auto simp: carries_def refresh_payload_def refreshTokenFrom_def decodeQuiet_def field_for_def
        refreshBody_fields_def into_string_def)
next
  show "into_session (tokens_json t) = Some (session_of t)" by (rule into_session_tokens [OF assms])
qed

definition demo_tokens :: tokenResponse where
  "demo_tokens = \<lparr>trAccessToken = ''jwt'', trRefreshToken = ''r'', trTokenType = ''Bearer'', trExpiresIn = 3600,
     trUser = \<lparr>uvID = ''A'', uvEmail = ''ann@x.io'', uvEmailVerified = True\<rparr>\<rparr>"

theorem sdk_speaks_the_protocol_witness:
  "refreshTokenFrom (demo_server (refresh_payload ''r'') None) demo_request = ''r'' \<and>
   into_session (tokens_json demo_tokens) = Some (session_of demo_tokens)"
proof -
  let ?S = "demo_server (refresh_payload ''r'') None"
  have "carries ?S demo_request (refresh_payload ''r'')"
    by (simp add: carries_def demo_server_def demo_request_def maxBody_def)
  moreover have "rqCookie demo_request RefreshCookie = None" by (simp add: demo_request_def)
  ultimately show ?thesis
    using sdk_speaks_the_protocol [of demo_tokens ?S demo_request demo_sdk "[]" _ "[]" "[]" "''r''"]
    by (simp add: demo_tokens_def)
qed

text \<open>C33: what the service mints its applications accept: an access token the service answers with, for a
  user and the audience of a client, is admitted by the guard of an application configured for the
  same issuer and that audience, whose cached keys are the published ones and not too old, while
  the token is in force; the application sees that user, address, verification and session.\<close>

theorem service_tokens_are_admitted:
  assumes "signatures_verify (srvJwx S)" and "keys_collect (srvJwx S)"
    and "NewSigner (srvLib S) (srvJwx S) c = Inr (srvSigner S)"
    and "respondWithTokens S e u aud iss w = (Inr (Some t), w')"
    and "scIssuer cfg = cfIssuer c" and "scAudience cfg = aud"
    and "kcSet k = Some ks" and "set ks = set (JWKS (srvSigner S))"
    and "scJWKSMaxStale cfg \<le> 0 \<or> now - kcFetchedAt k \<le> scJWKSMaxStale cfg"
    and "in_force (access_jwt (srvSigner S) (ctx e ''SignAccess'') (access_claims u aud (isSession iss))) now"
    and "bearerToken r = trAccessToken t" and "trAccessToken t \<noteq> []"
  shows "SdkRequireUser (srvJwx S) cfg now k r = Admitted
    \<lparr>suID = uID u, suEmail = uEmail u, suEmailVerified = EmailVerified u, suRoles = [], suSessionID = sID (isSession iss),
     suExpiresAt = Truncate (clk (ctx e ''SignAccess'') 0 + AccessTTL (srvSigner S)) second\<rparr>"
proof -
  let ?W = "srvJwx S" and ?x = "ctx e ''SignAccess''" and ?c = "access_claims u aud (isSession iss)"
  let ?t = "access_jwt (srvSigner S) ?x ?c"
  have "jwt_sign ?W ?t (sgSignKey (srvSigner S)) = Some (trAccessToken t)"
    using respond_signs [OF assms(4)] by (simp add: SignAccess_def split: option.splits)
  moreover have "public_half (sgSignKey (srvSigner S)) \<in> set ks"
    using NewSigner_publishes(1) [OF assms(3,2)] assms(8) by (simp add: JWKS_def)
  moreover have "aud \<in> set (jAudience ?t)" "jIssuer ?t = scIssuer cfg"
    using NewSigner_Inr(2) [OF assms(3)] assms(5) by (simp_all add: access_jwt_def access_claims_def Let_def)
  ultimately have "jwt_parse ?W ks (scIssuer cfg) aud now (trAccessToken t) = Some (on_the_wire ?t)"
    using assms(1,10) unfolding signatures_verify_def by metis
  moreover have "\<not> (0 < scJWKSMaxStale cfg \<and> scJWKSMaxStale cfg < now - kcFetchedAt k)" using assms(9) by auto
  moreover have "sdk_user_of (on_the_wire ?t) =
    \<lparr>suID = uID u, suEmail = uEmail u, suEmailVerified = EmailVerified u, suRoles = [], suSessionID = sID (isSession iss),
     suExpiresAt = Truncate (clk ?x 0 + AccessTTL (srvSigner S)) second\<rparr>"
    by (simp add: sdk_user_of_def on_the_wire_def access_jwt_def access_claims_def str_claim_def bool_claim_def
        roles_claim_def AccessTTL_def Let_def)
  ultimately show ?thesis
    by (simp add: sdk_guard_decides assms(6,7,11,12) del: not_less not_le)
qed

theorem service_tokens_are_admitted_witness:
  "\<exists>u. SdkRequireUser strict_jwx demo_sdk 20 (csCache (cache_at 20 False [] {})) raw_request = Admitted u \<and>
    suID u = ''A'' \<and> suSessionID u = ''S1''"
proof -
  obtain t w' where t: "respondWithTokens strict_server mint_env demo_user ''app'' first_issued (on_world demo_db) =
      (Inr (Some t), w')" "trAccessToken t = ''raw''"
    using raw_answer by blast
  have force: "in_force anns_jwt 20"
    by (simp add: in_force_def access_jwt_def demo_signer_def Let_def Truncate_def)
  show ?thesis
    using service_tokens_are_admitted [of strict_server demo_config mint_env demo_user "''app''" first_issued
        "on_world demo_db" t w' demo_sdk "csCache (cache_at 20 False [] {})" "[public_half demo_key]" 20 raw_request]
      strict_laws strict_NewSigner t force
    by (simp add: demo_sdk_def demo_config_def cache_at_def JWKS_def demo_signer_def DefaultJWKSMaxStale_def anns_claims
        raw_bearer) (simp add: demo_user_def first_issued_def first_session_def)
qed

text \<open>C34: a token works in its own application only: the guard of an application refuses every token the
  service minted for another audience, by another issuer, or that has expired, whatever keys are
  cached.\<close>

theorem tokens_stay_in_their_app:
  assumes "tokens_bind (srvJwx S)"
    and "respondWithTokens S e u aud iss w = (Inr (Some t), w')"
    and "scAudience cfg \<noteq> aud \<or> scIssuer cfg \<noteq> sgIssuer (srvSigner S) \<or>
      clk (ctx e ''SignAccess'') 0 + AccessTTL (srvSigner S) \<le> now"
    and "bearerToken r = trAccessToken t"
  shows "\<exists>status code msg. SdkRequireUser (srvJwx S) cfg now k r = Refused status code msg \<and> status \<in> {401, 503}"
proof -
  let ?W = "srvJwx S" and ?c = "access_claims u aud (isSession iss)"
  let ?t = "access_jwt (srvSigner S) (ctx e ''SignAccess'') ?c"
  have signed: "jwt_sign ?W ?t (sgSignKey (srvSigner S)) = Some (trAccessToken t)"
    using respond_signs [OF assms(2)] by (simp add: SignAccess_def split: option.splits)
  have "jwt_parse ?W ks (scIssuer cfg) (scAudience cfg) now (trAccessToken t) = None" for ks
  proof (rule ccontr)
    assume "jwt_parse ?W ks (scIssuer cfg) (scAudience cfg) now (trAccessToken t) \<noteq> None"
    then obtain t' where "jwt_parse ?W ks (scIssuer cfg) (scAudience cfg) now (trAccessToken t) = Some t'" by blast
    with assms(1) signed have "jIssuer ?t = scIssuer cfg" "scAudience cfg \<in> set (jAudience ?t)" "now < jExpiration ?t"
      unfolding tokens_bind_def by blast+
    with assms(3) show False by (auto simp: access_jwt_def access_claims_def AccessTTL_def Let_def)
  qed
  then show ?thesis by (simp add: sdk_guard_decides assms(4) split: option.split)
qed

text \<open>Another application, and Ann's token.\<close>

theorem tokens_stay_in_their_app_witness:
  "\<exists>status code msg. SdkRequireUser strict_jwx (demo_sdk\<lparr>scAudience := ''other''\<rparr>) 20
     (csCache (cache_at 20 False [] {})) raw_request = Refused status code msg"
proof -
  obtain t w' where t: "respondWithTokens strict_server mint_env demo_user ''app'' first_issued (on_world demo_db) =
      (Inr (Some t), w')" "trAccessToken t = ''raw''"
    using raw_answer by blast
  have "\<exists>status code msg. SdkRequireUser (srvJwx strict_server) (demo_sdk\<lparr>scAudience := ''other''\<rparr>) 20
      (csCache (cache_at 20 False [] {})) raw_request = Refused status code msg \<and> status \<in> {401, 503}"
    by (rule tokens_stay_in_their_app [OF _ t(1)]) (simp_all add: strict_laws raw_bearer t(2))
  then show ?thesis by auto
qed

end
