(* ===== verification/Settings.thy ===== *)
theory Settings
  imports Json
begin

text \<open>
  \<open>internal/config\<close>: the configuration read from the environment, with the two parsers of the
  standard library it uses, \<open>time.ParseDuration\<close> and \<open>strconv.Atoi\<close>. The environment is the function
  \<open>os.Getenv\<close>, which is empty where a variable is not set.
\<close>

section \<open>\<open>time.ParseDuration\<close>\<close>

text \<open>Durations here count nanoseconds. \<open>fl f unit scale\<close> is the product of floating point numbers
  \<open>float64(f) * (float64(unit) / scale)\<close>, cut off to an integer; it is the only inexact step.\<close>

fun leadingInt :: "nat \<Rightarrow> string \<Rightarrow> (nat \<times> string) option" where
  "leadingInt x [] = Some (x, [])"
| "leadingInt x (c # s) =
     (if \<not> is_digit c then Some (x, c # s)
      else if 2 ^ 63 div 10 < x then None
      else let y = x * 10 + digit_value c in if 2 ^ 63 < y then None else leadingInt y s)"

text \<open>Digits that no longer fit are skipped.\<close>

fun leadingFraction :: "nat \<Rightarrow> nat \<Rightarrow> bool \<Rightarrow> string \<Rightarrow> nat \<times> nat \<times> string" where
  "leadingFraction x scale overflow [] = (x, scale, [])"
| "leadingFraction x scale overflow (c # s) =
     (if \<not> is_digit c then (x, scale, c # s)
      else if overflow then leadingFraction x scale True s
      else if (2 ^ 63 - 1) div 10 < x then leadingFraction x scale True s
      else let y = x * 10 + digit_value c in
        if 2 ^ 63 < y then leadingFraction x scale True s else leadingFraction y (scale * 10) False s)"

definition unitMap :: "(string \<times> nat) list" where
  "unitMap = [(''ns'', 1), (''us'', 1000), ([CHR 0xC2, CHR 0xB5, CHR ''s''], 1000),
     ([CHR 0xCE, CHR 0xBC, CHR ''s''], 1000), (''ms'', 1000000), (''s'', 1000000000),
     (''m'', 60 * 1000000000), (''h'', 3600 * 1000000000)]"

definition in_unit :: "char \<Rightarrow> bool" where
  "in_unit c \<longleftrightarrow> c \<noteq> CHR ''.'' \<and> \<not> is_digit c"

text \<open>One number with its unit, in nanoseconds, and what follows it.\<close>

definition next_part :: "(nat \<Rightarrow> nat \<Rightarrow> nat \<Rightarrow> nat) \<Rightarrow> string \<Rightarrow> (nat \<times> string) option" where
  "next_part fl s =
     (if s = [] \<or> in_unit (hd s) then None
      else case leadingInt 0 s of
        None \<Rightarrow> None
      | Some (v, s1) \<Rightarrow>
          let pre = (length s1 \<noteq> length s);
              dot = (s1 \<noteq> [] \<and> hd s1 = CHR ''.'');
              (f, scale, s2) = (if dot then leadingFraction 0 1 False (tl s1) else (0, 1, s1));
              post = (dot \<and> length s2 \<noteq> length (tl s1));
              u = takeWhile in_unit s2
          in if \<not> pre \<and> \<not> post then None
             else if u = [] then None
             else case map_of unitMap u of
               None \<Rightarrow> None
             | Some unit \<Rightarrow>
                 if 2 ^ 63 div unit < v then None
                 else let w = v * unit + (if 0 < f then fl f unit scale else 0)
                   in if 0 < f \<and> 2 ^ 63 < w then None else Some (w, drop (length u) s2))"

lemma leadingInt_length: "leadingInt x s = Some (v, r) \<Longrightarrow> length r \<le> length s"
  by (induction x s rule: leadingInt.induct) (auto simp: Let_def split: if_splits)

lemma leadingFraction_length: "leadingFraction x sc b s = (f, scale, r) \<Longrightarrow> length r \<le> length s"
  by (induction x sc b s rule: leadingFraction.induct) (auto simp: Let_def split: if_splits)

lemma next_part_length:
  assumes "next_part fl s = Some (w, r)"
  shows "length r < length s"
proof -
  obtain v s1 where s1: "leadingInt 0 s = Some (v, s1)" using assms by (auto simp: next_part_def split: if_splits option.splits)
  define dot where "dot \<longleftrightarrow> s1 \<noteq> [] \<and> hd s1 = CHR ''.''"
  obtain f scale s2 where s2: "(if dot then leadingFraction 0 1 False (tl s1) else (0, 1, s1)) = (f, scale, s2)"
    by (metis prod_cases3)
  have "length s2 \<le> length s1"
    using s2 leadingFraction_length [of 0 1 False "tl s1" f scale s2] by (auto split: if_splits)
  moreover have "takeWhile in_unit s2 \<noteq> [] \<and> r = drop (length (takeWhile in_unit s2)) s2"
    using assms s1 s2 by (auto simp: next_part_def Let_def dot_def split: if_splits option.splits)
  ultimately show ?thesis using leadingInt_length [OF s1] by (cases s2) (auto split: if_splits)
qed

text \<open>The sum of the parts; its addition is that of \<open>uint64\<close>.\<close>

function sum_parts :: "(nat \<Rightarrow> nat \<Rightarrow> nat \<Rightarrow> nat) \<Rightarrow> nat \<Rightarrow> string \<Rightarrow> nat option" where
  "sum_parts fl d s =
     (if s = [] then Some d
      else case next_part fl s of
        None \<Rightarrow> None
      | Some (w, r) \<Rightarrow>
          let d' = (d + w) mod 2 ^ 64 in if 2 ^ 63 < d' then None else sum_parts fl d' r)"
  by pat_completeness auto
termination
  by (relation "measure (\<lambda>(fl, d, s). length s)") (auto simp: next_part_length)

declare sum_parts.simps [simp del]

definition ParseDuration :: "(nat \<Rightarrow> nat \<Rightarrow> nat \<Rightarrow> nat) \<Rightarrow> string \<Rightarrow> int option" where
  "ParseDuration fl s =
     (let neg = HasPrefix s ''-'';
          rest = (if neg \<or> HasPrefix s ''+'' then tl s else s)
      in if rest = ''0'' then Some 0
         else if rest = [] then None
         else case sum_parts fl 0 rest of
           None \<Rightarrow> None
         | Some d \<Rightarrow>
             if neg then Some (- int d)
             else if 2 ^ 63 - 1 < d then None
             else Some (int d))"

text \<open>\<open>strconv.Atoi\<close> on a 64-bit machine.\<close>

definition Atoi :: "string \<Rightarrow> int option" where
  "Atoi s = (if HasPrefix s ''+'' then (if HasPrefix (tl s) ''-'' then None else ParseInt64 (tl s)) else ParseInt64 s)"

section \<open>\<open>config.go\<close>\<close>

record OAuthApp =
  oaClientID :: string
  oaClientSecret :: string

definition OAuthApp_Configured :: "OAuthApp \<Rightarrow> bool" where
  "OAuthApp_Configured a \<longleftrightarrow> oaClientID a \<noteq> [] \<and> oaClientSecret a \<noteq> []"

record SMTP =
  smHost :: string
  smPort :: int
  smUser :: string
  smPass :: string
  smFrom :: string

definition SMTP_Configured :: "SMTP \<Rightarrow> bool" where
  "SMTP_Configured s \<longleftrightarrow> smHost s \<noteq> [] \<and> smFrom s \<noteq> []"

text \<open>\<open>Config\<close>; \<open>AccessTTL\<close> in nanoseconds.\<close>

record ServiceConfig =
  scfPort :: string
  scfIssuer :: string
  scfDatabaseURL :: string
  scfSigningKey :: string
  scfSigningKeyNext :: string
  scfAccessTTL :: int
  scfGoogle :: OAuthApp
  scfGitHub :: OAuthApp
  scfSMTP :: SMTP
  scfResendAPIKey :: string
  scfMailFrom :: string
  scfAdminAPIKey :: string
  scfContactEmail :: string
  scfDev :: bool

definition MailConfigured :: "ServiceConfig \<Rightarrow> bool" where
  "MailConfigured c \<longleftrightarrow> scfResendAPIKey c \<noteq> [] \<and> scfMailFrom c \<noteq> [] \<or> SMTP_Configured (scfSMTP c)"

definition env_or :: "(string \<Rightarrow> string) \<Rightarrow> string \<Rightarrow> string \<Rightarrow> string" where
  "env_or getenv k def = (if getenv k \<noteq> [] then getenv k else def)"

text \<open>The fields \<open>Load\<close> fills in first, before anything is parsed.\<close>

definition raw_config :: "(string \<Rightarrow> string) \<Rightarrow> ServiceConfig" where
  "raw_config getenv =
     \<lparr>scfPort = env_or getenv ''PORT'' ''8080'',
      scfIssuer = TrimRight (env_or getenv ''ISSUER'' ''http://localhost:8080'') ''/'',
      scfDatabaseURL = getenv ''DATABASE_URL'',
      scfSigningKey = getenv ''ED25519_PRIVATE_KEY'',
      scfSigningKeyNext = getenv ''ED25519_PRIVATE_KEY_NEXT'',
      scfAccessTTL = 0,
      scfGoogle = \<lparr>oaClientID = getenv ''GOOGLE_CLIENT_ID'', oaClientSecret = getenv ''GOOGLE_CLIENT_SECRET''\<rparr>,
      scfGitHub = \<lparr>oaClientID = getenv ''GITHUB_CLIENT_ID'', oaClientSecret = getenv ''GITHUB_CLIENT_SECRET''\<rparr>,
      scfSMTP = \<lparr>smHost = getenv ''SMTP_HOST'', smPort = 0, smUser = getenv ''SMTP_USER'', smPass = getenv ''SMTP_PASS'',
        smFrom = getenv ''SMTP_FROM''\<rparr>,
      scfResendAPIKey = getenv ''RESEND_API_KEY'',
      scfMailFrom = getenv ''MAIL_FROM'',
      scfAdminAPIKey = getenv ''ADMIN_API_KEY'',
      scfContactEmail = getenv ''CONTACT_EMAIL'',
      scfDev = (env_or getenv ''DEV'' [] \<noteq> [])\<rparr>"

datatype config_error = BadAccessTTL | BadSMTPPort | MissingEnv "string list" | IssuerNotHTTPS

definition missing :: "ServiceConfig \<Rightarrow> string list" where
  "missing c =
     (if scfDatabaseURL c = [] then [''DATABASE_URL''] else []) @
     (if scfSigningKey c = [] then [''ED25519_PRIVATE_KEY''] else []) @
     (if scfAdminAPIKey c = [] then [''ADMIN_API_KEY''] else [])"

definition Load :: "(nat \<Rightarrow> nat \<Rightarrow> nat \<Rightarrow> nat) \<Rightarrow> (string \<Rightarrow> string) \<Rightarrow> config_error + ServiceConfig" where
  "Load fl getenv =
     (let c0 = raw_config getenv in
      case ParseDuration fl (env_or getenv ''ACCESS_TTL'' ''1h'') of
        None \<Rightarrow> Inl BadAccessTTL
      | Some ttl \<Rightarrow>
          (case (if getenv ''SMTP_PORT'' \<noteq> [] then Atoi (getenv ''SMTP_PORT'') else Some 587) of
             None \<Rightarrow> Inl BadSMTPPort
           | Some port \<Rightarrow>
               let c1 = c0\<lparr>scfAccessTTL := ttl, scfSMTP := (scfSMTP c0)\<lparr>smPort := port\<rparr>\<rparr> in
               if missing c1 \<noteq> [] then Inl (MissingEnv (missing c1))
               else
                 let c2 = (if scfMailFrom c1 = [] then c1\<lparr>scfMailFrom := smFrom (scfSMTP c1)\<rparr> else c1)
                 in if \<not> scfDev c2 \<and> \<not> HasPrefix (scfIssuer c2) ''https://'' then Inl IssuerNotHTTPS
                    else Inr c2))"

section \<open>Facts\<close>

lemma HasPrefix_append [simp]: "HasPrefix (p @ s) p"
  by (simp add: HasPrefix_def)

lemma Load_shape:
  assumes "Load fl getenv = Inr c"
  obtains ttl port c1 where "ParseDuration fl (env_or getenv ''ACCESS_TTL'' ''1h'') = Some ttl"
    "c1 = (raw_config getenv)\<lparr>scfAccessTTL := ttl, scfSMTP := (scfSMTP (raw_config getenv))\<lparr>smPort := port\<rparr>\<rparr>"
    "missing c1 = []" "scfDev c \<or> HasPrefix (scfIssuer c) ''https://''"
    "c = (if scfMailFrom c1 = [] then c1\<lparr>scfMailFrom := smFrom (scfSMTP c1)\<rparr> else c1)"
  using assms unfolding Load_def Let_def by (fastforce split: option.splits if_splits)

lemma missing_Nil: "missing c = [] \<longleftrightarrow> scfDatabaseURL c \<noteq> [] \<and> scfSigningKey c \<noteq> [] \<and> scfAdminAPIKey c \<noteq> []"
  by (simp add: missing_def)

lemma env_or_not_Nil [simp]: "def \<noteq> [] \<Longrightarrow> env_or getenv k def \<noteq> []"
  by (simp add: env_or_def)

lemma Load_Inr:
  assumes "Load fl getenv = Inr c"
  shows "scfDatabaseURL c \<noteq> []" "scfSigningKey c \<noteq> []" "scfAdminAPIKey c \<noteq> []" "scfPort c \<noteq> []"
    "scfDev c \<or> HasPrefix (scfIssuer c) ''https://''"
    "scfIssuer c = TrimRight (env_or getenv ''ISSUER'' ''http://localhost:8080'') ''/''"
    "scfDev c \<longleftrightarrow> getenv ''DEV'' \<noteq> []"
    "ParseDuration fl (env_or getenv ''ACCESS_TTL'' ''1h'') = Some (scfAccessTTL c)"
    "scfMailFrom c = (if getenv ''MAIL_FROM'' \<noteq> [] then getenv ''MAIL_FROM'' else smFrom (scfSMTP c))"
    "scfAdminAPIKey c = getenv ''ADMIN_API_KEY''"
proof -
  obtain ttl port c1 where p: "ParseDuration fl (env_or getenv ''ACCESS_TTL'' ''1h'') = Some ttl"
    and c1: "c1 = (raw_config getenv)\<lparr>scfAccessTTL := ttl, scfSMTP := (scfSMTP (raw_config getenv))\<lparr>smPort := port\<rparr>\<rparr>"
    and m: "missing c1 = []" and h: "scfDev c \<or> HasPrefix (scfIssuer c) ''https://''"
    and c: "c = (if scfMailFrom c1 = [] then c1\<lparr>scfMailFrom := smFrom (scfSMTP c1)\<rparr> else c1)"
    by (rule Load_shape [OF assms])
  have same: "scfDatabaseURL c = scfDatabaseURL c1" "scfSigningKey c = scfSigningKey c1"
    "scfAdminAPIKey c = scfAdminAPIKey c1" "scfPort c = scfPort c1" "scfIssuer c = scfIssuer c1" "scfDev c = scfDev c1"
    "scfAccessTTL c = scfAccessTTL c1" "scfSMTP c = scfSMTP c1"
    "scfMailFrom c = (if scfMailFrom c1 = [] then smFrom (scfSMTP c1) else scfMailFrom c1)"
    unfolding c by simp_all
  show "scfDatabaseURL c \<noteq> []" "scfSigningKey c \<noteq> []" "scfAdminAPIKey c \<noteq> []"
    using m unfolding same missing_Nil by simp_all
  show "scfDev c \<or> HasPrefix (scfIssuer c) ''https://''" by (rule h)
  show "scfPort c \<noteq> []" "scfIssuer c = TrimRight (env_or getenv ''ISSUER'' ''http://localhost:8080'') ''/''"
    "scfDev c \<longleftrightarrow> getenv ''DEV'' \<noteq> []" "scfAdminAPIKey c = getenv ''ADMIN_API_KEY''"
    "ParseDuration fl (env_or getenv ''ACCESS_TTL'' ''1h'') = Some (scfAccessTTL c)"
    unfolding same c1 p by (simp_all add: raw_config_def, simp add: env_or_def)
  show "scfMailFrom c = (if getenv ''MAIL_FROM'' \<noteq> [] then getenv ''MAIL_FROM'' else smFrom (scfSMTP c))"
    unfolding same c1 by (simp add: raw_config_def)
qed

text \<open>What is missing is named, all of it, and nothing else is reported before a malformed value.\<close>

lemma Load_missing:
  assumes "Load fl getenv = Inl (MissingEnv names)"
  shows "names \<noteq> []" "set names = {k \<in> {''DATABASE_URL'', ''ED25519_PRIVATE_KEY'', ''ADMIN_API_KEY''}. getenv k = []}"
proof -
  obtain ttl port where "names = missing ((raw_config getenv)\<lparr>scfAccessTTL := ttl,
      scfSMTP := (scfSMTP (raw_config getenv))\<lparr>smPort := port\<rparr>\<rparr>)" "names \<noteq> []"
    using assms unfolding Load_def Let_def by (fastforce split: option.splits if_splits)
  then show "names \<noteq> []" "set names = {k \<in> {''DATABASE_URL'', ''ED25519_PRIVATE_KEY'', ''ADMIN_API_KEY''}. getenv k = []}"
    by (auto simp: missing_def raw_config_def)
qed

text \<open>A duration fits 64 bits.\<close>

lemma sum_parts_bound: "sum_parts fl d s = Some e \<Longrightarrow> d \<le> 2 ^ 63 \<Longrightarrow> e \<le> 2 ^ 63"
proof (induction fl d s rule: sum_parts.induct)
  case (1 fl d s)
  show ?case
  proof (cases "s = []")
    case True
    with "1.prems" show ?thesis by (simp add: sum_parts.simps)
  next
    case False
    then obtain w r where part: "next_part fl s = Some (w, r)"
      using "1.prems"(1) by (subst (asm) sum_parts.simps) (auto split: option.splits)
    let ?d = "(d + w) mod 2 ^ 64"
    have small: "\<not> 2 ^ 63 < ?d" and rest: "sum_parts fl ?d r = Some e"
      using "1.prems"(1) False part by (subst (asm) sum_parts.simps; simp add: Let_def split: if_splits)+
    show ?thesis by (rule "1.IH" [OF False part refl refl small rest]) (use small in simp)
  qed
qed

lemma ParseDuration_bounds:
  assumes "ParseDuration fl s = Some d"
  shows "- (2 ^ 63) \<le> d \<and> d < 2 ^ 63"
proof -
  consider "d = 0" | e r where "sum_parts fl 0 r = Some e" "d = - int e"
    | e where "d = int e" "\<not> 2 ^ 63 - 1 < e"
    using assms unfolding ParseDuration_def Let_def by (fastforce split: if_splits option.splits)
  then show ?thesis
  proof cases
    case (2 e r)
    then have "int e \<le> int (2 ^ 63)" using sum_parts_bound [of fl 0 r e] by (simp only: of_nat_le_iff)
    with 2 show ?thesis by simp
  next
    case (3 e)
    then show ?thesis by simp
  qed simp
qed

lemma ParseDuration_hour: "ParseDuration fl ''1h'' = Some (3600 * 1000000000)"
  by (simp add: ParseDuration_def HasPrefix_def sum_parts.simps next_part_def in_unit_def is_digit_def digit_value_def
      unitMap_def Let_def)

end
