(* ===== verification/Notify.thy ===== *)
theory Notify
  imports Store Json
begin

text \<open>
  \<open>internal/notify\<close>: the texts of the mails, and the three senders. The mail server and the HTTP API are
  outside the program: \<open>smtp_peer\<close> says how each step of a conversation comes out, and the log is
  what was said to it.
\<close>

section \<open>Texts: \<open>notify.go\<close>\<close>

definition KindEmail :: string where "KindEmail = ''email''"
definition KindPhone :: string where "KindPhone = ''phone''"

record Address =
  adKind :: string
  adValue :: string

definition Email :: "string \<Rightarrow> Address" where
  "Email v = \<lparr>adKind = KindEmail, adValue = v\<rparr>"

text \<open>The purposes of this package are strings; the handlers pass one for each purpose of the store.\<close>

fun purpose_name :: "Purpose \<Rightarrow> string" where
  "purpose_name PurposeLoginOTP = ''login_otp''"
| "purpose_name PurposeEmailVerify = ''email_verify''"
| "purpose_name PurposePasswordReset = ''password_reset''"

definition subjectFor :: "string \<Rightarrow> string" where
  "subjectFor p =
     (if p = ''login_otp'' then ''Your sign-in code''
      else if p = ''email_verify'' then ''Verify your email''
      else if p = ''password_reset'' then ''Reset your password''
      else ''Your code'')"

abbreviation LF :: string where "LF \<equiv> [CHR 0x0A]"
abbreviation CRLF :: string where "CRLF \<equiv> [CHR 0x0D, CHR 0x0A]"

definition em_dash :: string where
  "em_dash = [CHR 0xE2, CHR 0x80, CHR 0x94]"

definition bodyFor :: "string \<Rightarrow> string \<Rightarrow> string" where
  "bodyFor p code =
     (if p = ''login_otp'' then
        ''Your sign-in code is '' @ code @ ''. It expires in 10 minutes.'' @ LF @ LF @
        ''If you didn't ask for this, ignore this email.''
      else if p = ''email_verify'' then
        ''Confirm your email address with this token:'' @ LF @ LF @ code @ LF @ LF @ ''It expires in 24 hours.''
      else if p = ''password_reset'' then
        ''Use this token to reset your password:'' @ LF @ LF @ code @ LF @ LF @
        ''It expires in 1 hour. If you didn't ask for this, ignore this email '' @ em_dash @
        '' your password has not changed.''
      else code)"

section \<open>SMTP: \<open>smtp.go\<close>\<close>

record SMTPSender =
  seHost :: string
  sePort :: int
  seUser :: string
  sePass :: string
  seFrom :: string
  seTimeout :: duration

definition DefaultSMTPTimeout :: duration where
  "DefaultSMTPTimeout = 20 * second"

definition smtp_timeout :: "SMTPSender \<Rightarrow> duration" where
  "smtp_timeout s = (if 0 < seTimeout s then seTimeout s else DefaultSMTPTimeout)"

text \<open>\<open>net.JoinHostPort\<close> and \<open>fmt.Sprint\<close> of the port.\<close>

definition JoinHostPort :: "string \<Rightarrow> string \<Rightarrow> string" where
  "JoinHostPort host port =
     (if ContainsAny host '':%'' then ''['' @ host @ '']:'' @ port else host @ '':'' @ port)"

datatype smtp_command =
    Dial string duration
  | Greeting
  | StartTLS string
  | AuthPlain string string
  | MailFrom string
  | RcptTo string
  | Data
  | Content string
  | EndOfData
  | Quit

record smtp_peer =
  spOffersTLS :: bool
  spAccepts :: "smtp_command \<Rightarrow> bool"

datatype send_error = WrongKind string | LineBreak | Failed smtp_command | BadEncoding | BadURL | NoAnswer | Returned int string

type_synonym 'a smtp = "(smtp_command list, send_error, 'a) action"

definition say :: "smtp_peer \<Rightarrow> smtp_command \<Rightarrow> unit smtp" where
  "say peer c said = ((if spAccepts peer c then Inr () else Inl (Failed c)), said @ [c])"

definition smtp_message :: "SMTPSender \<Rightarrow> string \<Rightarrow> string \<Rightarrow> string \<Rightarrow> string" where
  "smtp_message s to p code =
     ''From: '' @ seFrom s @ CRLF @
     ''To: '' @ to @ CRLF @
     ''Subject: '' @ subjectFor p @ CRLF @
     ''MIME-Version: 1.0'' @ CRLF @
     ''Content-Type: text/plain; charset=utf-8'' @ CRLF @
     CRLF @ bodyFor p code @ CRLF"

definition SMTP_SendCode :: "SMTPSender \<Rightarrow> smtp_peer \<Rightarrow> Address \<Rightarrow> string \<Rightarrow> string \<Rightarrow> unit smtp" where
  "SMTP_SendCode s peer to p code =
     (if adKind to \<noteq> KindEmail then stop (WrongKind (adKind to))
      else if ContainsAny (adValue to) CRLF then stop LineBreak
      else
        let msg = smtp_message s (adValue to) p code in
        seq (say peer (Dial (JoinHostPort (seHost s) (FormatInt (sePort s))) (smtp_timeout s))) (\<lambda>_.
        seq (say peer Greeting) (\<lambda>_.
        seq (if spOffersTLS peer then say peer (StartTLS (seHost s)) else give ()) (\<lambda>_.
        seq (if seUser s \<noteq> [] then say peer (AuthPlain (seUser s) (sePass s)) else give ()) (\<lambda>_.
        seq (say peer (MailFrom (seFrom s))) (\<lambda>_.
        seq (say peer (RcptTo (adValue to))) (\<lambda>_.
        seq (say peer Data) (\<lambda>_.
        seq (say peer (Content msg)) (\<lambda>_.
        seq (say peer EndOfData) (\<lambda>_.
          say peer Quit))))))))))"

section \<open>The HTTP API: \<open>resend.go\<close>\<close>

record ResendSender =
  reAPIKey :: string
  reFrom :: string

definition resendURL :: string where
  "resendURL = ''https://api.resend.com/emails''"

text \<open>\<open>resendReq\<close> as it is encoded.\<close>

definition resendReq :: "string \<Rightarrow> string list \<Rightarrow> string \<Rightarrow> string \<Rightarrow> json" where
  "resendReq from to subject text =
     JObj [(''from'', JStr from), (''to'', JArr (map JStr to)), (''subject'', JStr subject), (''text'', JStr text)]"

record resend_call =
  rcURL :: string
  rcAuthorization :: string
  rcContentType :: string
  rcBody :: json

text \<open>\<open>net\<close>: no response, or its status and what could be read of its body.\<close>

definition Resend_SendCode ::
  "ResendSender \<Rightarrow> (resend_call \<Rightarrow> (int \<times> string) option) \<Rightarrow> Address \<Rightarrow> string \<Rightarrow> string \<Rightarrow> (resend_call list, send_error, unit) action" where
  "Resend_SendCode s net to p code =
     (if adKind to \<noteq> KindEmail then stop (WrongKind (adKind to))
      else if ContainsAny (adValue to) CRLF then stop LineBreak
      else
        let call = \<lparr>rcURL = resendURL, rcAuthorization = ''Bearer '' @ reAPIKey s, rcContentType = ''application/json'',
              rcBody = resendReq (reFrom s) [adValue to] (subjectFor p) (bodyFor p code)\<rparr>
        in (\<lambda>calls.
          ((case net call of
              None \<Rightarrow> Inl NoAnswer
            | Some (status, raw) \<Rightarrow>
                if status < 200 \<or> 299 < status then Inl (Returned status (TrimSpace (take (8 * 1024) raw)))
                else Inr ()),
           calls @ [call])))"

section \<open>The log: \<open>log.go\<close>\<close>

text \<open>What is written to the log: address, purpose, code.\<close>

definition Log_SendCode :: "Address \<Rightarrow> string \<Rightarrow> string \<Rightarrow> ((string \<times> string \<times> string) list, send_error, unit) action" where
  "Log_SendCode to p code written = (Inr (), written @ [(adValue to, p, code)])"

section \<open>Lines of a message\<close>

text \<open>A message as a receiver splits it: lines end with CR LF; the header is what comes before the first
  empty line.\<close>

function crlf_lines :: "string \<Rightarrow> string list" where
  "crlf_lines [] = [[]]"
| "crlf_lines (c # s) =
     (if c = CHR 0x0D \<and> take 1 s = [CHR 0x0A] then [] # crlf_lines (drop 1 s)
      else case crlf_lines s of [] \<Rightarrow> [[c]] | l # ls \<Rightarrow> (c # l) # ls)"
  by pat_completeness auto
termination by (relation "measure length") auto

definition header_lines :: "string \<Rightarrow> string list" where
  "header_lines msg = takeWhile (\<lambda>l. l \<noteq> []) (crlf_lines msg)"

definition one_line :: "string \<Rightarrow> bool" where
  "one_line s \<longleftrightarrow> CHR 0x0D \<notin> set s \<and> CHR 0x0A \<notin> set s"

lemma crlf_lines_append: "CHR 0x0D \<notin> set l \<Longrightarrow> crlf_lines (l @ CRLF @ s) = l # crlf_lines s"
  by (induction l) auto

lemma crlf_lines_concat:
  "\<forall>l \<in> set ls. CHR 0x0D \<notin> set l \<Longrightarrow> crlf_lines (concat (map (\<lambda>l. l @ CRLF) ls) @ s) = ls @ crlf_lines s"
proof (induction ls)
  case (Cons l ls)
  then show ?case using crlf_lines_append [of l "concat (map (\<lambda>l. l @ CRLF) ls) @ s"] by simp
qed simp

lemma one_line_iff: "one_line s \<longleftrightarrow> \<not> ContainsAny s CRLF"
  by (auto simp: one_line_def ContainsAny_def list_ex_iff)

lemma one_line_append [simp]: "one_line (s @ t) \<longleftrightarrow> one_line s \<and> one_line t"
  by (auto simp: one_line_def)

lemma one_line_subject: "one_line (subjectFor p)"
  by (simp add: subjectFor_def one_line_def)

definition mail_header :: "string \<Rightarrow> string \<Rightarrow> string \<Rightarrow> string list" where
  "mail_header from to p = [''From: '' @ from, ''To: '' @ to, ''Subject: '' @ subjectFor p, ''MIME-Version: 1.0'',
     ''Content-Type: text/plain; charset=utf-8'']"

lemma header_of_message:
  assumes "one_line (seFrom s)" and "one_line to"
  shows "header_lines (smtp_message s to p code) = mail_header (seFrom s) to p"
proof -
  let ?hs = "mail_header (seFrom s) to p @ [[]]" and ?rest = "bodyFor p code @ CRLF"
  have msg: "smtp_message s to p code = concat (map (\<lambda>l. l @ CRLF) ?hs) @ ?rest"
    by (simp add: smtp_message_def mail_header_def)
  have "\<forall>l \<in> set ?hs. CHR 0x0D \<notin> set l"
    using assms one_line_subject [of p] by (simp add: mail_header_def one_line_def)
  then have "crlf_lines (smtp_message s to p code) = ?hs @ crlf_lines ?rest"
    unfolding msg by (rule crlf_lines_concat)
  then show ?thesis by (simp add: header_lines_def mail_header_def)
qed

section \<open>Properties\<close>

text \<open>C40: a mail is one mail: whatever address and code the SMTP sender is given, when it reports success
  the message it handed over has exactly the five header lines of the configuration, the address
  and the purpose, none with a line break of its own, was handed over for that one recipient, and the
  credentials went out only after the connection was switched to TLS when the server offers it.\<close>

theorem mail_headers_are_fixed:
  assumes "SMTP_SendCode s peer to p code [] = (Inr (), said)" and "one_line (seFrom s)"
  shows "adKind to = KindEmail \<and>
    (\<exists>msg. filter (\<lambda>c. case c of Content _ \<Rightarrow> True | _ \<Rightarrow> False) said = [Content msg] \<and>
      header_lines msg = mail_header (seFrom s) (adValue to) p \<and> (\<forall>l \<in> set (header_lines msg). one_line l)) \<and>
    [c \<leftarrow> said. case c of RcptTo _ \<Rightarrow> True | _ \<Rightarrow> False] = [RcptTo (adValue to)] \<and>
    (spOffersTLS peer \<longrightarrow> (\<forall>before user pass after. said = before @ AuthPlain user pass # after \<longrightarrow>
       StartTLS (seHost s) \<in> set before))"
proof -
  have kind: "adKind to = KindEmail" and addr: "one_line (adValue to)"
    using assms(1) by (auto simp: SMTP_SendCode_def one_line_iff split: if_splits)
  let ?msg = "smtp_message s (adValue to) p code"
  have said: "said = [Dial (JoinHostPort (seHost s) (FormatInt (sePort s))) (smtp_timeout s), Greeting] @
      (if spOffersTLS peer then [StartTLS (seHost s)] else []) @
      (if seUser s \<noteq> [] then [AuthPlain (seUser s) (sePass s)] else []) @
      [MailFrom (seFrom s), RcptTo (adValue to), Data, Content ?msg, EndOfData, Quit]"
    using assms(1) kind addr
    by (auto simp: SMTP_SendCode_def one_line_iff Let_def seq_def say_def split: if_splits)
  have header: "header_lines ?msg = mail_header (seFrom s) (adValue to) p"
    by (rule header_of_message [OF assms(2) addr])
  moreover have "\<forall>l \<in> set (mail_header (seFrom s) (adValue to) p). one_line l"
    using assms(2) addr one_line_subject [of p] by (auto simp: mail_header_def) (simp_all add: one_line_def)
  moreover have "StartTLS (seHost s) \<in> set before"
    if "spOffersTLS peer" "said = before @ AuthPlain user pass # after" for before user pass after
    using that said by (auto simp: append_eq_Cons_conv Cons_eq_append_conv split: if_splits)
  ultimately show ?thesis using kind by (auto simp: said)
qed

definition demo_mailer :: SMTPSender where
  "demo_mailer = \<lparr>seHost = ''mail.x.io'', sePort = 587, seUser = ''u'', sePass = ''p'', seFrom = ''no-reply@x.io'', seTimeout = 0\<rparr>"

definition willing_peer :: smtp_peer where
  "willing_peer = \<lparr>spOffersTLS = True, spAccepts = (\<lambda>_. True)\<rparr>"

theorem mail_headers_are_fixed_witness:
  "\<exists>said. SMTP_SendCode demo_mailer willing_peer (Email ''ann@x.io'') ''login_otp'' ''123456'' [] = (Inr (), said) \<and>
    [c \<leftarrow> said. case c of RcptTo _ \<Rightarrow> True | _ \<Rightarrow> False] = [RcptTo ''ann@x.io'']"
proof -
  have "\<exists>said. SMTP_SendCode demo_mailer willing_peer (Email ''ann@x.io'') ''login_otp'' ''123456'' [] = (Inr (), said)"
    by (simp add: SMTP_SendCode_def Email_def KindEmail_def ContainsAny_def Let_def seq_def say_def willing_peer_def)
  then obtain said where run: "SMTP_SendCode demo_mailer willing_peer (Email ''ann@x.io'') ''login_otp'' ''123456'' [] =
      (Inr (), said)" by blast
  have "one_line (seFrom demo_mailer)" by (simp add: one_line_def demo_mailer_def)
  from mail_headers_are_fixed [OF run this] run show ?thesis by (auto simp: Email_def)
qed

text \<open>No sender delivers to an address with a line break, or one that is not a mail address.\<close>

lemma senders_refuse:
  assumes "adKind to \<noteq> KindEmail \<or> \<not> one_line (adValue to)"
  shows "\<exists>err. SMTP_SendCode s peer to p code said = (Inl err, said)"
    and "\<exists>err. Resend_SendCode rs net to p code calls = (Inl err, calls)"
  using assms by (auto simp: SMTP_SendCode_def Resend_SendCode_def one_line_iff)

end
