(* ===== verification/Pages.thy ===== *)
theory Pages
  imports Notify Token
begin

text \<open>
  The endpoints of \<open>internal/httpapi\<close> that need no account: the published key set and the health check
  (\<open>wellknown.go\<close>), and the pages a provider asks for before it lists the application (\<open>legal.go\<close>).
  A page is its status, two headers and its body; a text is written as its list of lines.
\<close>

record page =
  pgStatus :: int
  pgContentType :: string
  pgCacheControl :: string
  pgBody :: string

definition middle_dot :: string where
  "middle_dot = [CHR 0xC2, CHR 0xB7]"

text \<open>Lines joined by a line feed.\<close>

fun joined :: "string list \<Rightarrow> string" where
  "joined [] = []"
| "joined [l] = l"
| "joined (l # ls) = l @ [CHR 0x0A] @ joined ls"

section \<open>\<open>wellknown.go\<close>\<close>

text \<open>\<open>show_keys\<close>, \<open>show_map\<close>: the JSON encoding of a key set and of a map of strings.\<close>

definition handleJWKS :: "(Key list \<Rightarrow> string) \<Rightarrow> Signer \<Rightarrow> page" where
  "handleJWKS show_keys S =
     \<lparr>pgStatus = 200, pgContentType = ''application/jwk-set+json'',
      pgCacheControl = ''public, max-age=3600, stale-while-revalidate=86400'', pgBody = show_keys (JWKS S)\<rparr>"

text \<open>\<open>DB.Health\<close> asks the database for one row; \<open>flt x 0\<close> when it does not get it in time.\<close>

definition Health :: "opctx \<Rightarrow> store_error + unit" where
  "Health x = (if flt x 0 then Inl ErrDB else Inr ())"

definition handleHealth :: "((string \<times> string) list \<Rightarrow> string) \<Rightarrow> opctx \<Rightarrow> page" where
  "handleHealth show_map x =
     (let answer = (\<lambda>status m. \<lparr>pgStatus = status, pgContentType = ''application/json; charset=utf-8'',
        pgCacheControl = ''no-store'', pgBody = show_map m\<rparr>)
      in case Health x of
           Inl _ \<Rightarrow> answer 503 [(''database'', ''unreachable''), (''status'', ''unhealthy'')]
         | Inr _ \<Rightarrow> answer 200 [(''database'', ''ok''), (''status'', ''ok'')])"

section \<open>\<open>legal.go\<close>\<close>

definition TrimPrefix :: "string \<Rightarrow> string \<Rightarrow> string" where
  "TrimPrefix s p = (if HasPrefix s p then drop (length p) s else s)"

definition TrimSuffix :: "string \<Rightarrow> string \<Rightarrow> string" where
  "TrimSuffix s p = (if HasPrefix (rev s) (rev p) then take (length s - length p) s else s)"

definition hostOf :: "string \<Rightarrow> string" where
  "hostOf issuer =
     (let h = TrimPrefix (TrimPrefix issuer ''https://'') ''http://'';
          h' = TrimSuffix h ''/''
      in TrimPrefix h' ''auth.'')"

definition writeHTML :: "int \<Rightarrow> string \<Rightarrow> page" where
  "writeHTML status body =
     \<lparr>pgStatus = status, pgContentType = ''text/html; charset=utf-8'', pgCacheControl = ''public, max-age=3600'',
      pgBody = body\<rparr>"

definition legalCSS :: "string list" where
  "legalCSS =
    [[],
      '':root{color-scheme:light dark}'',
      ''body{font:16px/1.65 system-ui,-apple-system,sans-serif;max-width:44rem;'',
      ''margin:8vh auto;padding:0 1.5rem}'',
      ''h1{font-size:1.6rem;margin:0 0 .2rem}h2{font-size:1.05rem;margin:2rem 0 .4rem}'',
      ''.sub{opacity:.6;margin:0 0 2rem;font-size:.9rem}'',
      ''ul{padding-left:1.2rem}li{margin:.3rem 0}'',
      ''code{background:rgba(127,127,127,.18);padding:.1rem .3rem;border-radius:.2rem;font-size:.9em}'',
      ''a{color:#2563eb}footer{margin-top:3rem;font-size:.85rem;opacity:.6}'',
      []]"

definition legalPage :: "string \<Rightarrow> string \<Rightarrow> string \<Rightarrow> string" where
  "legalPage title sub body =
     ''<!doctype html><meta charset=\"utf-8\">'' @
     ''<meta name=\"viewport\" content=\"width=device-width,initial-scale=1\">'' @
     ''<title>'' @ title @ '' '' @ middle_dot @ '' grindlog auth</title><style>'' @ joined legalCSS @ ''</style>'' @
     ''<h1>'' @ title @ ''</h1><p class=\"sub\">'' @ sub @ ''</p>'' @ body @
     ''<footer>grindlog auth '' @ middle_dot @ '' <a href=\"/\">home</a> '' @ middle_dot @ '' <a href=\"/privacy\">privacy</a> '' @ middle_dot @ '' <a href=\"/terms\">terms</a></footer>''"

definition home_text :: "string list" where
  "home_text =
    [''<p>This is an authentication service. It is not a product you sign up for'',
      ''directly '' @ em_dash @ '' you reach it when an application asks you to sign in, and it hands'',
      ''you back to that application afterwards.</p>'',
      ''<h2>What it does</h2>'',
      ''<ul>'',
      ''<li>Signs you in with an email and password, a one-time email code, Google, or GitHub.</li>'',
      ''<li>Issues short-lived tokens the application uses to know who you are.</li>'',
      ''<li>Lets you see and revoke your active sessions.</li>'',
      ''</ul>'',
      ''<h2>Links</h2>'',
      ''<ul>'',
      ''<li><a href=\"/privacy\">Privacy policy</a></li>'',
      ''<li><a href=\"/terms\">Terms of service</a></li>'',
      ''<li><a href=\"https://github.com/zb8ne/authsvc\">Source code</a></li>'',
      ''</ul>'']"

definition privacy_text :: "string list" where
  "privacy_text =
    [''<h2>What is collected</h2>'',
      ''<ul>'',
      ''<li><strong>Your email address.</strong> Used to identify your account and to send'',
      ''verification and password-reset messages.</li>'',
      ''<li><strong>A password hash</strong>, if you set a password. The password itself is'',
      ''never stored '' @ em_dash @ '' only an <code>argon2id</code> hash of it.</li>'',
      ''<li><strong>Provider account details</strong>, if you sign in with Google or GitHub: the'',
      ''provider's stable account id, the email address they report, whether they say it'',
      ''is verified, and your display name and avatar URL.</li>'',
      ''<li><strong>Session records.</strong> One per sign-in and per token refresh, holding the'',
      ''time, an expiry, your IP address, and your browser's user-agent string. These'',
      ''exist so you can review and revoke your own sessions, and so a stolen token can'',
      ''be detected and shut off.</li>'',
      ''</ul>'',
      ''<h2>What is not collected</h2>'',
      ''<ul>'',
      ''<li>No analytics, advertising, or tracking of any kind.</li>'',
      ''<li>No payment details.</li>'',
      ''<li>No contents of the applications you sign in to.</li>'',
      ''</ul>'',
      ''<h2>Who it is shared with</h2>'',
      ''<p>Your email address is passed to the email provider (<a'',
      ''href=\"https://resend.com/legal/privacy-policy\">Resend</a>) solely to deliver'',
      ''verification and reset messages. Data is stored on managed infrastructure'',
      ''(<a href=\"https://railway.com/legal/privacy\">Railway</a>). It is not sold, and'',
      ''it is not shared with anyone else.</p>'',
      ''<p>When you sign in with Google or GitHub, that provider learns you signed in'',
      ''here. This service requests only your basic profile and email '' @ em_dash @ '' nothing else.</p>'',
      ''<h2>How long it is kept</h2>'',
      ''<p>Account records are kept until the account is deleted. Expired sessions are'',
      ''deleted automatically 30 days after they expire; one-time codes within a day.</p>'',
      ''<h2>Your choices</h2>'',
      ''<p>You can revoke individual sessions or sign out everywhere from the application'',
      ''you signed in to. To have an account and its data deleted, contact the address'',
      ''below.</p>'',
      ''<h2>Contact</h2>'',
      ''<p>'']"

definition terms_intro :: "string list" where
  "terms_intro =
    [''<h2>What this is</h2>'',
      ''<p>A sign-in service operated for applications on '']"

definition terms_text :: "string list" where
  "terms_text =
    [''. It is'',
      ''provided free of charge and without warranty of any kind.</p>'',
      ''<h2>Your responsibilities</h2>'',
      ''<ul>'',
      ''<li>Give accurate account details and keep your credentials to yourself.</li>'',
      ''<li>Do not attempt to access accounts that are not yours, and do not attempt to'',
      ''disrupt the service for others.</li>'',
      ''<li>Do not use automated means to create accounts in bulk.</li>'',
      ''</ul>'',
      ''<h2>Availability</h2>'',
      ''<p>There is no uptime guarantee. The service may change or stop at any time.'',
      ''Accounts may be suspended if used for the things listed above.</p>'',
      ''<h2>Liability</h2>'',
      ''<p>To the extent permitted by law, the operator is not liable for any loss arising'',
      ''from use of this service. It is offered as-is.</p>'',
      ''<h2>Contact</h2>'',
      ''<p>'']"

text \<open>\<open>handleHome\<close> answers for the root only; the error is the body of \<open>writeErr\<close>.\<close>

definition handleHome :: "(string \<Rightarrow> string \<Rightarrow> string) \<Rightarrow> string \<Rightarrow> string \<Rightarrow> page" where
  "handleHome show_error issuer path =
     (if path \<noteq> ''/'' then
        \<lparr>pgStatus = 404, pgContentType = ''application/json; charset=utf-8'', pgCacheControl = ''no-store'',
         pgBody = show_error ''not_found'' ''no such endpoint''\<rparr>
      else writeHTML 200 (legalPage ''grindlog auth''
        (''Sign-in service for applications on '' @ hostOf issuer @ ''.'') (joined home_text)))"

definition handlePrivacy :: "string \<Rightarrow> page" where
  "handlePrivacy contact =
     writeHTML 200 (legalPage ''Privacy policy'' ''What this service stores, and why.''
       (joined privacy_text @ contact @ ''</p>''))"

definition handleTerms :: "string \<Rightarrow> string \<Rightarrow> page" where
  "handleTerms issuer contact =
     writeHTML 200 (legalPage ''Terms of service'' ''The short version.''
       (joined terms_intro @ hostOf issuer @ joined terms_text @ contact @ ''</p>''))"

section \<open>Facts\<close>

lemma hostOf_examples:
  "hostOf ''https://auth.grindlog.lol'' = ''grindlog.lol''" "hostOf ''http://localhost:8080/'' = ''localhost:8080''"
  by (simp_all add: hostOf_def TrimPrefix_def TrimSuffix_def HasPrefix_def)

text \<open>A probe is told the truth about the database.\<close>

lemma handleHealth_status: "pgStatus (handleHealth show x) = 200 \<longleftrightarrow> \<not> flt x 0"
  by (simp add: handleHealth_def Health_def Let_def)

end
