(* ===== verification/Deploy.thy ===== *)
theory Deploy
  imports Settings Pages Example SdkNet
begin

text \<open>
  \<open>cmd/authsvc\<close>, \<open>cmd/genkey\<close>, and what they start: the OAuth providers of \<open>internal/oauth\<close>, the choice of
  a mail sender, the server of \<open>httpapi.New\<close>, the prune loop, the migrations of
  \<open>internal/store/migrate.go\<close>. The pool of connections, goose, the HTTP listener and
  \<open>golang.org/x/oauth2\<close> are outside the program; whether they succeed is an argument.
\<close>

section \<open>Providers: \<open>google.go\<close>, \<open>github.go\<close>\<close>

record oauth2_config =
  ocClientID :: string
  ocClientSecret :: string
  ocRedirectURL :: string
  ocEndpoint :: string
  ocScopes :: "string list"

text \<open>\<open>Config.AuthCodeURL\<close>, \<open>Config.Exchange\<close> and \<open>Config.Client\<close> of the library, and the JSON grammar.\<close>

record 'tok oauth_lib =
  olAuthCodeURL :: "oauth2_config \<Rightarrow> string \<Rightarrow> (string \<times> string) list \<Rightarrow> string"
  olExchange :: "oauth2_config \<Rightarrow> string \<Rightarrow> (string \<times> string) list \<Rightarrow> 'tok option"
  olClient :: "oauth2_config \<Rightarrow> 'tok \<Rightarrow> string \<Rightarrow> http_outcome"
  olJSON :: "string \<Rightarrow> json option"

definition AuthURL :: "'tok oauth_lib \<Rightarrow> oauth2_config \<Rightarrow> string \<Rightarrow> string \<Rightarrow> string" where
  "AuthURL L cfg state challenge =
     olAuthCodeURL L cfg state [(''code_challenge'', challenge), (''code_challenge_method'', ''S256'')]"

definition google_config :: "string \<Rightarrow> string \<Rightarrow> string \<Rightarrow> oauth2_config" where
  "google_config clientID clientSecret redirectURL =
     \<lparr>ocClientID = clientID, ocClientSecret = clientSecret, ocRedirectURL = redirectURL, ocEndpoint = ''google'',
      ocScopes = [''openid'', ''email'', ''profile'']\<rparr>"

definition github_config :: "string \<Rightarrow> string \<Rightarrow> string \<Rightarrow> oauth2_config" where
  "github_config clientID clientSecret redirectURL =
     \<lparr>ocClientID = clientID, ocClientSecret = clientSecret, ocRedirectURL = redirectURL, ocEndpoint = ''github'',
      ocScopes = [''read:user'', ''user:email'']\<rparr>"

definition NewGoogle :: "'tok oauth_lib \<Rightarrow> string \<Rightarrow> string \<Rightarrow> string \<Rightarrow> provider" where
  "NewGoogle L clientID clientSecret redirectURL =
     (let cfg = google_config clientID clientSecret redirectURL in
      \<lparr>pvName = ''google'', pvAuthURL = AuthURL L cfg,
       pvExchange = Google_Exchange (olJSON L) (\<lambda>code verifier. olExchange L cfg code [(''code_verifier'', verifier)])
         (olClient L cfg)\<rparr>)"

definition NewGitHub :: "'tok oauth_lib \<Rightarrow> string \<Rightarrow> string \<Rightarrow> string \<Rightarrow> provider" where
  "NewGitHub L clientID clientSecret redirectURL =
     (let cfg = github_config clientID clientSecret redirectURL in
      \<lparr>pvName = ''github'', pvAuthURL = AuthURL L cfg,
       pvExchange = GitHub_Exchange (olJSON L) (\<lambda>code verifier. olExchange L cfg code [(''code_verifier'', verifier)])
         (olClient L cfg)\<rparr>)"

section \<open>\<open>httpapi.New\<close>\<close>

definition dummyHash :: "lib \<Rightarrow> opctx \<Rightarrow> string" where
  "dummyHash H x = (case Hash H x ''this password matches nothing at all'' of Inl _ \<Rightarrow> [] | Inr h \<Rightarrow> h)"

text \<open>A server on the library functions of \<open>B\<close>; a provider replaces one of its name.\<close>

definition New_server :: "server \<Rightarrow> opctx \<Rightarrow> Signer \<Rightarrow> string \<Rightarrow> bool \<Rightarrow> server" where
  "New_server B x signer adminKey secure =
     B\<lparr>srvSigner := signer, srvAdminKey := adminKey, srvSecure := secure, srvProviders := [],
       srvDummyHash := dummyHash (srvLib B) x\<rparr>"

definition WithProviders :: "provider list \<Rightarrow> server \<Rightarrow> server" where
  "WithProviders ps S = S\<lparr>srvProviders := fold (\<lambda>p m. (pvName p, p) # m) ps (srvProviders S)\<rparr>"

definition contact_or_default :: "string \<Rightarrow> string" where
  "contact_or_default contact =
     (if contact = [] then ''See the repository at github.com/zb8ne/authsvc'' else contact)"

section \<open>\<open>cmd/authsvc/main.go\<close>\<close>

definition providers :: "'tok oauth_lib \<Rightarrow> ServiceConfig \<Rightarrow> provider list" where
  "providers L c =
     (if OAuthApp_Configured (scfGoogle c)
      then [NewGoogle L (oaClientID (scfGoogle c)) (oaClientSecret (scfGoogle c))
              (scfIssuer c @ ''/v1/oauth/google/callback'')] else []) @
     (if OAuthApp_Configured (scfGitHub c)
      then [NewGitHub L (oaClientID (scfGitHub c)) (oaClientSecret (scfGitHub c))
              (scfIssuer c @ ''/v1/oauth/github/callback'')] else [])"

datatype sender = ByResend ResendSender | BySMTP SMTPSender | ByLog

definition buildSender :: "ServiceConfig \<Rightarrow> sender option" where
  "buildSender c =
     (if scfResendAPIKey c \<noteq> [] \<and> scfMailFrom c \<noteq> []
      then Some (ByResend \<lparr>reAPIKey = scfResendAPIKey c, reFrom = scfMailFrom c\<rparr>)
      else if SMTP_Configured (scfSMTP c) then
        Some (BySMTP \<lparr>seHost = smHost (scfSMTP c), sePort = smPort (scfSMTP c), seUser = smUser (scfSMTP c),
          sePass = smPass (scfSMTP c), seFrom = smFrom (scfSMTP c), seTimeout = 0\<rparr>)
      else if scfDev c then Some ByLog
      else None)"

text \<open>The configuration counts nanoseconds, the model microseconds; a positive duration stays positive.\<close>

definition in_microseconds :: "int \<Rightarrow> duration" where
  "in_microseconds ns = (ns + 999) div 1000"

datatype startup_error =
    ConfigProblem config_error
  | MigrationFailed
  | DatabaseUnreachable
  | SignerProblem token_error
  | NoMailTransport

record service =
  svServer :: server
  svSender :: sender
  svAddr :: string
  svContact :: string

datatype run_outcome = StartFails startup_error | MigrationsApplied | Serving service

text \<open>\<open>run\<close>, up to the point where it listens: \<open>migrated\<close> and \<open>opened\<close> say whether the database could be
  migrated and opened.\<close>

definition run_service ::
  "(nat \<Rightarrow> nat \<Rightarrow> nat \<Rightarrow> nat) \<Rightarrow> (string \<Rightarrow> string) \<Rightarrow> server \<Rightarrow> 'tok oauth_lib \<Rightarrow> opctx \<Rightarrow> bool \<Rightarrow> bool \<Rightarrow> bool \<Rightarrow>
   run_outcome" where
  "run_service fl getenv B L x migrateOnly migrated opened' =
     (case Load fl getenv of
        Inl e \<Rightarrow> StartFails (ConfigProblem e)
      | Inr c \<Rightarrow>
          if migrateOnly then (if migrated then MigrationsApplied else StartFails MigrationFailed)
          else if \<not> opened' then StartFails DatabaseUnreachable
          else
            case NewSigner (srvLib B) (srvJwx B) \<lparr>cfIssuer = scfIssuer c, cfAccessTTL = in_microseconds (scfAccessTTL c),
                   cfPrivateKey = scfSigningKey c, cfNextKey = scfSigningKeyNext c\<rparr> of
              Inl e \<Rightarrow> StartFails (SignerProblem e)
            | Inr signer \<Rightarrow>
                (case buildSender c of
                   None \<Rightarrow> StartFails NoMailTransport
                 | Some s \<Rightarrow>
                     Serving \<lparr>svServer = WithProviders (providers L c)
                         (New_server B x signer (scfAdminAPIKey c) (\<not> scfDev c)),
                       svSender = s, svAddr = '':'' @ scfPort c, svContact = contact_or_default (scfContactEmail c)\<rparr>))"

text \<open>How a mail of a handler leaves through the sender: whether it was taken.\<close>

definition deliver :: "sender \<Rightarrow> smtp_peer \<Rightarrow> (resend_call \<Rightarrow> (int \<times> string) option) \<Rightarrow> mail \<Rightarrow> bool" where
  "deliver s peer net m =
     (let to = Email (mlTo m); p = purpose_name (mlPurpose m) in
      case s of
        ByResend rs \<Rightarrow> \<not> isl (fst (Resend_SendCode rs net to p (mlCode m) []))
      | BySMTP ss \<Rightarrow> \<not> isl (fst (SMTP_SendCode ss peer to p (mlCode m) []))
      | ByLog \<Rightarrow> \<not> isl (fst (Log_SendCode to p (mlCode m) [])))"

text \<open>\<open>prune\<close>: once at the start, then at each tick until the service stops; one environment per run.\<close>

definition pruneInterval :: duration where
  "pruneInterval = 6 * hour"

definition prune_loop :: "env \<Rightarrow> env list \<Rightarrow> DB \<Rightarrow> DB" where
  "prune_loop start ticks db = fold pruneOnce ticks (pruneOnce start db)"

section \<open>\<open>store/migrate.go\<close>\<close>

datatype migrate_op =
    OpenDB | LimitConnections int | AcquireLock int | SetDialect string | UpMigrations string | ReleaseLock int | CloseDB

definition migrateLockID :: int where
  "migrateLockID = 8148291374520011"

text \<open>Whether it succeeded, and what it did, deferred calls included.\<close>

definition Migrate :: "(migrate_op \<Rightarrow> bool) \<Rightarrow> bool \<times> migrate_op list" where
  "Migrate works =
     (if \<not> works OpenDB then (False, [OpenDB])
      else
        let lock = AcquireLock migrateLockID; dialect = SetDialect ''postgres''; up = UpMigrations ''migrations'';
            before = [OpenDB, LimitConnections 1, lock]; after = [ReleaseLock migrateLockID, CloseDB]
        in if \<not> works lock then (False, before @ [CloseDB])
           else if \<not> works dialect then (False, before @ [dialect] @ after)
           else (works up, before @ [dialect, up] @ after))"

section \<open>\<open>cmd/genkey\<close>\<close>

text \<open>\<open>base64.StdEncoding.EncodeToString\<close>, with padding.\<close>

definition EncodePadded :: "string \<Rightarrow> string \<Rightarrow> string" where
  "EncodePadded al bs =
     (let s = EncodeToString al bs in s @ replicate ((4 - length s mod 4) mod 4) CHR ''='')"

definition genkey :: "string \<Rightarrow> string" where
  "genkey seed = EncodePadded std_alphabet seed"

section \<open>Facts\<close>

lemma Migrate_unlocks:
  assumes "Migrate works = (b, ops)" and "AcquireLock n \<in> set ops" and "works (AcquireLock n)"
  shows "ops = butlast (butlast ops) @ [ReleaseLock n, CloseDB]"
  using assms by (auto simp: Migrate_def Let_def split: if_splits)

lemma Migrate_success: "fst (Migrate works) \<longleftrightarrow> works OpenDB \<and> works (AcquireLock migrateLockID) \<and>
    works (SetDialect ''postgres'') \<and> works (UpMigrations ''migrations'')"
  by (simp add: Migrate_def Let_def)

lemma run_service_Serving:
  assumes "run_service fl getenv B L x mo mg op = Serving svc"
  obtains c signer where "Load fl getenv = Inr c"
    "NewSigner (srvLib B) (srvJwx B) \<lparr>cfIssuer = scfIssuer c, cfAccessTTL = in_microseconds (scfAccessTTL c),
       cfPrivateKey = scfSigningKey c, cfNextKey = scfSigningKeyNext c\<rparr> = Inr signer"
    "buildSender c = Some (svSender svc)"
    "svServer svc = WithProviders (providers L c) (New_server B x signer (scfAdminAPIKey c) (\<not> scfDev c))"
  using assms unfolding run_service_def by (fastforce split: sum.splits if_splits option.splits)

lemma server_simps [simp]:
  "srvSigner (WithProviders ps S) = srvSigner S" "srvAdminKey (WithProviders ps S) = srvAdminKey S"
  "srvSecure (WithProviders ps S) = srvSecure S" "srvLib (WithProviders ps S) = srvLib S"
  "srvJwx (WithProviders ps S) = srvJwx S"
  "srvSigner (New_server B x g k b) = g" "srvAdminKey (New_server B x g k b) = k"
  "srvSecure (New_server B x g k b) = b" "srvLib (New_server B x g k b) = srvLib B"
  "srvJwx (New_server B x g k b) = srvJwx B" "srvProviders (New_server B x g k b) = []"
  by (simp_all add: WithProviders_def New_server_def)

lemma set_WithProviders: "set (srvProviders (WithProviders ps (New_server B x g k b))) = {(pvName p, p) | p. p \<in> set ps}"
proof -
  have "set (fold (\<lambda>p m. (pvName p, p) # m) ps m) = {(pvName p, p) | p. p \<in> set ps} \<union> set m" for m
    by (induction ps arbitrary: m) auto
  then show ?thesis by (simp add: WithProviders_def New_server_def)
qed

lemma provider_names [simp]: "pvName (NewGoogle L i s u) = ''google''" "pvName (NewGitHub L i s u) = ''github''"
  by (simp_all add: NewGoogle_def NewGitHub_def Let_def)

lemma buildSender_log: "buildSender c = Some ByLog \<Longrightarrow> scfDev c"
  by (simp add: buildSender_def split: if_splits)

text \<open>An application that names the service by its issuer address expects that issuer, whatever slashes
  either carries at the end.\<close>

lemma issuers_agree:
  assumes "Load fl getenv = Inr c" and "New_config cfg = Inr cfg'" and "scIssuer cfg = []"
    and "TrimRight (scBaseURL cfg) ''/'' = TrimRight (env_or getenv ''ISSUER'' ''http://localhost:8080'') ''/''"
  shows "scIssuer cfg' = scfIssuer c"
  using Load_Inr(6) [OF assms(1)] New_config_Inr(5) [OF assms(2,3)] assms(4) by simp

text \<open>A generated key is one the service starts with.\<close>

lemma length_sextets_mod: "length (sextets bs) mod 4 \<noteq> 1"
  by (induction bs rule: sextets.induct) simp_all

lemma padding:
  fixes n :: nat
  assumes "n mod 4 \<noteq> 1" and "p = (4 - n mod 4) mod 4"
  shows "p \<le> 2" "(n + p) mod 4 = 0"
proof -
  have "n mod 4 < 4" by simp
  with assms(1) consider "n mod 4 = 0" "p = 0" | "n mod 4 = 2" "p = 2" | "n mod 4 = 3" "p = 1"
    using assms(2) by (cases "n mod 4 = 0"; cases "n mod 4 = 2"; cases "n mod 4 = 3") auto
  then have "p \<le> 2 \<and> (n mod 4 + p) mod 4 = 0" by cases simp_all
  then show "p \<le> 2" "(n + p) mod 4 = 0" by (simp_all add: mod_add_left_eq)
qed

lemma DecodePadded_EncodePadded:
  assumes "alphabet al" and "CHR ''='' \<notin> set al"
  shows "DecodePadded al (EncodePadded al bs) = Some bs"
proof -
  let ?e = "EncodeToString al bs"
  define p where "p = (4 - length ?e mod 4) mod 4"
  have e: "CHR ''='' \<notin> set ?e" using set_EncodeToString [OF assms(1)] assms(2) by blast
  have "length ?e mod 4 \<noteq> 1" using length_sextets_mod by (simp add: EncodeToString_def)
  then have p: "p \<le> 2" "(length ?e + p) mod 4 = 0" using p_def by (rule padding)+
  have t: "filter (\<lambda>c. c \<noteq> CHR 0x0A \<and> c \<noteq> CHR 0x0D) (EncodePadded al bs) = ?e @ replicate p CHR ''=''"
    by (simp add: EncodePadded_def Let_def p_def filter_EncodeToString [OF assms(1)])
  have "takeWhile (\<lambda>c. c = CHR ''='') (rev ?e) = []"
    using e by (cases "rev ?e") (auto dest: arg_cong [of _ _ rev])
  then have pad: "length (takeWhile (\<lambda>c. c = CHR ''='') (rev (?e @ replicate p CHR ''=''))) = p"
    by (simp add: takeWhile_append)
  have "positions al ?e = Some (sextets bs)"
    unfolding EncodeToString_def
    by (rule positions_nth) (use assms sextets_less [of _ bs] in \<open>auto simp: alphabet_def\<close>)
  then show ?thesis
    unfolding DecodePadded_def t Let_def pad using p unsextets_lax [OF unsextets_sextets [of bs]]
    by (simp add: min_def)
qed

lemma genkey_loads:
  assumes "length seed = 32" and "jwk_ok W (seed @ ed_public W seed)"
  shows "\<exists>k. parseKey H W (genkey seed) = Inr k \<and> kPrivate k = Some (seed @ ed_public W seed)"
proof -
  have "key_bytes (genkey seed) = Some seed"
    using DecodePadded_EncodePadded [OF std_alphabet, of seed]
    by (simp add: key_bytes_def genkey_def) (simp add: std_alphabet_def)
  then show ?thesis using assms by (simp add: parseKey_def Let_def)
qed

section \<open>Properties\<close>

text \<open>C39: outside development mode the service only starts guarded: its issuer is an https address, codes
  are mailed and never written to the log, the refresh cookie is secure and hidden from scripts, a
  request without an admin key is refused by the admin endpoints (no empty key opens them), and
  every provider it offers has both credentials and the callback address under the issuer.\<close>

theorem production_is_guarded:
  assumes "run_service fl getenv B L x False migrated opened' = Serving svc" and "getenv ''DEV'' = []"
  shows "(let S = svServer svc; issuer = sgIssuer (srvSigner S) in
    HasPrefix issuer ''https://'' \<and> svSender svc \<noteq> ByLog \<and>
    (\<forall>tk expires w. ckSecure (last (wCookies (snd (setRefreshCookie S tk expires w)))) \<and>
       ckHttpOnly (last (wCookies (snd (setRefreshCookie S tk expires w))))) \<and>
    (\<forall>r (nxt :: reply handler) w. bearer r = [] \<longrightarrow> rqHeader r ''X-Admin-Key'' = [] \<longrightarrow>
       (\<exists>rep. requireAdmin S r nxt w = (Inl rep, w) \<and> error_reply rep)) \<and>
    (\<forall>(n, p) \<in> set (srvProviders S). \<exists>ident secret. ident \<noteq> [] \<and> secret \<noteq> [] \<and>
       (n = ''google'' \<and> p = NewGoogle L ident secret (issuer @ ''/v1/oauth/google/callback'') \<or>
        n = ''github'' \<and> p = NewGitHub L ident secret (issuer @ ''/v1/oauth/github/callback''))))"
proof -
  obtain c signer where c: "Load fl getenv = Inr c"
    "NewSigner (srvLib B) (srvJwx B) \<lparr>cfIssuer = scfIssuer c, cfAccessTTL = in_microseconds (scfAccessTTL c),
       cfPrivateKey = scfSigningKey c, cfNextKey = scfSigningKeyNext c\<rparr> = Inr signer"
    "buildSender c = Some (svSender svc)"
    and S: "svServer svc = WithProviders (providers L c) (New_server B x signer (scfAdminAPIKey c) (\<not> scfDev c))"
    using assms(1) by (rule run_service_Serving)
  note loaded = Load_Inr [OF c(1)]
  have prod: "\<not> scfDev c" using loaded(7) assms(2) by simp
  have issuer: "sgIssuer signer = scfIssuer c" using NewSigner_Inr(2) [OF c(2)] by simp
  have admin: "requireAdmin (svServer svc) r nxt w = (Inl (Reply 401 (ErrBody ''unauthorized'' ''invalid admin key'')), w)"
    if "bearer r = []" "rqHeader r ''X-Admin-Key'' = []" for r w and nxt :: "reply handler"
    using that loaded(3) by (simp add: requireAdmin_def S writeErr_def)
  have offered: "\<exists>ident secret. ident \<noteq> [] \<and> secret \<noteq> [] \<and>
      (n = ''google'' \<and> p = NewGoogle L ident secret (scfIssuer c @ ''/v1/oauth/google/callback'') \<or>
       n = ''github'' \<and> p = NewGitHub L ident secret (scfIssuer c @ ''/v1/oauth/github/callback''))"
    if "(n, p) \<in> set (srvProviders (svServer svc))" for n p
  proof -
    have "n = pvName p" "p \<in> set (providers L c)" using that by (auto simp: S set_WithProviders)
    then show ?thesis
      unfolding providers_def OAuthApp_Configured_def by (auto split: if_splits) blast+
  qed
  have "svSender svc \<noteq> ByLog" using buildSender_log c(3) prod by auto
  moreover have "sgIssuer (srvSigner (svServer svc)) = scfIssuer c" "srvSecure (svServer svc)"
    using prod by (simp_all add: S issuer)
  moreover have "HasPrefix (scfIssuer c) ''https://''" using loaded(5) prod by simp
  ultimately show ?thesis
    using offered admin by (auto simp: Let_def setRefreshCookie_def set_cookie_def)
qed

text \<open>A deployment with Google and the HTTP sender.\<close>

definition production_env :: "string \<Rightarrow> string" where
  "production_env k = (case map_of [(''ISSUER'', ''https://auth.x.io/''), (''DATABASE_URL'', ''postgres://db''),
     (''ED25519_PRIVATE_KEY'', seed_text), (''ADMIN_API_KEY'', ''admin''), (''RESEND_API_KEY'', ''re''),
     (''MAIL_FROM'', ''no-reply@x.io''), (''GOOGLE_CLIENT_ID'', ''gid''), (''GOOGLE_CLIENT_SECRET'', ''gsecret'')] k of
     None \<Rightarrow> [] | Some v \<Rightarrow> v)"

definition idle_oauth :: "unit oauth_lib" where
  "idle_oauth = \<lparr>olAuthCodeURL = (\<lambda>c st ps. st), olExchange = (\<lambda>c code ps. None), olClient = (\<lambda>c t u. DoFails),
     olJSON = (\<lambda>s. None)\<rparr>"

lemma seed_text_filled: "seed_text \<noteq> []"
proof -
  have "length seed_text = 43" by (simp add: seed_text_def length_EncodeToString)
  then show ?thesis by auto
qed

lemma production_runs: "\<exists>svc. run_service (\<lambda>f u s. 0) production_env ((demo_server JNull None)\<lparr>srvJwx := demo_jwx\<rparr>) idle_oauth
    (calm 10 ''K'' CHR ''a'') False True True = Serving svc"
proof -
  have key: "parseKey plain demo_jwx seed_text = Inr demo_key"
    using NewSigner_Inr(4) [OF demo_NewSigner] by (simp add: demo_config_def demo_signer_def)
  have "\<exists>c. Load (\<lambda>f u s. 0) production_env = Inr c \<and> scfSigningKey c = seed_text \<and> scfSigningKeyNext c = [] \<and>
      scfResendAPIKey c \<noteq> [] \<and> scfMailFrom c \<noteq> []"
    by (simp add: Load_def Let_def raw_config_def env_or_def production_env_def ParseDuration_hour missing_def
        TrimRight_def HasPrefix_def seed_text_filled)
  then obtain c where c: "Load (\<lambda>f u s. 0) production_env = Inr c" "scfSigningKey c = seed_text"
    "scfSigningKeyNext c = []" "scfResendAPIKey c \<noteq> []" "scfMailFrom c \<noteq> []" by blast
  have "\<exists>g. NewSigner plain demo_jwx \<lparr>cfIssuer = scfIssuer c, cfAccessTTL = in_microseconds (scfAccessTTL c),
      cfPrivateKey = scfSigningKey c, cfNextKey = scfSigningKeyNext c\<rparr> = Inr g"
    using key by (simp add: NewSigner_def c addPublic_def seed_text_filled Let_def) (simp add: demo_jwx_def)
  then show ?thesis
    using c(4,5) by (auto simp: run_service_def c(1) buildSender_def)
qed

theorem production_is_guarded_witness:
  "\<exists>svc. run_service (\<lambda>f u s. 0) production_env ((demo_server JNull None)\<lparr>srvJwx := demo_jwx\<rparr>) idle_oauth
     (calm 10 ''K'' CHR ''a'') False True True = Serving svc \<and> svSender svc \<noteq> ByLog"
proof -
  obtain svc where run: "run_service (\<lambda>f u s. 0) production_env ((demo_server JNull None)\<lparr>srvJwx := demo_jwx\<rparr>) idle_oauth
    (calm 10 ''K'' CHR ''a'') False True True = Serving svc" using production_runs by blast
  have "production_env ''DEV'' = []" by (simp add: production_env_def)
  from production_is_guarded [OF run this] run show ?thesis by (auto simp: Let_def)
qed

end
