(* ===== verification/Background.thy ===== *)
theory Background
  imports Deploy SdkKeys
begin

text \<open>
  The loops that run until they are told to stop: \<open>prune\<close> and the end of \<open>run\<close> in \<open>cmd/authsvc/main.go\<close>,
  \<open>keyCache.run\<close> of the library with \<open>Client.Close\<close>. Each is a \<open>select\<close> in a loop, so a partial function of
  what the channels hold at each turn; the lemmas say when it returns and what it has done by then.
\<close>

section \<open>Loops over a \<open>select\<close>\<close>

partial_function (option) event_loop :: "('i \<Rightarrow> 's \<Rightarrow> 'r + 's) \<Rightarrow> (nat \<Rightarrow> 'i) \<Rightarrow> nat \<Rightarrow> 's \<Rightarrow> 'r option" where
  "event_loop turn inputs i s =
     (case turn (inputs i) s of Inl r \<Rightarrow> Some r | Inr s' \<Rightarrow> event_loop turn inputs (Suc i) s')"

text \<open>
  A turn of a ticker loop: how often it was told to stop since the turn before, the tick waiting in the
  ticker's channel, and the choice of \<open>select\<close> when both channels are ready. With neither it waits.
\<close>

record 'e turn =
  tnStops :: nat
  tnTick :: "'e option"
  tnChoosesStop :: bool

definition ticker :: "('c \<Rightarrow> 'c) \<Rightarrow> ('c \<Rightarrow> bool) \<Rightarrow> ('e \<Rightarrow> 's \<Rightarrow> 's) \<Rightarrow> 'e turn \<Rightarrow> 'c \<times> 's \<Rightarrow> ('c \<times> 's) + ('c \<times> 's)" where
  "ticker arm stopped body t cs =
     (let c = (arm ^^ tnStops t) (fst cs) in
      if stopped c \<and> (tnTick t = None \<or> tnChoosesStop t) then Inl (c, snd cs)
      else Inr (c, case tnTick t of None \<Rightarrow> snd cs | Some e \<Rightarrow> body e (snd cs)))"

definition ticks :: "(nat \<Rightarrow> 'e turn) \<Rightarrow> nat \<Rightarrow> nat \<Rightarrow> 'e list" where
  "ticks turns i k = List.map_filter (\<lambda>j. tnTick (turns j)) [i..<k]"

section \<open>\<open>prune\<close>\<close>

text \<open>The context is cancelled by the first signal.\<close>

definition cancel :: "bool \<Rightarrow> bool" where
  "cancel done = True"

definition prune :: "env \<Rightarrow> (nat \<Rightarrow> env turn) \<Rightarrow> DB \<Rightarrow> DB option" where
  "prune start turns db =
     map_option snd (event_loop (ticker cancel (\<lambda>d. d) pruneOnce) turns 0 (False, pruneOnce start db))"

section \<open>\<open>keyCache.run\<close> and \<open>Client.Close\<close>\<close>

text \<open>The \<open>sync.Once\<close> and the channel of a client; closing a closed channel panics.\<close>

record closer =
  clOnce :: bool
  clStop :: bool
  clPanicked :: bool

definition close_stop :: "closer \<Rightarrow> closer" where
  "close_stop c = (if clStop c then c\<lparr>clPanicked := True\<rparr> else c\<lparr>clStop := True\<rparr>)"

definition Close :: "closer \<Rightarrow> closer" where
  "Close c = (if clOnce c then c else (close_stop c)\<lparr>clOnce := True\<rparr>)"

definition new_closer :: closer where
  "new_closer = \<lparr>clOnce = False, clStop = False, clPanicked = False\<rparr>"

text \<open>\<open>refresh\<close> as a whole, for an instant and an answer: nothing when another refresh holds the lock.\<close>

definition refresh ::
  "(string \<Rightarrow> Key list option) \<Rightarrow> sdk_config \<Rightarrow> instant \<times> (sdk_error + string) \<Rightarrow> key_cache \<Rightarrow> key_cache" where
  "refresh P cfg = (\<lambda>(now, answer) k.
     case begin_refresh k of None \<Rightarrow> k | Some k' \<Rightarrow> end_refresh P cfg now answer k')"

definition run_keys ::
  "(string \<Rightarrow> Key list option) \<Rightarrow> sdk_config \<Rightarrow> (nat \<Rightarrow> (instant \<times> (sdk_error + string)) turn) \<Rightarrow> key_cache \<Rightarrow>
   (closer \<times> key_cache) option" where
  "run_keys P cfg turns k = event_loop (ticker Close clStop (refresh P cfg)) turns 0 (new_closer, k)"

section \<open>The end of \<open>run\<close> and of the process\<close>

datatype listen_result = ServerClosed | ListenFails string

datatype run_error = NotStarted startup_error | ListenError string | ShutdownError string

text \<open>
  Whether the listener has returned, whether a signal came, the choice of \<open>select\<close>, and what
  \<open>Shutdown\<close> answers if it is called.
\<close>

record moment =
  moListener :: "listen_result option"
  moSignal :: bool
  moChoosesError :: bool
  moShutdown :: "string option"

definition listen_turn :: "moment \<Rightarrow> unit \<Rightarrow> run_error option + unit" where
  "listen_turn m u =
     (let sent = (case moListener m of Some (ListenFails e) \<Rightarrow> Some e | _ \<Rightarrow> None) in
      case sent of
        Some e \<Rightarrow>
          if moSignal m \<and> \<not> moChoosesError m then Inl (map_option ShutdownError (moShutdown m))
          else Inl (Some (ListenError e))
      | None \<Rightarrow> if moSignal m then Inl (map_option ShutdownError (moShutdown m)) else Inr ())"

text \<open>The status \<open>main\<close> exits with, when it does.\<close>

definition main_exit :: "run_outcome \<Rightarrow> (nat \<Rightarrow> moment) \<Rightarrow> nat option" where
  "main_exit started moments =
     (let err = (case started of
          StartFails e \<Rightarrow> Some (Some (NotStarted e))
        | MigrationsApplied \<Rightarrow> Some None
        | Serving _ \<Rightarrow> event_loop listen_turn moments 0 ())
      in map_option (\<lambda>e. if e = None then 0 else 1) err)"

section \<open>When a ticker loop returns\<close>

text \<open>A loop that returns has come to the turn that ends it, its invariant kept until then.\<close>

lemma event_loop_inv:
  assumes "event_loop turn inputs i s = Some r" and "I i s"
    and "\<And>j s s'. I j s \<Longrightarrow> turn (inputs j) s = Inr s' \<Longrightarrow> I (Suc j) s'"
  shows "\<exists>k s'. I k s' \<and> turn (inputs k) s' = Inl r"
proof -
  have "\<forall>I. I i s \<longrightarrow> (\<forall>j s s'. I j s \<longrightarrow> turn (inputs j) s = Inr s' \<longrightarrow> I (Suc j) s') \<longrightarrow>
      (\<exists>k s'. I k s' \<and> turn (inputs k) s' = Inl r)"
  proof (rule event_loop.raw_induct [OF _ assms(1)])
    fix loop turn inputs i s r
    assume IH: "\<And>turn inputs i s r. loop turn inputs i s = Some r \<Longrightarrow>
        \<forall>I. I i s \<longrightarrow> (\<forall>j s s'. I j s \<longrightarrow> turn (inputs j) s = Inr s' \<longrightarrow> I (Suc j) s') \<longrightarrow>
          (\<exists>k s'. I k s' \<and> turn (inputs k) s' = Inl r)"
      and run: "(case turn (inputs i) s of Inl r \<Rightarrow> Some r | Inr s' \<Rightarrow> loop turn inputs (Suc i) s') = Some r"
    show "\<forall>I. I i s \<longrightarrow> (\<forall>j s s'. I j s \<longrightarrow> turn (inputs j) s = Inr s' \<longrightarrow> I (Suc j) s') \<longrightarrow>
        (\<exists>k s'. I k s' \<and> turn (inputs k) s' = Inl r)"
      using run IH by (cases "turn (inputs i) s") fastforce+
  qed
  with assms(2,3) show ?thesis by blast
qed

lemma ticks_Suc: "ticks turns 0 (Suc k) = ticks turns 0 k @ (case tnTick (turns k) of None \<Rightarrow> [] | Some e \<Rightarrow> [e])"
  by (simp add: ticks_def map_filter_def split: option.split)

text \<open>Something that is told to stop once and for all, whatever the state \<open>ok\<close> it is in.\<close>

locale stoppable =
  fixes arm :: "'c \<Rightarrow> 'c" and stopped :: "'c \<Rightarrow> bool" and ok :: "'c \<Rightarrow> bool" and start :: 'c
  assumes fresh: "ok start" "\<not> stopped start"
    and arms: "ok c \<Longrightarrow> ok (arm c) \<and> stopped (arm c)"
begin

lemma arms_often: "ok c \<Longrightarrow> ok ((arm ^^ n) c) \<and> (stopped ((arm ^^ n) c) \<longleftrightarrow> stopped c \<or> 0 < n)"
proof (induction n)
  case (Suc n)
  then show ?case using arms [of "(arm ^^ n) c"] by simp
qed simp

lemma returns_by:
  assumes "ok c" and "stopped c \<or> (\<exists>j. i \<le> j \<and> j \<le> m \<and> 0 < tnStops (turns j))" and "i \<le> m"
    and "tnTick (turns m) = None"
  shows "\<exists>k c'. i \<le> k \<and> k \<le> m \<and> ok c' \<and> stopped c' \<and>
    event_loop (ticker arm stopped body) turns i (c, s) = Some (c', fold body (ticks turns i k) s)"
  using assms
proof (induction "m - i" arbitrary: i c s)
  case 0
  then have "i = m" by simp
  let ?c = "(arm ^^ tnStops (turns m)) c"
  have "ok ?c" "stopped ?c" using arms_often [OF 0(2), of "tnStops (turns m)"] 0(3) \<open>i = m\<close> by auto
  with 0 \<open>i = m\<close> show ?case
    by (intro exI [of _ m] exI [of _ ?c]) (simp add: event_loop.simps ticker_def Let_def ticks_def)
next
  case (Suc n)
  let ?t = "turns i"
  let ?c = "(arm ^^ tnStops ?t) c"
  have c: "ok ?c" "stopped ?c \<longleftrightarrow> stopped c \<or> 0 < tnStops ?t" using arms_often [OF Suc.prems(1)] by simp_all
  show ?case
  proof (cases "stopped ?c \<and> (tnTick ?t = None \<or> tnChoosesStop ?t)")
    case True
    with c Suc.prems(3) show ?thesis
      by (intro exI [of _ i] exI [of _ ?c]) (simp add: event_loop.simps ticker_def ticks_def)
  next
    case False
    let ?s = "case tnTick ?t of None \<Rightarrow> s | Some e \<Rightarrow> body e s"
    have next': "event_loop (ticker arm stopped body) turns i (c, s) =
        event_loop (ticker arm stopped body) turns (Suc i) (?c, ?s)"
      using False by (subst event_loop.simps) (auto simp: ticker_def Let_def split: option.split)
    have n: "n = m - Suc i" and le: "Suc i \<le> m" using Suc.hyps(2) by arith+
    have "stopped ?c \<or> (\<exists>j. Suc i \<le> j \<and> j \<le> m \<and> 0 < tnStops (turns j))"
      using Suc.prems(2) c(2) by (metis Suc_leI le_neq_implies_less)
    then obtain k c' where k: "Suc i \<le> k" "k \<le> m" "ok c'" "stopped c'"
      "event_loop (ticker arm stopped body) turns (Suc i) (?c, ?s) = Some (c', fold body (ticks turns (Suc i) k) ?s)"
      using Suc.hyps(1) [OF n c(1) _ le Suc.prems(4), of ?s] by blast
    have "fold body (ticks turns i k) s = fold body (ticks turns (Suc i) k) ?s"
      using k(1) by (simp add: ticks_def upt_conv_Cons split: option.split)
    with k next' show ?thesis by (intro exI [of _ k] exI [of _ c']) simp
  qed
qed

lemma told_before:
  assumes "event_loop (ticker arm stopped body) turns 0 (start, s) = Some (c', s')"
  shows "ok c' \<and> (\<exists>k. s' = fold body (ticks turns 0 k) s \<and> (\<exists>j \<le> k. 0 < tnStops (turns j)))"
proof -
  define I where "I j cs \<longleftrightarrow> ok (fst cs) \<and> snd cs = fold body (ticks turns 0 j) s \<and>
    (stopped (fst cs) \<longleftrightarrow> (\<exists>l < j. 0 < tnStops (turns l)))" for j cs
  have "I 0 (start, s)" by (simp add: I_def ticks_def fresh)
  moreover have "I (Suc j) cs'" if "I j cs" "ticker arm stopped body (turns j) cs = Inr cs'" for j cs cs'
    using that arms_often [of "fst cs" "tnStops (turns j)"]
    by (auto simp: I_def ticker_def Let_def ticks_Suc less_Suc_eq split: if_splits option.splits)
  ultimately obtain k cs where k: "I k cs" "ticker arm stopped body (turns k) cs = Inl (c', s')"
    using event_loop_inv [OF assms, of I] by blast
  let ?c = "(arm ^^ tnStops (turns k)) (fst cs)"
  have end': "c' = ?c" "s' = snd cs" "stopped ?c" using k(2) by (auto simp: ticker_def Let_def split: if_splits)
  have cs: "ok (fst cs)" "snd cs = fold body (ticks turns 0 k) s" "stopped (fst cs) \<longleftrightarrow> (\<exists>l < k. 0 < tnStops (turns l))"
    using k(1) by (simp_all add: I_def)
  have "ok ?c" "stopped (fst cs) \<or> 0 < tnStops (turns k)"
    using arms_often [OF cs(1), of "tnStops (turns k)"] end'(3) by simp_all
  moreover from this(2) have "\<exists>j \<le> k. 0 < tnStops (turns j)"
    unfolding cs(3) by (auto intro: less_imp_le)
  ultimately show ?thesis using end'(1,2) cs(2) by auto
qed

text \<open>So it returns when it is told to, if not always a tick is waiting, and not before.\<close>

lemma returns_iff:
  assumes "\<And>i. \<exists>m \<ge> i. tnTick (turns m) = None"
  shows "event_loop (ticker arm stopped body) turns 0 (start, s) \<noteq> None \<longleftrightarrow> (\<exists>j. 0 < tnStops (turns j))"
proof
  assume "event_loop (ticker arm stopped body) turns 0 (start, s) \<noteq> None"
  then show "\<exists>j. 0 < tnStops (turns j)" using told_before by fast
next
  assume "\<exists>j. 0 < tnStops (turns j)"
  then obtain j m where "0 < tnStops (turns j)" "j \<le> m" "tnTick (turns m) = None" using assms by blast
  then show "event_loop (ticker arm stopped body) turns 0 (start, s) \<noteq> None"
    using returns_by [OF fresh(1), of 0 m turns body s] by auto
qed

end

interpretation cancelling: stoppable cancel "\<lambda>d. d" "\<lambda>_. True" False
  by unfold_locales (simp_all add: cancel_def)

interpretation closing: stoppable Close clStop "\<lambda>c. clOnce c = clStop c \<and> \<not> clPanicked c" new_closer
  by unfold_locales (auto simp: Close_def close_stop_def new_closer_def)

section \<open>Properties\<close>

text \<open>C30: the prune loop ends exactly when the service is told to stop: if not always a tick is waiting it
  returns when the context was cancelled, and only then; it has returned by the first turn after the
  cancellation that finds no tick, with the database pruned once at the start and once for each tick
  taken before.\<close>

theorem prune_ends:
  assumes "\<And>i. \<exists>m \<ge> i. tnTick (turns m) = None"
  shows "(prune start turns db \<noteq> None \<longleftrightarrow> (\<exists>j. 0 < tnStops (turns j))) \<and>
    (\<forall>j m. j \<le> m \<and> 0 < tnStops (turns j) \<and> tnTick (turns m) = None \<longrightarrow>
      (\<exists>k \<le> m. prune start turns db = Some (prune_loop start (ticks turns 0 k) db)))"
proof (intro conjI allI impI)
  show "prune start turns db \<noteq> None \<longleftrightarrow> (\<exists>j. 0 < tnStops (turns j))"
    using cancelling.returns_iff [OF assms] by (simp add: prune_def)
  fix j m assume "j \<le> m \<and> 0 < tnStops (turns j) \<and> tnTick (turns m) = None"
  then show "\<exists>k \<le> m. prune start turns db = Some (prune_loop start (ticks turns 0 k) db)"
    using cancelling.returns_by [of False 0 m turns pruneOnce "pruneOnce start db"]
    by (auto simp: prune_def prune_loop_def)
qed

text \<open>C31: the refresher of the library's keys ends exactly when the client is closed, however often and from
  however many places: closing never panics, and the loop returns by the first turn after it that
  finds no tick, with one refresh for each tick taken before.\<close>

theorem key_refresher_ends:
  assumes "\<And>i. \<exists>m \<ge> i. tnTick (turns m) = None"
  shows "(run_keys P cfg turns k \<noteq> None \<longleftrightarrow> (\<exists>j. 0 < tnStops (turns j))) \<and>
    (\<forall>j m. j \<le> m \<and> 0 < tnStops (turns j) \<and> tnTick (turns m) = None \<longrightarrow>
      (\<exists>n \<le> m. \<exists>c. run_keys P cfg turns k = Some (c, fold (refresh P cfg) (ticks turns 0 n) k) \<and>
        clStop c \<and> \<not> clPanicked c))"
proof (intro conjI allI impI)
  show "run_keys P cfg turns k \<noteq> None \<longleftrightarrow> (\<exists>j. 0 < tnStops (turns j))"
    unfolding run_keys_def by (rule closing.returns_iff [OF assms])
  fix j m assume "j \<le> m \<and> 0 < tnStops (turns j) \<and> tnTick (turns m) = None"
  then show "\<exists>n \<le> m. \<exists>c. run_keys P cfg turns k = Some (c, fold (refresh P cfg) (ticks turns 0 n) k) \<and>
      clStop c \<and> \<not> clPanicked c"
    using closing.returns_by [OF closing.fresh(1), of 0 m turns "refresh P cfg" k]
    unfolding run_keys_def by blast
qed

text \<open>A tick is taken, then the loop is told to stop, twice.\<close>

definition demo_turns :: "'e \<Rightarrow> nat \<Rightarrow> 'e turn" where
  "demo_turns e i = \<lparr>tnStops = (if i = 2 then 2 else 0), tnTick = (if i = 1 then Some e else None), tnChoosesStop = False\<rparr>"

lemma demo_turns_quiet: "\<exists>m \<ge> i. tnTick (demo_turns e m) = None"
  by (intro exI [of _ "i + 2"]) (simp add: demo_turns_def)

theorem prune_ends_witness:
  "prune demo_env (demo_turns demo_env) demo_db = Some (prune_loop demo_env [demo_env] demo_db) \<and>
   (\<exists>j. 0 < tnStops (demo_turns demo_env j))"
proof
  show "prune demo_env (demo_turns demo_env) demo_db = Some (prune_loop demo_env [demo_env] demo_db)"
    by (simp add: prune_def prune_loop_def event_loop.simps ticker_def demo_turns_def cancel_def Let_def numeral_2_eq_2)
  then show "\<exists>j. 0 < tnStops (demo_turns demo_env j)"
    using prune_ends [OF demo_turns_quiet, of demo_env demo_env demo_db] by auto
qed

theorem key_refresher_ends_witness:
  "\<exists>n \<le> 2. \<exists>c. run_keys (\<lambda>_. None) demo_sdk (demo_turns (hour, Inr ''not keys'')) newKeyCache =
     Some (c, fold (refresh (\<lambda>_. None) demo_sdk) (ticks (demo_turns (hour, Inr ''not keys'')) 0 n) newKeyCache) \<and>
     clStop c \<and> \<not> clPanicked c"
  by (rule key_refresher_ends [OF demo_turns_quiet, THEN conjunct2, rule_format, of 2 2]) (simp add: demo_turns_def)

text \<open>The process ends with status 1 when the service could not start; once it serves, it ends when a
  signal comes or the listener fails, and with status 0 only after a signal and a clean shutdown.\<close>

theorem main_ends:
  "main_exit (StartFails e) moments = Some 1"
  "main_exit MigrationsApplied moments = Some 0"
  "main_exit (Serving svc) moments = Some n \<Longrightarrow> \<exists>i. if n = 0 then moSignal (moments i) \<and> moShutdown (moments i) = None
     else (\<exists>err. moListener (moments i) = Some (ListenFails err)) \<or> moSignal (moments i) \<and> moShutdown (moments i) \<noteq> None"
proof -
  assume "main_exit (Serving svc) moments = Some n"
  then obtain err where err: "event_loop listen_turn moments 0 () = Some err" "n = (if err = None then 0 else 1)"
    by (auto simp: main_exit_def)
  obtain i where "listen_turn (moments i) () = Inl err"
    using event_loop_inv [OF err(1), of "\<lambda>_ _. True"] by auto
  with err(2) show "\<exists>i. if n = 0 then moSignal (moments i) \<and> moShutdown (moments i) = None
      else (\<exists>err. moListener (moments i) = Some (ListenFails err)) \<or> moSignal (moments i) \<and> moShutdown (moments i) \<noteq> None"
    by (intro exI [of _ i])
      (auto simp: listen_turn_def Let_def split: option.splits listen_result.splits if_splits)
qed (simp_all add: main_exit_def)

lemma main_ends_when_asked:
  assumes "moSignal (moments i) \<or> (\<exists>err. moListener (moments i) = Some (ListenFails err))"
  shows "main_exit (Serving svc) moments \<noteq> None"
proof -
  have "event_loop listen_turn moments j () \<noteq> None" if "j \<le> i" for j
    using that
  proof (induction "i - j" arbitrary: j)
    case 0
    then show ?case using assms
      by (subst event_loop.simps) (auto simp: listen_turn_def Let_def split: option.split listen_result.split)
  next
    case (Suc n)
    then have "event_loop listen_turn moments (Suc j) () \<noteq> None" by simp
    then show ?case by (subst event_loop.simps) (simp split: sum.split)
  qed
  then show ?thesis by (simp add: main_exit_def)
qed

end
