(* ===== verification/Spec2Isabelle.thy ===== *)
theory Spec2Isabelle
  imports Prelude Machine Base64 GoStrings Json Store Sessions Lineage Users Codes OTP RateLimit Flows
    OAuth Linking Password Token Http AuthHandlers SessionHandlers OAuthHandlers Integrity Service
    Refinement Outcomes Reachable Example Guarantees Privacy Divergences Replies Tasks Interleaving Overlaps Snapshots
    SdkNet SdkKeys Sdk SdkService Settings Notify Pages Deploy Background
begin

text \<open>
  \<^bold>\<open>authsvc\<close>: an authentication service (Go, \<open>src/internal\<close>, \<open>src/cmd\<close>) and the library its
  applications use (\<open>src/sdk/go\<close>).

  \<^bold>\<open>The program.\<close> \<open>cmd/authsvc\<close> loads its configuration from the environment, opens Postgres, and
  serves the endpoints of \<open>internal/httpapi\<close>. A handler decodes a request, passes the rate limiter,
  calls \<open>internal/store\<close>, \<open>internal/password\<close>, \<open>internal/linking\<close>, \<open>internal/oauth\<close> and \<open>internal/notify\<close>,
  and answers with tokens that \<open>internal/token\<close> signs. An access token is a signed JWT that lives an
  hour; a refresh token is opaque, is rotated at every use, and belongs to a family that dies when a
  spent member comes back. Logins go through a password, a mailed code, or a provider; the browser
  comes back from a provider to a callback, which hands a one-time code to the application, which
  exchanges it on its own server. A prune runs beside the requests. An application verifies tokens
  locally with the keys its \<open>sdk/go\<close> client caches, and calls the service only to log in and refresh.

  \<^bold>\<open>Which theory models what.\<close>

  \<^item> \<open>Prelude\<close>: time, the context of a call (clock, randomness, identifiers, failures), tables as lists of
    rows, actions with early returns. \<open>Machine\<close>: the locales \<open>machine\<close>, \<open>absorbing\<close> and \<open>one_time\<close> for
    state machines, what stays true once it is, and secrets that are redeemed once.
  \<^item> \<open>Base64\<close>, \<open>GoStrings\<close>, \<open>Json\<close>: what the program uses of Go's library.
  \<^item> \<open>Store\<close>, \<open>Users\<close>, \<open>Sessions\<close>, \<open>Codes\<close>, \<open>Flows\<close>, \<open>RateLimit\<close>: \<open>internal/store\<close>. The record \<open>DB\<close> holds one
    list of rows per table; \<open>db_ok\<close> is the primary, unique and foreign keys of the migrations, which the
    inserts check; every Go method is the definition of its name, a function from the database to a
    result and a database, its transaction rolled back on every error.
  \<^item> \<open>Lineage\<close>, \<open>Flows\<close>, \<open>OTP\<close>: the machines of refresh families, of states and authorization codes, and
    of mailed codes and tokens. Their steps are the store's operations with any argument, in any
    order, so every interleaving of operations of concurrent requests is a run.
  \<^item> \<open>OAuth\<close>, \<open>Linking\<close>, \<open>Password\<close>, \<open>Token\<close>: the packages of these names. \<open>Linking\<close> has the Go interface
    \<open>Store\<close> as the locale \<open>identity_store\<close>, interpreted on the store's operations.
  \<^item> \<open>Http\<close>, \<open>AuthHandlers\<close>, \<open>SessionHandlers\<close>, \<open>OAuthHandlers\<close>: \<open>internal/httpapi\<close>. A handler is an action
    on the record \<open>world\<close> (database, mails handed over, background deliveries, cookies and headers) that
    ends in a \<open>reply\<close>. \<open>Pages\<close>: key set, health check and static pages.
  \<^item> \<open>Service\<close>: the routing table, the prune, and the machine of the whole service, whose steps serve a
    request, deliver a background mail, or prune. \<open>Integrity\<close> has the facts on constraints and
    redirects it rests on.
  \<^item> \<open>Refinement\<close>: the service with the history of what it has drawn at random, and the simulation of the
    three store machines (locale \<open>shadow\<close>). \<open>Outcomes\<close>: what a handler did when its reply is not an error.
    \<open>Reachable\<close>: what holds of every history. \<open>Example\<close>: a small deployment the witnesses run.
  \<^item> \<open>Guarantees\<close>, \<open>Privacy\<close>, \<open>Divergences\<close>: the properties of the endpoints; \<open>Privacy\<close> has the locale
    \<open>observer\<close> for what a reply depends on; \<open>Divergences\<close> states where the code does less than its
    documents or its purpose ask. \<open>Replies\<close>: the types of what each endpoint answers.
  \<^item> \<open>Tasks\<close>, \<open>Interleaving\<close>, \<open>Overlaps\<close>: requests at the same time. \<open>Tasks\<close> cuts the handlers of login, refresh,
    exchange and reset at their calls of the store and shows that, run alone, they are the handlers.
    \<open>Interleaving\<close> has pools of tasks that take turns on a machine of the store, with anything else
    between their calls (locale \<open>pool\<close>, over \<open>absorbing\<close>): of those that present one secret one gets past
    it. \<open>Overlaps\<close> has schedules of tasks alone, and the login that a reset does not reach. \<open>Snapshots\<close> looks at
    what an \<open>UPDATE\<close> that waits does at the isolation level of the service.
  \<^item> \<open>SdkNet\<close>, \<open>SdkKeys\<close>, \<open>Sdk\<close>: \<open>sdk/go\<close>, in this order: configuration, requests with failover, sessions;
    the key cache and its machine; verification, guards, callback and error page. \<open>SdkService\<close>: the library
    and the service together.
  \<^item> \<open>Settings\<close> (\<open>internal/config\<close>), \<open>Notify\<close> (\<open>internal/notify\<close>), \<open>Deploy\<close> (\<open>cmd/authsvc\<close>, \<open>cmd/genkey\<close>, the
    providers' constructors, the migrations). \<open>Background\<close>: the loops that run until they are told to stop,
    \<open>prune\<close>, \<open>keyCache.run\<close> with \<open>Close\<close>, and the end of \<open>run\<close> and \<open>main\<close> (locale \<open>stoppable\<close>).

  \<^bold>\<open>How code and model correspond.\<close> Instants and durations count microseconds, the resolution of
  \<open>timestamptz\<close>; \<open>Settings\<close> counts nanoseconds as \<open>time.Duration\<close> does. Strings are byte strings. Errors are
  values of a sum. Each call of the store runs in a context \<open>ctx e site\<close> of its own, where \<open>flt\<close> says which
  of its statements fail for reasons of the database, so every error branch is reachable. One
  statement, or one transaction with \<open>FOR UPDATE\<close>, is atomic; between two calls of a handler the
  machines of the store and the pools of tasks allow any other operation, the machine of the service
  serves one request after another. Integers of the code that could overflow keep their width (\<open>RateLimit\<close>, \<open>Json\<close>,
  \<open>ParseDuration\<close>).

  \<^bold>\<open>Parameters.\<close> \<open>lib\<close>: sha256, argon2, citext and Unicode case; \<open>jwx\<close>: the JWT library and Ed25519, with its
  documented laws \<open>signatures_verify\<close>, \<open>keys_collect\<close> and \<open>tokens_bind\<close> as named hypotheses; the JSON grammar and
  encoders, URL parsing, \<open>golang.org/x/oauth2\<close>, the network, the mail server. Freshness of random values
  is the hypothesis \<open>new_ctx\<close> or \<open>unused\<close>: what is drawn was not drawn before.

  \<^bold>\<open>What the lemmas show.\<close> The keys of the database hold in every reachable state
  (\<open>every_run_is_consistent\<close>) and the service refines its machines (\<open>service_refines_store\<close>), so that what the
  machines promise holds of the endpoints: refresh tokens, authorization codes, states and reset
  tokens are accepted once, also when several requests present them at the same time; reuse, logout,
  logout everywhere and reset are final for every session there is when they come. Linking needs the
  address verified on both sides, and follows its decision table. Logins need the password or the
  outstanding code. Replies to a forgotten password say nothing about accounts. Signing and
  verifying, hashing and verifying, minting and redeeming, and the exchange of library and service
  are round trips. Guesses, requests per window and attempts of the library are bounded. The library
  trusts only current keys and only tokens of its own application. A production start is guarded.

  \<^bold>\<open>Recursion.\<close> Every definition is a total function; loops over rows, bytes and parts recurse on their
  input (\<open>strip\<close>, \<open>sum_parts\<close> and \<open>crlf_lines\<close> by the length of what is left), so no fuel is needed. Only the loops
  over a \<open>select\<close> in \<open>Background\<close> are partial, \<open>None\<close> when they never return; that they return when told to
  stop, and only then, is proved. What they do meanwhile are steps of the machines.

  \<^bold>\<open>Not modelled.\<close> The access log and the logger, flags, what delivers signals, the HTTP listener and its
  timeouts, the pool of connections and goose are I/O; the statements inside one call of the store
  are not interleaved (\<open>Snapshots\<close> shows where that matters: what is final here is so when no revocation
  waits for a rotation), nor are the handlers other than the four of \<open>Tasks\<close>; the timing of answers is
  not modelled; tickers only decide when a tick is taken.
\<close>

section \<open>The service as a whole\<close>

text \<open>C11: every history the service can reach from a fresh deployment, by any requests, deliveries and
  prunes in any order, keeps the constraints of the database, holds only flows whose redirect is
  registered for their client, and its refresh families, states, codes and emailed tokens are well
  formed and recorded.\<close>

theorem every_run_is_consistent:
  assumes "history_start S h0" and "runs S h0 h"
  shows "db_ok (srvLib S) (wDB (hWorld h)) \<and> redirects_ok (wDB (hWorld h)) \<and> lineage_inv (lineage_of h) \<and>
    secrets_inv (secrets_of h) \<and> otp_inv (otps_of h)"
  using consistentD [OF audited.reach_inv [OF assms]] by blast

text \<open>A deployment with an account and a client, where the account's first login is served.\<close>

definition new_deployment :: history where
  "new_deployment = \<lparr>hWorld = on_world (demo_db\<lparr>sessions := [], auth_codes := [], otp_codes := [], oauth_flows := []\<rparr>),
     hIDs = {}, hTokens = {}, hStates = {}, hCodes = {}\<rparr>"

lemma new_deployment_starts: "history_start (demo_server v c) new_deployment"
  by (simp add: history_start_def new_deployment_def db_ok_def demo_defs user_exists_def client_exists_def)

lemma new_deployment_unused: "unused plain demo_env new_deployment"
  by (simp add: unused_def new_deployment_def)

theorem every_run_is_consistent_witness:
  "\<exists>h. runs (demo_server login_body None) new_deployment h \<and> sessions (wDB (hWorld h)) \<noteq> [] \<and>
    db_ok plain (wDB (hWorld h)) \<and> lineage_inv (lineage_of h)"
proof -
  let ?S = "demo_server login_body None"
  have "\<exists>t w1. handleLogin ?S demo_env demo_request (opened (hWorld new_deployment)) = (Inl (Reply 200 (Tokens t)), w1) \<and>
      sessions (wDB w1) \<noteq> []"
    by (simp add: new_deployment_def handleLogin_def seq_def decode_login demo_login_def normalize_plain demo_limit
        demo_limit_other demo_clientIP lookupClient_def read_db_def ClientByID_def demo_db_def demo_client_def
        UserByEmail_def scanUser_def demo_user_def Verify_hashed run_db_def zoom_def issue_examples)
  then obtain t w1 where run: "serve (Routes ?S demo_env demo_request Login) (fresh_response (hWorld new_deployment)) =
      (Reply 200 (Tokens t), w1)" and new: "sessions (wDB w1) \<noteq> []"
    unfolding serve_Routes by (auto simp: Routes_def)
  have "runs ?S new_deployment (served ?S demo_env new_deployment w1)"
    by (rule r_into_rtranclp, rule request_runs [OF _ run]) (simp add: new_deployment_unused)
  with every_run_is_consistent [OF new_deployment_starts this] new show ?thesis by auto
qed

text \<open>C10: the service refines the three machines of the store: whatever requests, deliveries and prunes
  lead from one history to another, what the refresh families, the states and authorization codes,
  and the emailed tokens see of it is a run of their own machine.\<close>

theorem service_refines_store:
  assumes "runs S h h'"
  shows "rtranclp (session_step (srvLib S)) (lineage_of h) (lineage_of h') \<and>
    rtranclp (flow_step (srvLib S)) (secrets_of h) (secrets_of h') \<and>
    rtranclp (otp_step (srvLib S)) (otps_of h) (otps_of h')"
  using lineage_shadow.run_simulates [OF assms] secrets_shadow.run_simulates [OF assms]
    otps_shadow.run_simulates [OF assms] by blast

theorem service_refines_store_witness:
  "\<exists>w1. (\<exists>t. serve (Routes (demo_server JNull None) demo_env refresh_request Refresh)
      (fresh_response (on_world demo_db)) = (Reply 200 (Tokens t), w1)) \<and>
    rtranclp (session_step plain) (lineage_of demo_history)
      (lineage_of (served (demo_server JNull None) demo_env demo_history w1))"
proof -
  let ?S = "demo_server JNull None"
  obtain t w1 where run: "serve (Routes ?S demo_env refresh_request Refresh) (fresh_response (hWorld demo_history)) =
      (Reply 200 (Tokens t), w1)"
    using demo_refresh by auto
  have "runs ?S demo_history (served ?S demo_env demo_history w1)"
    by (rule r_into_rtranclp, rule request_runs [OF _ run]) (simp add: demo_unused)
  from service_refines_store [OF this] run show ?thesis by auto
qed

end
